theory Spec2Isabelle
  imports Complex_Main "HOL-Library.Word" "HOL-Library.Multiset"
begin

unbundle bit_operations_syntax

section \<open>R-tree virtual table (ext/rtree/rtree.c): data model\<close>

text \<open>
  The embedding follows \<^verbatim>\<open>src/ext/rtree/rtree.c\<close>. C \<^verbatim>\<open>int\<close> values that stay small
  (sizes, counts, heights, result codes) are HOL integers; bytes, coordinates and 64-bit
  rowids are machine words. A pointer into a node image is the image together with an
  offset. A pointer to a heap object is an address.
\<close>

type_synonym u8 = "8 word"
type_synonym u32 = "32 word"
type_synonym i64 = "64 word"
type_synonym addr = nat

text \<open>
  \<^verbatim>\<open>union RtreeCoord { RtreeValue f; int i; }\<close>: four bytes, read either as a float or
  as a signed integer. The embedding keeps the bit pattern.
\<close>

type_synonym RtreeCoord = "32 word"

text \<open>
  \<^verbatim>\<open>struct RtreeCell\<close>. The C array \<^verbatim>\<open>aCoord\<close> has room for ten coordinates, of which
  the first \<^verbatim>\<open>2*nDim\<close> are in use; the list holds the coordinates in use.
\<close>

record RtreeCell =
  iRowid :: i64
  aCoord :: "RtreeCoord list"

text \<open>
  \<^verbatim>\<open>struct RtreeNode\<close>. The hash chain link \<^verbatim>\<open>pNext\<close> is represented by the position
  of the node's address in its bucket (see \<open>aHash\<close> below).
\<close>

record RtreeNode =
  pParent :: "addr option"
  iNode :: i64
  nRef :: int
  isDirty :: int
  zData :: "u8 list"

text \<open>
  \<^verbatim>\<open>struct Rtree\<close>, without the database handle, the names and the nine prepared
  statements. Each of the \<^verbatim>\<open>HASHSIZE\<close> buckets of \<^verbatim>\<open>aHash\<close> is the chain of node
  addresses, head first.
\<close>

record Rtree =
  iNodeSize :: int
  nDim :: int
  nBytesPerCell :: int
  iDepth :: int
  aHash :: "addr list list"
  nBusy :: int
  iReinsertHeight :: int
  eCoordType :: int

definition RTREE_COORD_REAL32 :: int where "RTREE_COORD_REAL32 = 0"
definition RTREE_COORD_INT32 :: int where "RTREE_COORD_INT32 = 1"
definition HASHSIZE :: int where "HASHSIZE = 128"
definition RTREE_MAX_DEPTH :: int where "RTREE_MAX_DEPTH = 40"
definition RTREE_MAX_DIMENSIONS :: int where "RTREE_MAX_DIMENSIONS = 5"

definition RTREE_EQ :: int where "RTREE_EQ = 0x41"
definition RTREE_LE :: int where "RTREE_LE = 0x42"
definition RTREE_LT :: int where "RTREE_LT = 0x43"
definition RTREE_GE :: int where "RTREE_GE = 0x44"
definition RTREE_GT :: int where "RTREE_GT = 0x45"
definition RTREE_MATCH :: int where "RTREE_MATCH = 0x46"

text \<open>
  Modelled from the spec: the result codes (OK, OOM, Corruption, Constraint, a row is
  available) and the conflict policy REPLACE belong to the host's header
  \<^verbatim>\<open>sqlite3.h\<close>, which is not part of the extension's source. The numbers are the ones
  that header gives them; the theorems only use that they are different.
\<close>

definition SQLITE_OK :: int where "SQLITE_OK = 0"
definition SQLITE_ERROR :: int where "SQLITE_ERROR = 1"
definition SQLITE_NOMEM :: int where "SQLITE_NOMEM = 7"
definition SQLITE_CONSTRAINT :: int where "SQLITE_CONSTRAINT = 19"
definition SQLITE_ROW :: int where "SQLITE_ROW = 100"
definition SQLITE_CORRUPT_VTAB :: int where "SQLITE_CORRUPT_VTAB = 267"
definition SQLITE_REPLACE :: int where "SQLITE_REPLACE = 5"

text \<open>C integer division truncates towards zero; HOL's \<open>div\<close> rounds down.\<close>

definition c_div :: "int \<Rightarrow> int \<Rightarrow> int" where
  "c_div a b = sgn a * sgn b * (\<bar>a\<bar> div \<bar>b\<bar>)"

definition c_mod :: "int \<Rightarrow> int \<Rightarrow> int" where
  "c_mod a b = a - b * c_div a b"

text \<open>\<^verbatim>\<open>RTREE_MINCELLS(p)\<close> and the maximum cell count \<^verbatim>\<open>(iNodeSize-4)/nBytesPerCell\<close>.\<close>

definition nMaxCell_of :: "Rtree \<Rightarrow> int" where
  "nMaxCell_of pRtree = c_div (iNodeSize pRtree - 4) (nBytesPerCell pRtree)"

definition RTREE_MINCELLS :: "Rtree \<Rightarrow> int" where
  "RTREE_MINCELLS p = c_div (c_div (iNodeSize p - 4) (nBytesPerCell p)) 3"

definition RTREE_REINSERT :: "Rtree \<Rightarrow> int" where
  "RTREE_REINSERT p = RTREE_MINCELLS p"

section \<open>Codec\<close>

text \<open>\<^verbatim>\<open>readInt16\<close>, \<^verbatim>\<open>readCoord\<close>, \<^verbatim>\<open>readInt64\<close>: big-endian reads at offset \<open>p\<close>.\<close>

definition readInt16 :: "u8 list \<Rightarrow> nat \<Rightarrow> int" where
  "readInt16 z p = push_bit 8 (uint (z ! p)) + uint (z ! (p + 1))"

definition readCoord :: "u8 list \<Rightarrow> nat \<Rightarrow> RtreeCoord" where
  "readCoord z p =
     push_bit 24 (ucast (z ! p)) + push_bit 16 (ucast (z ! (p + 1)))
     + push_bit 8 (ucast (z ! (p + 2))) + push_bit 0 (ucast (z ! (p + 3)))"

definition readInt64 :: "u8 list \<Rightarrow> nat \<Rightarrow> i64" where
  "readInt64 z p =
     push_bit 56 (ucast (z ! p)) + push_bit 48 (ucast (z ! (p + 1)))
     + push_bit 40 (ucast (z ! (p + 2))) + push_bit 32 (ucast (z ! (p + 3)))
     + push_bit 24 (ucast (z ! (p + 4))) + push_bit 16 (ucast (z ! (p + 5)))
     + push_bit 8 (ucast (z ! (p + 6))) + push_bit 0 (ucast (z ! (p + 7)))"

text \<open>
  \<^verbatim>\<open>writeInt16\<close>, \<^verbatim>\<open>writeCoord\<close>, \<^verbatim>\<open>writeInt64\<close>. They return the number of bytes
  written (2, 4, 8), which the callers add to the offset; the embedding returns the
  updated image. On the signed 64-bit value \<^verbatim>\<open>>>\<close> is the arithmetic shift.
\<close>

definition writeInt16 :: "u8 list \<Rightarrow> nat \<Rightarrow> int \<Rightarrow> u8 list" where
  "writeInt16 z p i =
     (z[p := word_of_int (drop_bit 8 i AND 255)])[p + 1 := word_of_int (drop_bit 0 i AND 255)]"

definition writeCoord :: "u8 list \<Rightarrow> nat \<Rightarrow> RtreeCoord \<Rightarrow> u8 list" where
  "writeCoord z p i =
     (((z[p := ucast (drop_bit 24 i AND 255)])
         [p + 1 := ucast (drop_bit 16 i AND 255)])
         [p + 2 := ucast (drop_bit 8 i AND 255)])
         [p + 3 := ucast (drop_bit 0 i AND 255)]"

definition writeInt64 :: "u8 list \<Rightarrow> nat \<Rightarrow> i64 \<Rightarrow> u8 list" where
  "writeInt64 z p i =
     (((((((z[p := ucast (signed_drop_bit 56 i AND 255)])
         [p + 1 := ucast (signed_drop_bit 48 i AND 255)])
         [p + 2 := ucast (signed_drop_bit 40 i AND 255)])
         [p + 3 := ucast (signed_drop_bit 32 i AND 255)])
         [p + 4 := ucast (signed_drop_bit 24 i AND 255)])
         [p + 5 := ucast (signed_drop_bit 16 i AND 255)])
         [p + 6 := ucast (signed_drop_bit 8 i AND 255)])
         [p + 7 := ucast (signed_drop_bit 0 i AND 255)]"

section \<open>Cells of a node image\<close>

text \<open>\<^verbatim>\<open>#define NCELL(pNode) readInt16(&(pNode)->zData[2])\<close>\<close>

definition NCELL :: "RtreeNode \<Rightarrow> int" where
  "NCELL pNode = readInt16 (zData pNode) 2"

text \<open>\<^verbatim>\<open>nodeZero\<close>: \<^verbatim>\<open>memset(&p->zData[2], 0, pRtree->iNodeSize-2)\<close>.\<close>

definition nodeZero :: "Rtree \<Rightarrow> RtreeNode \<Rightarrow> RtreeNode" where
  "nodeZero pRtree p =
     p\<lparr>zData := take 2 (zData p) @ replicate (nat (iNodeSize pRtree - 2)) 0
                 @ drop (nat (iNodeSize pRtree)) (zData p),
       isDirty := 1\<rparr>"

text \<open>\<^verbatim>\<open>nodeOverwriteCell\<close>: the rowid, then \<^verbatim>\<open>2*nDim\<close> coordinates.\<close>

definition nodeOverwriteCell :: "Rtree \<Rightarrow> RtreeNode \<Rightarrow> RtreeCell \<Rightarrow> int \<Rightarrow> RtreeNode" where
  "nodeOverwriteCell pRtree pNode pCell iCell =
     (let p = nat (4 + nBytesPerCell pRtree * iCell);
          z1 = writeInt64 (zData pNode) p (iRowid pCell);
          z2 = fold (\<lambda>ii z. writeCoord z (p + 8 + 4 * ii) (aCoord pCell ! ii))
                    [0..<nat (nDim pRtree * 2)] z1
      in pNode\<lparr>zData := z2, isDirty := 1\<rparr>)"

text \<open>\<^verbatim>\<open>nodeInsertCell\<close>: the updated node and the returned flag \<^verbatim>\<open>(nCell==nMaxCell)\<close>.\<close>

definition nodeInsertCell :: "Rtree \<Rightarrow> RtreeNode \<Rightarrow> RtreeCell \<Rightarrow> RtreeNode \<times> int" where
  "nodeInsertCell pRtree pNode pCell =
     (let nMaxCell = c_div (iNodeSize pRtree - 4) (nBytesPerCell pRtree);
          nCell = NCELL pNode;
          pNode' =
            (if nCell < nMaxCell then
               (let n1 = nodeOverwriteCell pRtree pNode pCell nCell
                in n1\<lparr>zData := writeInt16 (zData n1) 2 (nCell + 1), isDirty := 1\<rparr>)
             else pNode)
      in (pNode', if nCell = nMaxCell then 1 else 0))"

text \<open>\<^verbatim>\<open>nodeGetRowid\<close>, \<^verbatim>\<open>nodeGetCoord\<close>, \<^verbatim>\<open>nodeGetCell\<close>.\<close>

definition nodeGetRowid :: "Rtree \<Rightarrow> RtreeNode \<Rightarrow> int \<Rightarrow> i64" where
  "nodeGetRowid pRtree pNode iCell =
     readInt64 (zData pNode) (nat (4 + nBytesPerCell pRtree * iCell))"

definition nodeGetCoord :: "Rtree \<Rightarrow> RtreeNode \<Rightarrow> int \<Rightarrow> int \<Rightarrow> RtreeCoord" where
  "nodeGetCoord pRtree pNode iCell iCoord =
     readCoord (zData pNode) (nat (12 + nBytesPerCell pRtree * iCell + 4 * iCoord))"

definition nodeGetCell :: "Rtree \<Rightarrow> RtreeNode \<Rightarrow> int \<Rightarrow> RtreeCell" where
  "nodeGetCell pRtree pNode iCell =
     \<lparr>iRowid = nodeGetRowid pRtree pNode iCell,
      aCoord = map (\<lambda>ii. nodeGetCoord pRtree pNode iCell (int ii)) [0..<nat (nDim pRtree * 2)]\<rparr>"

section \<open>Codec: round trips and frames\<close>

lemma m255: "(255 :: 'a::len word) = mask 8"
  by (simp add: mask_eq_exp_minus_1)

lemma bit_byte:
  "bit (push_bit k (take_bit 8 (drop_bit k (c::'a::len word)))) n \<longleftrightarrow> k \<le> n \<and> n < k + 8 \<and> bit c n"
  by (auto simp add: bit_simps dest: bit_imp_le_length)

lemma byte_of32:
  "ucast (ucast (drop_bit k c AND 255 :: 32 word) :: 8 word) = (take_bit 8 (drop_bit k c) :: 32 word)"
  unfolding m255 by (rule bit_word_eqI) (auto simp add: bit_simps)

lemma byte_of64:
  "k \<le> 56 \<Longrightarrow>
   ucast (ucast (signed_drop_bit k c AND 255 :: 64 word) :: 8 word) = (take_bit 8 (drop_bit k c) :: 64 word)"
  unfolding m255 by (rule bit_word_eqI) (auto simp add: bit_simps)

lemma take_bit_signed_drop_bit64:
  "k \<le> 56 \<Longrightarrow> take_bit 8 (signed_drop_bit k c) = take_bit 8 (drop_bit k (c :: 64 word))"
  by (rule bit_word_eqI) (auto simp add: bit_simps)

lemma byte_of32_0:
  "ucast (ucast (c AND 255 :: 32 word) :: 8 word) = (take_bit 8 c :: 32 word)"
  using byte_of32 [of 0 c] by simp

lemma byte_of64_0:
  "ucast (ucast (c AND 255 :: 64 word) :: 8 word) = (take_bit 8 c :: 64 word)"
  using byte_of64 [of 0 c] by simp

lemma cat4:
  "((push_bit 24 (take_bit 8 (drop_bit 24 c)) + push_bit 16 (take_bit 8 (drop_bit 16 c)))
    + push_bit 8 (take_bit 8 (drop_bit 8 c))) + take_bit 8 c = (c :: 32 word)"
proof -
  have e: "((push_bit 24 (take_bit 8 (drop_bit 24 c)) OR push_bit 16 (take_bit 8 (drop_bit 16 c)))
     OR push_bit 8 (take_bit 8 (drop_bit 8 c))) OR take_bit 8 c = c"
    by (rule bit_word_eqI, simp only: bit_or_iff bit_byte bit_take_bit_iff) (auto dest: bit_imp_le_length)
  show ?thesis
    apply (subst disjunctive_add_eq_or)
     apply (rule bit_word_eqI, simp only: bit_and_iff bit_byte bit_take_bit_iff, simp)
    apply (subst disjunctive_add_eq_or)
     apply (rule bit_word_eqI, simp only: bit_and_iff bit_or_iff bit_byte bit_take_bit_iff, simp)
    apply (subst disjunctive_add_eq_or)
     apply (rule bit_word_eqI, simp only: bit_and_iff bit_or_iff bit_byte bit_take_bit_iff, simp)
    apply (rule e)
    done
qed

lemma cat8:
  "((((((push_bit 56 (take_bit 8 (drop_bit 56 c)) + push_bit 48 (take_bit 8 (drop_bit 48 c)))
    + push_bit 40 (take_bit 8 (drop_bit 40 c))) + push_bit 32 (take_bit 8 (drop_bit 32 c)))
    + push_bit 24 (take_bit 8 (drop_bit 24 c))) + push_bit 16 (take_bit 8 (drop_bit 16 c)))
    + push_bit 8 (take_bit 8 (drop_bit 8 c))) + take_bit 8 c = (c :: 64 word)"
proof -
  have e: "((((((push_bit 56 (take_bit 8 (drop_bit 56 c)) OR push_bit 48 (take_bit 8 (drop_bit 48 c)))
    OR push_bit 40 (take_bit 8 (drop_bit 40 c))) OR push_bit 32 (take_bit 8 (drop_bit 32 c)))
    OR push_bit 24 (take_bit 8 (drop_bit 24 c))) OR push_bit 16 (take_bit 8 (drop_bit 16 c)))
    OR push_bit 8 (take_bit 8 (drop_bit 8 c))) OR take_bit 8 c = c"
    by (rule bit_word_eqI, simp only: bit_or_iff bit_byte bit_take_bit_iff) (auto dest: bit_imp_le_length)
  show ?thesis
    apply (subst disjunctive_add_eq_or)
     apply (rule bit_word_eqI, simp only: bit_and_iff bit_byte bit_take_bit_iff, simp)
    apply (subst disjunctive_add_eq_or)
     apply (rule bit_word_eqI, simp only: bit_and_iff bit_or_iff bit_byte bit_take_bit_iff, simp)
    apply (subst disjunctive_add_eq_or)
     apply (rule bit_word_eqI, simp only: bit_and_iff bit_or_iff bit_byte bit_take_bit_iff, simp)
    apply (subst disjunctive_add_eq_or)
     apply (rule bit_word_eqI, simp only: bit_and_iff bit_or_iff bit_byte bit_take_bit_iff, simp)
    apply (subst disjunctive_add_eq_or)
     apply (rule bit_word_eqI, simp only: bit_and_iff bit_or_iff bit_byte bit_take_bit_iff, simp)
    apply (subst disjunctive_add_eq_or)
     apply (rule bit_word_eqI, simp only: bit_and_iff bit_or_iff bit_byte bit_take_bit_iff, simp)
    apply (subst disjunctive_add_eq_or)
     apply (rule bit_word_eqI, simp only: bit_and_iff bit_or_iff bit_byte bit_take_bit_iff, simp)
    apply (rule e)
    done
qed

lemma length_writeCoord [simp]: "length (writeCoord z p c) = length z"
  by (simp add: writeCoord_def)

lemma length_writeInt64 [simp]: "length (writeInt64 z p c) = length z"
  by (simp add: writeInt64_def)

lemma length_writeInt16 [simp]: "length (writeInt16 z p c) = length z"
  by (simp add: writeInt16_def)

lemma readCoord_writeCoord:
  "p + 4 \<le> length z \<Longrightarrow> readCoord (writeCoord z p c) p = c"
  by (simp add: readCoord_def writeCoord_def byte_of32 byte_of32_0 cat4)

lemma readInt64_writeInt64:
  "p + 8 \<le> length z \<Longrightarrow> readInt64 (writeInt64 z p c) p = c"
  by (simp add: readInt64_def writeInt64_def byte_of64 byte_of64_0 take_bit_signed_drop_bit64 cat8)

lemma readCoord_writeCoord_other:
  "q + 4 \<le> p \<or> p + 4 \<le> q \<Longrightarrow> readCoord (writeCoord z p c) q = readCoord z q"
  by (auto simp add: readCoord_def writeCoord_def)

lemma readInt64_writeCoord_other:
  "q + 8 \<le> p \<or> p + 4 \<le> q \<Longrightarrow> readInt64 (writeCoord z p c) q = readInt64 z q"
  by (auto simp add: readInt64_def writeCoord_def)

lemma readCoord_writeInt64_other:
  "q + 4 \<le> p \<or> p + 8 \<le> q \<Longrightarrow> readCoord (writeInt64 z p c) q = readCoord z q"
  by (auto simp add: readCoord_def writeInt64_def)

lemma readInt64_writeInt64_other:
  "q + 8 \<le> p \<or> p + 8 \<le> q \<Longrightarrow> readInt64 (writeInt64 z p c) q = readInt64 z q"
  by (auto simp add: readInt64_def writeInt64_def)


lemma c_div_nonneg: "0 \<le> a \<Longrightarrow> 0 < b \<Longrightarrow> c_div a b = a div b"
  by (simp add: c_div_def sgn_if)

lemma c_div_neg_le0: "a < 0 \<Longrightarrow> 0 < b \<Longrightarrow> c_div a b \<le> 0"
  by (simp add: c_div_def sgn_if pos_imp_zdiv_nonneg_iff)

lemma cell_fits:
  assumes "0 < nB" and "0 \<le> iCell" and "iCell < c_div (S - 4) nB"
  shows "4 + nB * (iCell + 1) \<le> S"
proof -
  have "0 \<le> S - 4"
    using assms c_div_neg_le0 [of "S - 4" nB] by (cases "S - 4 < 0") auto
  then have d: "c_div (S - 4) nB = (S - 4) div nB"
    using assms by (simp add: c_div_nonneg)
  have "iCell + 1 \<le> (S - 4) div nB" using assms d by simp
  then have "nB * (iCell + 1) \<le> nB * ((S - 4) div nB)"
    using assms by (simp add: mult_left_mono)
  moreover have "nB * ((S - 4) div nB) + (S - 4) mod nB = S - 4"
    by simp
  moreover have "0 \<le> (S - 4) mod nB"
    using assms by simp
  ultimately show ?thesis by linarith
qed

lemma fold_writeCoord_Suc:
  "fold (\<lambda>ii z. writeCoord z (q + 4 * ii) (cs ! ii)) [0..<Suc n] z
   = writeCoord (fold (\<lambda>ii z. writeCoord z (q + 4 * ii) (cs ! ii)) [0..<n] z) (q + 4 * n) (cs ! n)"
  by simp

lemma length_fold_writeCoord [simp]:
  "length (fold (\<lambda>ii z. writeCoord z (q + 4 * ii) (cs ! ii)) [0..<n] z) = length z"
  by (induction n) simp_all

lemma readCoord_fold_writeCoord:
  "q + 4 * n \<le> length z \<Longrightarrow> j < n \<Longrightarrow>
   readCoord (fold (\<lambda>ii z. writeCoord z (q + 4 * ii) (cs ! ii)) [0..<n] z) (q + 4 * j) = cs ! j"
proof (induction n)
  case 0
  then show ?case by simp
next
  case (Suc n)
  show ?case
  proof (cases "j = n")
    case True
    with Suc.prems show ?thesis
      by (simp only: fold_writeCoord_Suc) (simp add: readCoord_writeCoord)
  next
    case False
    with Suc.prems have "j < n" by simp
    with Suc show ?thesis
      by (simp only: fold_writeCoord_Suc) (simp add: readCoord_writeCoord_other)
  qed
qed

lemma readCoord_fold_writeCoord_other:
  "r + 4 \<le> q \<or> q + 4 * n \<le> r \<Longrightarrow>
   readCoord (fold (\<lambda>ii z. writeCoord z (q + 4 * ii) (cs ! ii)) [0..<n] z) r = readCoord z r"
proof (induction n)
  case 0
  then show ?case by simp
next
  case (Suc n)
  then show ?case
    by (simp only: fold_writeCoord_Suc) (auto simp add: readCoord_writeCoord_other)
qed

lemma readInt64_fold_writeCoord_other:
  "r + 8 \<le> q \<or> q + 4 * n \<le> r \<Longrightarrow>
   readInt64 (fold (\<lambda>ii z. writeCoord z (q + 4 * ii) (cs ! ii)) [0..<n] z) r = readInt64 z r"
proof (induction n)
  case 0
  then show ?case by simp
next
  case (Suc n)
  then show ?case
    by (simp only: fold_writeCoord_Suc) (auto simp add: readInt64_writeCoord_other)
qed

text \<open>The image written by \<open>nodeOverwriteCell\<close>, with the offset as a natural number.\<close>

lemma zData_nodeOverwriteCell:
  "zData (nodeOverwriteCell pRtree pNode pCell iCell) =
     fold (\<lambda>ii z. writeCoord z ((nat (4 + nBytesPerCell pRtree * iCell) + 8) + 4 * ii) (aCoord pCell ! ii))
          [0..<nat (nDim pRtree * 2)]
          (writeInt64 (zData pNode) (nat (4 + nBytesPerCell pRtree * iCell)) (iRowid pCell))"
  by (simp add: nodeOverwriteCell_def Let_def)

lemma length_zData_nodeOverwriteCell [simp]:
  "length (zData (nodeOverwriteCell pRtree pNode pCell iCell)) = length (zData pNode)"
  by (simp add: zData_nodeOverwriteCell)

lemma nodeGetRowid_nodeOverwriteCell:
  assumes "0 \<le> nBytesPerCell pRtree" "0 \<le> iCell"
    and "nat (4 + nBytesPerCell pRtree * iCell) + 8 \<le> length (zData pNode)"
  shows "nodeGetRowid pRtree (nodeOverwriteCell pRtree pNode pCell iCell) iCell = iRowid pCell"
  using assms
  by (simp add: nodeGetRowid_def zData_nodeOverwriteCell readInt64_fold_writeCoord_other
      readInt64_writeInt64)

lemma nodeGetCoord_nodeOverwriteCell:
  assumes "0 \<le> nBytesPerCell pRtree" "0 \<le> iCell"
    and "nat (4 + nBytesPerCell pRtree * iCell) + 8 + 4 * nat (nDim pRtree * 2) \<le> length (zData pNode)"
    and "j < nat (nDim pRtree * 2)"
  shows "nodeGetCoord pRtree (nodeOverwriteCell pRtree pNode pCell iCell) iCell (int j) = aCoord pCell ! j"
proof -
  have o: "nat (12 + nBytesPerCell pRtree * iCell + 4 * int j)
           = (nat (4 + nBytesPerCell pRtree * iCell) + 8) + 4 * j"
    using assms(1,2) by (simp add: nat_add_distrib nat_mult_distrib)
  show ?thesis
    unfolding nodeGetCoord_def zData_nodeOverwriteCell o
    using assms(3,4) by (intro readCoord_fold_writeCoord) simp_all
qed

section \<open>Claim C8: a cell written to a node is read back unchanged\<close>

text \<open>
  C8. For every cell (a 64-bit rowid and \<open>2N\<close> coordinates) and every valid cell index
  of a node, \<open>nodeOverwriteCell\<close> followed by \<open>nodeGetCell\<close> at the same index returns
  the rowid and all \<open>2N\<close> coordinates bit for bit. The node image has \<open>iNodeSize\<close> bytes,
  a cell has \<open>8 + 8N\<close> bytes (as \<open>rtreeInit\<close> sets it), and an index is valid when it is
  below \<open>(iNodeSize - 4) / nBytesPerCell\<close>.
\<close>

theorem nodeGetCell_nodeOverwriteCell:
  assumes "nBytesPerCell pRtree = 8 + nDim pRtree * 4 * 2"
    and "0 \<le> nDim pRtree"
    and "length (zData pNode) = nat (iNodeSize pRtree)"
    and "0 \<le> iCell"
    and "iCell < c_div (iNodeSize pRtree - 4) (nBytesPerCell pRtree)"
    and "length (aCoord pCell) = nat (nDim pRtree * 2)"
  shows "nodeGetCell pRtree (nodeOverwriteCell pRtree pNode pCell iCell) iCell = pCell"
proof -
  let ?nB = "nBytesPerCell pRtree"
  have nB: "0 < ?nB" using assms(1,2) by simp
  have fit: "4 + ?nB * (iCell + 1) \<le> iNodeSize pRtree"
    using cell_fits [OF nB assms(4,5)] .
  have pos: "0 \<le> ?nB * iCell" using nB assms(4) by simp
  have "int (nat (4 + ?nB * iCell) + 8 + 4 * nat (nDim pRtree * 2)) = 4 + ?nB * (iCell + 1)"
    using pos assms(1,2) by (simp add: algebra_simps)
  then have room: "nat (4 + ?nB * iCell) + 8 + 4 * nat (nDim pRtree * 2) \<le> length (zData pNode)"
    using fit assms(3) by linarith
  have r: "nodeGetRowid pRtree (nodeOverwriteCell pRtree pNode pCell iCell) iCell = iRowid pCell"
    using nB assms(4) room by (intro nodeGetRowid_nodeOverwriteCell) simp_all
  have c: "map (\<lambda>ii. nodeGetCoord pRtree (nodeOverwriteCell pRtree pNode pCell iCell) iCell (int ii))
             [0..<nat (nDim pRtree * 2)] = aCoord pCell"
  proof (rule nth_equalityI)
    show "length (map (\<lambda>ii. nodeGetCoord pRtree (nodeOverwriteCell pRtree pNode pCell iCell) iCell (int ii))
             [0..<nat (nDim pRtree * 2)]) = length (aCoord pCell)"
      using assms(6) by simp
  next
    fix j
    assume "j < length (map (\<lambda>ii. nodeGetCoord pRtree (nodeOverwriteCell pRtree pNode pCell iCell) iCell (int ii))
             [0..<nat (nDim pRtree * 2)])"
    then have j: "j < nat (nDim pRtree * 2)" by simp
    have "nodeGetCoord pRtree (nodeOverwriteCell pRtree pNode pCell iCell) iCell (int j) = aCoord pCell ! j"
      using nB assms(4) room j by (intro nodeGetCoord_nodeOverwriteCell) simp_all
    with j show "map (\<lambda>ii. nodeGetCoord pRtree (nodeOverwriteCell pRtree pNode pCell iCell) iCell (int ii))
             [0..<nat (nDim pRtree * 2)] ! j = aCoord pCell ! j"
      by simp
  qed
  show ?thesis
    by (simp add: nodeGetCell_def r c)
qed

text \<open>
  A one-dimensional tree with 36-byte nodes (two cells of 16 bytes), and the cell
  \<open>(rowid -2, [-1, 0x3F800000])\<close> written at index 1.
\<close>

definition rt_small :: Rtree where
  "rt_small = \<lparr>iNodeSize = 36, nDim = 1, nBytesPerCell = 16, iDepth = 0, aHash = replicate 128 [],
               nBusy = 1, iReinsertHeight = 0, eCoordType = 1\<rparr>"

definition node_blank :: RtreeNode where
  "node_blank = \<lparr>pParent = None, iNode = 1, nRef = 1, isDirty = 0, zData = replicate 36 0\<rparr>"

definition cell_a :: RtreeCell where
  "cell_a = \<lparr>iRowid = - 2, aCoord = [- 1, 0x3F800000]\<rparr>"

theorem nodeGetCell_nodeOverwriteCell_witness:
  "nBytesPerCell rt_small = 8 + nDim rt_small * 4 * 2
   \<and> 0 \<le> nDim rt_small
   \<and> length (zData node_blank) = nat (iNodeSize rt_small)
   \<and> (0::int) \<le> 1
   \<and> 1 < c_div (iNodeSize rt_small - 4) (nBytesPerCell rt_small)
   \<and> length (aCoord cell_a) = nat (nDim rt_small * 2)
   \<and> nodeGetCell rt_small (nodeOverwriteCell rt_small node_blank cell_a 1) 1 = cell_a"
proof -
  have h1: "nBytesPerCell rt_small = 8 + nDim rt_small * 4 * 2" by (simp add: rt_small_def)
  have h2: "0 \<le> nDim rt_small" by (simp add: rt_small_def)
  have h3: "length (zData node_blank) = nat (iNodeSize rt_small)"
    by (simp add: rt_small_def node_blank_def)
  have h4: "(0::int) \<le> 1" by simp
  have h5: "1 < c_div (iNodeSize rt_small - 4) (nBytesPerCell rt_small)"
    by (simp add: rt_small_def c_div_def)
  have h6: "length (aCoord cell_a) = nat (nDim rt_small * 2)"
    by (simp add: rt_small_def cell_a_def)
  show ?thesis
    using h1 h2 h3 h4 h5 h6 nodeGetCell_nodeOverwriteCell [OF h1 h2 h3 h4 h5 h6] by simp
qed

section \<open>Claim C10: inserting into a full node\<close>

text \<open>
  C10. When a node already holds the maximum number of cells
  \<open>(iNodeSize - 4) / nBytesPerCell\<close>, \<open>nodeInsertCell\<close> reports the node as full (it
  returns 1) and returns the node as it was: the byte image, hence the cell count and
  every cell record, is unchanged, and the new cell is written nowhere.
\<close>

theorem nodeInsertCell_full:
  assumes "NCELL pNode = c_div (iNodeSize pRtree - 4) (nBytesPerCell pRtree)"
  shows "nodeInsertCell pRtree pNode pCell = (pNode, 1)"
  using assms by (simp add: nodeInsertCell_def Let_def)

definition node_full :: RtreeNode where
  "node_full = \<lparr>pParent = None, iNode = 1, nRef = 1, isDirty = 0,
                zData = [0, 0, 0, 2] @ replicate 32 7\<rparr>"

theorem nodeInsertCell_full_witness:
  "NCELL node_full = c_div (iNodeSize rt_small - 4) (nBytesPerCell rt_small)
   \<and> nodeInsertCell rt_small node_full cell_a = (node_full, 1)
   \<and> zData (fst (nodeInsertCell rt_small node_full cell_a)) = [0, 0, 0, 2] @ replicate 32 7"
proof -
  have h: "NCELL node_full = c_div (iNodeSize rt_small - 4) (nBytesPerCell rt_small)"
    by (simp add: NCELL_def node_full_def readInt16_def rt_small_def c_div_def)
  show ?thesis
    using h nodeInsertCell_full [OF h, of cell_a] by (simp add: node_full_def)
qed


section \<open>The node cache: \<open>nodeAcquire\<close>\<close>

type_synonym heap = "addr \<Rightarrow> RtreeNode option"

text \<open>
  \<^verbatim>\<open>nodeHash\<close>: the eight bytes of the node number folded with xor, then \<^verbatim>\<open>% HASHSIZE\<close>
  (C's remainder, on the signed value).
\<close>

definition nodeHash :: "i64 \<Rightarrow> int" where
  "nodeHash iNode' =
     c_mod (sint (signed_drop_bit 56 iNode' XOR signed_drop_bit 48 iNode' XOR signed_drop_bit 40 iNode'
                  XOR signed_drop_bit 32 iNode' XOR signed_drop_bit 24 iNode' XOR signed_drop_bit 16 iNode'
                  XOR signed_drop_bit 8 iNode' XOR signed_drop_bit 0 iNode')) HASHSIZE"

text \<open>
  \<^verbatim>\<open>nodeHashLookup\<close> walks the chain of the bucket and stops at the first node with the
  number asked for. \<^verbatim>\<open>nodeHashInsert\<close> puts the node at the head of its chain.
\<close>

definition nodeHashLookup :: "Rtree \<Rightarrow> heap \<Rightarrow> i64 \<Rightarrow> addr option" where
  "nodeHashLookup pRtree h iNode' =
     find (\<lambda>a. case h a of Some n \<Rightarrow> iNode n = iNode' | None \<Rightarrow> False)
          (aHash pRtree ! nat (nodeHash iNode'))"

definition nodeHashInsert :: "Rtree \<Rightarrow> heap \<Rightarrow> addr \<Rightarrow> Rtree" where
  "nodeHashInsert pRtree h pNode =
     (let iHash = nat (nodeHash (iNode (the (h pNode))))
      in pRtree\<lparr>aHash := (aHash pRtree)[iHash := pNode # aHash pRtree ! iHash]\<rparr>)"

definition upd_node :: "heap \<Rightarrow> addr \<Rightarrow> (RtreeNode \<Rightarrow> RtreeNode) \<Rightarrow> heap" where
  "upd_node h a f = (case h a of Some n \<Rightarrow> h(a \<mapsto> f n) | None \<Rightarrow> h)"

text \<open>\<^verbatim>\<open>nodeReference\<close>: \<^verbatim>\<open>if( p ) p->nRef++\<close>.\<close>

definition nodeReference :: "heap \<Rightarrow> addr option \<Rightarrow> heap" where
  "nodeReference h p = (case p of None \<Rightarrow> h | Some a \<Rightarrow> upd_node h a (\<lambda>n. n\<lparr>nRef := nRef n + 1\<rparr>))"

text \<open>
  What the host answers during one call of \<open>nodeAcquire\<close>: the result of
  \<^verbatim>\<open>sqlite3_step(pReadNode)\<close>, the blob of the row it found (its length is
  \<^verbatim>\<open>sqlite3_column_bytes\<close>), the result of \<^verbatim>\<open>sqlite3_reset\<close>, and the address
  \<^verbatim>\<open>sqlite3_malloc\<close> returns (\<open>None\<close> when it fails).
\<close>

record read_env =
  step_rc :: int
  blob :: "u8 list"
  reset_rc :: int
  malloc_res :: "addr option"

text \<open>
  \<^verbatim>\<open>nodeAcquire\<close>. The result is the return code, \<^verbatim>\<open>*ppNode\<close>, and the updated
  \<^verbatim>\<open>Rtree\<close> and heap.
\<close>

definition nodeAcquire ::
  "read_env \<Rightarrow> Rtree \<Rightarrow> heap \<Rightarrow> i64 \<Rightarrow> addr option \<Rightarrow> int \<times> addr option \<times> Rtree \<times> heap" where
  "nodeAcquire env pRtree h iNode' pParent' =
     (case nodeHashLookup pRtree h iNode' of
        Some a \<Rightarrow>
          (let h1 = (if pParent' \<noteq> None \<and> pParent (the (h a)) = None
                     then upd_node (nodeReference h pParent') a (\<lambda>n. n\<lparr>pParent := pParent'\<rparr>)
                     else h);
               h2 = upd_node h1 a (\<lambda>n. n\<lparr>nRef := nRef n + 1\<rparr>)
           in (SQLITE_OK, Some a, pRtree, h2))
      | None \<Rightarrow>
          (let (pNode, rc2, h1) =
                 (if step_rc env = SQLITE_ROW then
                    (if iNodeSize pRtree = int (length (blob env)) then
                       (case malloc_res env of
                          None \<Rightarrow> (None, SQLITE_NOMEM, h)
                        | Some a \<Rightarrow>
                            (Some a, SQLITE_OK,
                             nodeReference
                               (h(a \<mapsto> \<lparr>pParent = pParent', iNode = iNode', nRef = 1, isDirty = 0,
                                        zData = take (nat (iNodeSize pRtree)) (blob env)\<rparr>))
                               pParent'))
                     else (None, SQLITE_OK, h))
                  else (None, SQLITE_OK, h));
               rc = reset_rc env;
               rc = (if rc = SQLITE_OK then rc2 else rc);
               (pRtree1, rc) =
                 (if pNode \<noteq> None \<and> iNode' = 1 then
                    (let pRtree1 = pRtree\<lparr>iDepth := readInt16 (zData (the (h1 (the pNode)))) 0\<rparr>
                     in (pRtree1, if iDepth pRtree1 > RTREE_MAX_DEPTH then SQLITE_CORRUPT_VTAB else rc))
                  else (pRtree, rc));
               rc = (if pNode \<noteq> None \<and> rc = SQLITE_OK then
                       (if NCELL (the (h1 (the pNode)))
                             > c_div (iNodeSize pRtree1 - 4) (nBytesPerCell pRtree1)
                        then SQLITE_CORRUPT_VTAB else rc)
                     else rc)
           in if rc = SQLITE_OK then
                (case pNode of
                   Some a \<Rightarrow> (rc, Some a, nodeHashInsert pRtree1 h1 a, h1)
                 | None \<Rightarrow> (SQLITE_CORRUPT_VTAB, None, pRtree1, h1))
              else (rc, None, pRtree1, (case pNode of Some a \<Rightarrow> h1(a := None) | None \<Rightarrow> h1))))"

lemma zData_nodeReference_new:
  "zData (the (nodeReference (h(a \<mapsto> n)) p a)) = zData n"
  by (cases p) (auto simp add: nodeReference_def upd_node_def split: option.splits)

section \<open>Claim C7: depth and cell count are checked when a node is loaded\<close>

text \<open>
  C7. When \<open>nodeAcquire\<close> loads a node from the \<open>_node\<close> table (the node is not in the
  cache, the row exists with \<open>iNodeSize\<close> bytes and the allocation succeeds):
  for node number 1 the tree depth is set from bytes 0 and 1 of the page, and a depth
  above 40 makes the call fail with the corruption code, no node being returned;
  for any node, a cell count (bytes 2 and 3) above \<open>(iNodeSize - 4) / nBytesPerCell\<close>
  makes the call fail, no node being returned, with the corruption code unless the
  host's \<^verbatim>\<open>sqlite3_reset\<close> has already reported an error of its own.
\<close>

theorem nodeAcquire_rejects_corrupt:
  assumes "nodeHashLookup pRtree h iNode' = None"
    and "step_rc env = SQLITE_ROW"
    and "iNodeSize pRtree = int (length (blob env))"
    and "malloc_res env = Some a"
    and "nodeAcquire env pRtree h iNode' pParent' = (rc, ppNode, pRtree', h')"
  shows "(iNode' = 1 \<longrightarrow>
            iDepth pRtree' = readInt16 (blob env) 0
            \<and> (readInt16 (blob env) 0 > 40 \<longrightarrow> rc = SQLITE_CORRUPT_VTAB \<and> ppNode = None))
       \<and> (readInt16 (blob env) 2 > c_div (iNodeSize pRtree - 4) (nBytesPerCell pRtree) \<longrightarrow>
            rc \<noteq> SQLITE_OK \<and> ppNode = None
            \<and> (reset_rc env = SQLITE_OK \<longrightarrow> rc = SQLITE_CORRUPT_VTAB))"
  using assms(5)
  by (auto simp add: nodeAcquire_def assms(1-4) zData_nodeReference_new NCELL_def Let_def
      RTREE_MAX_DEPTH_def SQLITE_OK_def SQLITE_CORRUPT_VTAB_def nodeHashInsert_def
      split: if_splits)

text \<open>
  A root page of 36 bytes that claims depth 41 and three cells, read into an empty cache.
\<close>

definition env_bad_root :: read_env where
  "env_bad_root = \<lparr>step_rc = 100, blob = [0, 41, 0, 3] @ replicate 32 0, reset_rc = 0,
                   malloc_res = Some 7\<rparr>"

theorem nodeAcquire_rejects_corrupt_witness:
  "nodeHashLookup rt_small Map.empty 1 = None
   \<and> step_rc env_bad_root = SQLITE_ROW
   \<and> iNodeSize rt_small = int (length (blob env_bad_root))
   \<and> malloc_res env_bad_root = Some 7
   \<and> readInt16 (blob env_bad_root) 0 = 41
   \<and> readInt16 (blob env_bad_root) 2 = 3
   \<and> c_div (iNodeSize rt_small - 4) (nBytesPerCell rt_small) = 2
   \<and> fst (nodeAcquire env_bad_root rt_small Map.empty 1 None) = SQLITE_CORRUPT_VTAB
   \<and> fst (snd (nodeAcquire env_bad_root rt_small Map.empty 1 None)) = None
   \<and> iDepth (fst (snd (snd (nodeAcquire env_bad_root rt_small Map.empty 1 None)))) = 41"
proof -
  have h1: "nodeHashLookup rt_small Map.empty 1 = None"
    by (simp add: nodeHashLookup_def find_None_iff)
  have h2: "step_rc env_bad_root = SQLITE_ROW"
    by (simp add: env_bad_root_def SQLITE_ROW_def)
  have h3: "iNodeSize rt_small = int (length (blob env_bad_root))"
    by (simp add: env_bad_root_def rt_small_def)
  have h4: "malloc_res env_bad_root = Some 7"
    by (simp add: env_bad_root_def)
  obtain rc ppNode pRtree' h' where
    r: "nodeAcquire env_bad_root rt_small Map.empty 1 None = (rc, ppNode, pRtree', h')"
    by (metis prod_cases4)
  have d: "readInt16 (blob env_bad_root) 0 = 41" "readInt16 (blob env_bad_root) 2 = 3"
    by (simp_all add: env_bad_root_def readInt16_def)
  have m: "c_div (iNodeSize rt_small - 4) (nBytesPerCell rt_small) = 2"
    by (simp add: rt_small_def c_div_def)
  show ?thesis
    using nodeAcquire_rejects_corrupt [OF h1 h2 h3 h4 r] h1 h2 h3 h4 d m
    by (simp add: r)
qed


section \<open>Wide coordinates\<close>

text \<open>
  \<^verbatim>\<open>RtreeDValue\<close> is C's \<^verbatim>\<open>double\<close> and \<^verbatim>\<open>RtreeValue\<close> its \<^verbatim>\<open>float\<close>. Their
  arithmetic is the C implementation's, not this source file's, so the functions
  below take it as a parameter: a type \<open>'d\<close> of wide values with the conversions
  \<^verbatim>\<open>(double)coord.f\<close> and \<^verbatim>\<open>(double)i\<close>, the comparison \<^verbatim>\<open><\<close> (\<^verbatim>\<open>a > b\<close> is
  \<^verbatim>\<open>b < a\<close>), the four operations, and \<^verbatim>\<open><\<close> on two floats given by their bit
  patterns. Every theorem about these functions holds for every such arithmetic,
  IEEE 754 with its rounding included.
\<close>

record 'd c_float =
  d_of_float :: "RtreeCoord \<Rightarrow> 'd"
  f_of_d :: "'d \<Rightarrow> RtreeCoord"
  d_of_int :: "int \<Rightarrow> 'd"
  d_lt :: "'d \<Rightarrow> 'd \<Rightarrow> bool"
  d_add :: "'d \<Rightarrow> 'd \<Rightarrow> 'd"
  d_sub :: "'d \<Rightarrow> 'd \<Rightarrow> 'd"
  d_mul :: "'d \<Rightarrow> 'd \<Rightarrow> 'd"
  d_div :: "'d \<Rightarrow> 'd \<Rightarrow> 'd"
  f_lt :: "RtreeCoord \<Rightarrow> RtreeCoord \<Rightarrow> bool"

text \<open>The macro \<^verbatim>\<open>DCOORD(coord)\<close>.\<close>

definition DCOORD :: "'d c_float \<Rightarrow> Rtree \<Rightarrow> RtreeCoord \<Rightarrow> 'd" where
  "DCOORD fl pRtree coord =
     (if eCoordType pRtree = RTREE_COORD_REAL32 then d_of_float fl coord
      else d_of_int fl (sint coord))"

text \<open>
  The arithmetic used for concrete runs: exact arithmetic on the reals. A float's bit
  pattern is read by the IEEE 754 binary32 rule (the patterns of infinities and NaNs,
  exponent 255, are outside its intended use). On integer trees with small coordinates,
  where no operation rounds, it computes what the C code computes.
\<close>

definition float32_value :: "RtreeCoord \<Rightarrow> real" where
  "float32_value w =
     (let sg = (if bit w 31 then - 1 else (1::real));
          e = unat (take_bit 8 (drop_bit 23 w));
          m = unat (take_bit 23 w)
      in if e = 0 then sg * real m / 2 ^ 149
         else if e < 150 then sg * real (2 ^ 23 + m) / 2 ^ (150 - e)
         else sg * real (2 ^ 23 + m) * 2 ^ (e - 150))"

text \<open>
  The cast \<^verbatim>\<open>(float)d\<close> by the IEEE 754 rule, round to nearest with ties to even.
  \<open>float_norm\<close> scales \<open>a\<close> by powers of two until \<open>2\<^sup>2\<^sup>3 \<le> a < 2\<^sup>2\<^sup>4\<close>, or until the
  exponent of the subnormal numbers is reached, and keeps \<open>a * 2 ^ e\<close> the same; its first
  argument bounds the number of steps, and 2400 are enough for every double.
\<close>

fun float_norm :: "nat \<Rightarrow> real \<Rightarrow> int \<Rightarrow> real \<times> int" where
  "float_norm n a e =
     (if n = 0 then (a, e)
      else if 2 ^ 24 \<le> a then float_norm (n - 1) (a / 2) (e + 1)
      else if a < 2 ^ 23 \<and> - 149 < e then float_norm (n - 1) (a * 2) (e - 1)
      else (a, e))"

declare float_norm.simps [simp del]

definition round_even :: "real \<Rightarrow> int" where
  "round_even q =
     (let f = \<lfloor>q\<rfloor>; r = q - real_of_int f
      in if r < 1 / 2 then f else if 1 / 2 < r then f + 1 else if even f then f else f + 1)"

definition float_of_real :: "real \<Rightarrow> RtreeCoord" where
  "float_of_real x =
     (let sg = (if x < 0 then push_bit 31 1 else (0::RtreeCoord));
          (q, e0) = float_norm 2400 \<bar>x\<bar> 0;
          m0 = round_even q;
          (m, e) = (if m0 = 2 ^ 24 then (2 ^ 23, e0 + 1) else (m0, e0))
      in if 104 < e then sg OR 0x7F800000
         else if m < 2 ^ 23 then sg OR word_of_int m
         else sg OR push_bit 23 (word_of_int (e + 150)) OR word_of_int (m - 2 ^ 23))"

definition exact_fl :: "real c_float" where
  "exact_fl = \<lparr>d_of_float = float32_value, f_of_d = float_of_real,
               d_of_int = real_of_int, d_lt = (<),
               d_add = (+), d_sub = (-), d_mul = (*), d_div = (/),
               f_lt = (\<lambda>a b. float32_value a < float32_value b)\<rparr>"

section \<open>Query descent: \<open>testRtreeCell\<close>\<close>

text \<open>
  \<^verbatim>\<open>struct RtreeConstraint\<close>. The geometry callback \<^verbatim>\<open>xGeom\<close> is bound to its
  \<^verbatim>\<open>pGeom\<close> argument: from the coordinate vector and the value \<^verbatim>\<open>*pbRes\<close> holds at the
  call it gives its return code and the value it leaves in \<^verbatim>\<open>*pbRes\<close>.
\<close>

record 'd RtreeConstraint =
  iCoord :: int
  op :: int
  rValue :: 'd
  xGeom :: "'d list \<Rightarrow> int \<Rightarrow> int \<times> int"

text \<open>\<^verbatim>\<open>testRtreeGeom\<close>: the callback on the cell's \<^verbatim>\<open>2*nDim\<close> wide coordinates.\<close>

definition testRtreeGeom ::
  "'d c_float \<Rightarrow> Rtree \<Rightarrow> 'd RtreeConstraint \<Rightarrow> RtreeCell \<Rightarrow> int \<Rightarrow> int \<times> int" where
  "testRtreeGeom fl pRtree pConstraint pCell bRes =
     xGeom pConstraint (map (\<lambda>i. DCOORD fl pRtree (aCoord pCell ! i)) [0..<nat (nDim pRtree * 2)]) bRes"

definition b2i :: "bool \<Rightarrow> int" where
  "b2i b = (if b then 1 else 0)"

text \<open>
  The loop of \<^verbatim>\<open>testRtreeCell\<close>,
  \<^verbatim>\<open>for(ii=0; bRes==0 && ii<pCursor->nConstraint; ii++)\<close>, over the constraints that
  remain, with the current \<^verbatim>\<open>rc\<close> and \<^verbatim>\<open>bRes\<close>.
\<close>

fun testRtreeCell_loop ::
  "'d c_float \<Rightarrow> Rtree \<Rightarrow> RtreeCell \<Rightarrow> 'd RtreeConstraint list \<Rightarrow> int \<Rightarrow> int \<Rightarrow> int \<times> int" where
  "testRtreeCell_loop fl pRtree cell [] rc bRes = (rc, bRes)"
| "testRtreeCell_loop fl pRtree cell (p # ps) rc bRes =
     (if bRes = 0 then
        (let cell_min = DCOORD fl pRtree (aCoord cell ! nat (drop_bit 1 (iCoord p) * 2));
             cell_max = DCOORD fl pRtree (aCoord cell ! nat (drop_bit 1 (iCoord p) * 2 + 1));
             (rc', bRes') =
               (if op p = RTREE_LE \<or> op p = RTREE_LT then
                  (rc, b2i (d_lt fl (rValue p) cell_min))
                else if op p = RTREE_GE \<or> op p = RTREE_GT then
                  (rc, b2i (d_lt fl cell_max (rValue p)))
                else if op p = RTREE_EQ then
                  (rc, b2i (d_lt fl cell_max (rValue p) \<or> d_lt fl (rValue p) cell_min))
                else
                  (let (rc1, r) = testRtreeGeom fl pRtree p cell bRes
                   in (rc1, b2i (r = 0))))
         in testRtreeCell_loop fl pRtree cell ps rc' bRes')
      else (rc, bRes))"

text \<open>
  \<^verbatim>\<open>testRtreeCell\<close> on the cell \<open>iCell\<close> of the cursor's node, under the cursor's
  constraint list: the return code and \<^verbatim>\<open>*pbEof\<close>.
\<close>

definition testRtreeCell ::
  "'d c_float \<Rightarrow> Rtree \<Rightarrow> RtreeNode \<Rightarrow> int \<Rightarrow> 'd RtreeConstraint list \<Rightarrow> int \<times> int" where
  "testRtreeCell fl pRtree pNode iCell aConstraint =
     testRtreeCell_loop fl pRtree (nodeGetCell pRtree pNode iCell) aConstraint SQLITE_OK 0"

text \<open>
  The pruning rule in the specification's words, for one constraint on a cell whose
  constrained dimension has the range \<open>[lo, hi]\<close>: LE and LT prune iff \<open>rValue < lo\<close>,
  GE and GT iff \<open>rValue > hi\<close>, EQ iff \<open>rValue < lo\<close> or \<open>rValue > hi\<close>, and MATCH
  iff the geometry callback reports the cell as disjoint (it leaves 0).
\<close>

definition spec_prunes :: "'d c_float \<Rightarrow> Rtree \<Rightarrow> RtreeCell \<Rightarrow> 'd RtreeConstraint \<Rightarrow> bool" where
  "spec_prunes fl pRtree cell p =
     (let dim = iCoord p div 2;
          lo = DCOORD fl pRtree (aCoord cell ! nat (2 * dim));
          hi = DCOORD fl pRtree (aCoord cell ! nat (2 * dim + 1))
      in if op p \<in> {RTREE_LE, RTREE_LT} then d_lt fl (rValue p) lo
         else if op p \<in> {RTREE_GE, RTREE_GT} then d_lt fl hi (rValue p)
         else if op p = RTREE_EQ then d_lt fl (rValue p) lo \<or> d_lt fl hi (rValue p)
         else snd (xGeom p (map (\<lambda>i. DCOORD fl pRtree (aCoord cell ! i)) [0..<nat (nDim pRtree * 2)]) 0) = 0)"

lemma testRtreeCell_loop_done:
  "bRes \<noteq> 0 \<Longrightarrow> testRtreeCell_loop fl pRtree cell ps rc bRes = (rc, bRes)"
  by (cases ps) simp_all

lemma testRtreeCell_loop_Cons:
  "testRtreeCell_loop fl pRtree cell (p # ps) rc 0 =
     (let rc' = (if op p \<in> {RTREE_LE, RTREE_LT, RTREE_GE, RTREE_GT, RTREE_EQ} then rc
                 else fst (testRtreeGeom fl pRtree p cell 0))
      in if spec_prunes fl pRtree cell p then (rc', 1)
         else testRtreeCell_loop fl pRtree cell ps rc' 0)"
  by (simp add: spec_prunes_def Let_def testRtreeGeom_def b2i_def drop_bit_eq_div
      mult.commute testRtreeCell_loop_done case_prod_beta)

lemma testRtreeCell_loop_iff:
  "snd (testRtreeCell_loop fl pRtree cell ps rc 0) \<noteq> 0
   \<longleftrightarrow> (\<exists>p \<in> set ps. spec_prunes fl pRtree cell p)"
proof (induction ps arbitrary: rc)
  case Nil
  then show ?case by simp
next
  case (Cons p ps)
  show ?case
    by (simp only: testRtreeCell_loop_Cons Let_def) (simp add: Cons.IH)
qed

section \<open>Claim C2: which cells the descent prunes\<close>

text \<open>
  C2. \<open>testRtreeCell\<close> reports the sub-tree of an internal cell as excluded
  (\<^verbatim>\<open>*pbEof\<close> non-zero) iff at least one constraint of the cursor prunes the cell, where
  a constraint prunes by the specification's rule \<open>spec_prunes\<close>: LE or LT iff
  \<open>rValue < lo\<close>, GE or GT iff \<open>rValue > hi\<close>, EQ iff \<open>rValue < lo\<close> or \<open>rValue > hi\<close>
  (a MATCH constraint iff its callback leaves 0), \<open>[lo, hi]\<close> being the cell's range in
  the constrained dimension \<open>iCoord / 2\<close>.
\<close>

theorem testRtreeCell_excluded_iff:
  "snd (testRtreeCell fl pRtree pNode iCell aConstraint) \<noteq> 0
   \<longleftrightarrow> (\<exists>p \<in> set aConstraint. spec_prunes fl pRtree (nodeGetCell pRtree pNode iCell) p)"
  by (simp add: testRtreeCell_def testRtreeCell_loop_iff)

text \<open>
  An internal node of the small integer tree whose first cell is child 9 with the range
  \<open>[5, 10]\<close>, under the constraints \<open>x1 >= 7\<close> (kept) and \<open>x0 <= 3\<close> (pruned, \<open>3 < 5\<close>).
\<close>

definition node_inner :: RtreeNode where
  "node_inner = \<lparr>pParent = None, iNode = 1, nRef = 1, isDirty = 0,
                 zData = [0, 1, 0, 1,  0, 0, 0, 0, 0, 0, 0, 9,  0, 0, 0, 5,  0, 0, 0, 10]
                         @ replicate 16 0\<rparr>"

definition cons_ge7 :: "real RtreeConstraint" where
  "cons_ge7 = \<lparr>iCoord = 1, op = 0x44, rValue = 7, xGeom = (\<lambda>cs r. (0, r))\<rparr>"

definition cons_le3 :: "real RtreeConstraint" where
  "cons_le3 = \<lparr>iCoord = 0, op = 0x42, rValue = 3, xGeom = (\<lambda>cs r. (0, r))\<rparr>"

lemma nodeGetCell_node_inner:
  "nodeGetCell rt_small node_inner 0 = \<lparr>iRowid = 9, aCoord = [5, 10]\<rparr>"
  by (simp add: nodeGetCell_def nodeGetRowid_def nodeGetCoord_def readInt64_def readCoord_def
      rt_small_def node_inner_def upt_rec)

theorem testRtreeCell_excluded_iff_witness:
  "snd (testRtreeCell exact_fl rt_small node_inner 0 [cons_ge7, cons_le3]) = 1
   \<and> spec_prunes exact_fl rt_small (nodeGetCell rt_small node_inner 0) cons_le3
   \<and> \<not> spec_prunes exact_fl rt_small (nodeGetCell rt_small node_inner 0) cons_ge7
   \<and> snd (testRtreeCell exact_fl rt_small node_inner 0 [cons_ge7]) = 0"
proof -
  have a: "spec_prunes exact_fl rt_small (nodeGetCell rt_small node_inner 0) cons_le3"
    unfolding nodeGetCell_node_inner
    by (simp add: spec_prunes_def cons_le3_def exact_fl_def DCOORD_def
        rt_small_def RTREE_LE_def RTREE_COORD_REAL32_def)
  have b: "\<not> spec_prunes exact_fl rt_small (nodeGetCell rt_small node_inner 0) cons_ge7"
    unfolding nodeGetCell_node_inner
    by (simp add: spec_prunes_def cons_ge7_def exact_fl_def DCOORD_def
        rt_small_def RTREE_LE_def RTREE_LT_def RTREE_GE_def RTREE_COORD_REAL32_def)
  have c: "snd (testRtreeCell exact_fl rt_small node_inner 0 [cons_ge7, cons_le3]) \<noteq> 0"
    using testRtreeCell_excluded_iff [of exact_fl rt_small node_inner 0 "[cons_ge7, cons_le3]"] a
    by simp
  have d: "snd (testRtreeCell exact_fl rt_small node_inner 0 [cons_ge7]) = 0"
    using testRtreeCell_excluded_iff [of exact_fl rt_small node_inner 0 "[cons_ge7]"] b
    by simp
  have e: "snd (testRtreeCell exact_fl rt_small node_inner 0 [cons_ge7, cons_le3]) = 1"
    unfolding testRtreeCell_def nodeGetCell_node_inner
    by (simp add: cons_ge7_def cons_le3_def exact_fl_def
        DCOORD_def rt_small_def RTREE_LE_def RTREE_LT_def RTREE_GE_def RTREE_GT_def
        RTREE_COORD_REAL32_def b2i_def SQLITE_OK_def)
  show ?thesis using a b c d e by simp
qed


section \<open>Strategy selection: \<open>rtreeBestIndex\<close>\<close>

text \<open>
  Modelled from the spec: the host's \<^verbatim>\<open>sqlite3_index_info\<close> with its constraint and
  usage arrays, and the operator codes \<^verbatim>\<open>SQLITE_INDEX_CONSTRAINT_*\<close>, are declared in
  \<^verbatim>\<open>sqlite3.h\<close>, not in the extension. The records keep the fields \<open>rtreeBestIndex\<close>
  reads and writes; \<^verbatim>\<open>nConstraint\<close> is the length of \<open>aConstraint\<close>. The estimated
  cost is a \<^verbatim>\<open>double\<close>.
\<close>

definition SQLITE_INDEX_CONSTRAINT_EQ :: int where "SQLITE_INDEX_CONSTRAINT_EQ = 2"
definition SQLITE_INDEX_CONSTRAINT_GT :: int where "SQLITE_INDEX_CONSTRAINT_GT = 4"
definition SQLITE_INDEX_CONSTRAINT_LE :: int where "SQLITE_INDEX_CONSTRAINT_LE = 8"
definition SQLITE_INDEX_CONSTRAINT_LT :: int where "SQLITE_INDEX_CONSTRAINT_LT = 16"
definition SQLITE_INDEX_CONSTRAINT_GE :: int where "SQLITE_INDEX_CONSTRAINT_GE = 32"
definition SQLITE_INDEX_CONSTRAINT_MATCH :: int where "SQLITE_INDEX_CONSTRAINT_MATCH = 64"

record sqlite3_index_constraint =
  iColumn :: int
  op :: int
  usable :: int

record sqlite3_index_constraint_usage =
  argvIndex :: int
  omit :: int

record 'd sqlite3_index_info =
  aConstraint :: "sqlite3_index_constraint list"
  aConstraintUsage :: "sqlite3_index_constraint_usage list"
  idxNum :: int
  idxStr :: "u8 list option"
  needToFreeIdxStr :: int
  estimatedCost :: 'd

text \<open>The two tests of the loop body, and the two bytes written for a constraint.\<close>

definition is_rowid_eq :: "sqlite3_index_constraint \<Rightarrow> bool" where
  "is_rowid_eq p \<longleftrightarrow> usable p \<noteq> 0 \<and> iColumn p = 0 \<and> op p = SQLITE_INDEX_CONSTRAINT_EQ"

definition is_encoded :: "sqlite3_index_constraint \<Rightarrow> bool" where
  "is_encoded p \<longleftrightarrow> usable p \<noteq> 0 \<and> (iColumn p > 0 \<or> op p = SQLITE_INDEX_CONSTRAINT_MATCH)"

definition idx_bytes :: "sqlite3_index_constraint \<Rightarrow> u8 list" where
  "idx_bytes p =
     [word_of_int
        (if op p = SQLITE_INDEX_CONSTRAINT_EQ then RTREE_EQ
         else if op p = SQLITE_INDEX_CONSTRAINT_GT then RTREE_GT
         else if op p = SQLITE_INDEX_CONSTRAINT_LE then RTREE_LE
         else if op p = SQLITE_INDEX_CONSTRAINT_LT then RTREE_LT
         else if op p = SQLITE_INDEX_CONSTRAINT_GE then RTREE_GE
         else RTREE_MATCH),
      word_of_int (iColumn p - 1 + 97)]"

text \<open>
  The loop \<^verbatim>\<open>for(ii=0; ii<nConstraint && iIdx<(int)(sizeof(zIdxStr)-1); ii++)\<close>, with
  \<^verbatim>\<open>sizeof(zIdxStr) = RTREE_MAX_DIMENSIONS*8+1 = 41\<close>. The bytes written to
  \<^verbatim>\<open>zIdxStr\<close> so far are \<open>z\<close> and \<^verbatim>\<open>iIdx\<close> is their number. The loop ends either in
  the early return of strategy 1 or by running out.
\<close>

datatype bestindex_scan =
  Lookup "sqlite3_index_constraint_usage list"
  | Scan "u8 list" "sqlite3_index_constraint_usage list"

fun rtreeBestIndex_loop ::
  "sqlite3_index_constraint list \<Rightarrow> nat \<Rightarrow> u8 list \<Rightarrow> sqlite3_index_constraint_usage list
   \<Rightarrow> bestindex_scan" where
  "rtreeBestIndex_loop [] ii z us = Scan z us"
| "rtreeBestIndex_loop (p # ps) ii z us =
     (if int (length z) < 40 then
        (if usable p \<noteq> 0 \<and> iColumn p = 0 \<and> op p = SQLITE_INDEX_CONSTRAINT_EQ then
           (let us1 = fold (\<lambda>jj u. u[jj := \<lparr>argvIndex = 0, omit = 0\<rparr>]) [0..<ii] us;
                us2 = us1[ii := (us1 ! ii)\<lparr>argvIndex := 1\<rparr>];
                us3 = us2[ii := (us2 ! ii)\<lparr>omit := 1\<rparr>]
            in Lookup us3)
         else if usable p \<noteq> 0 \<and> (iColumn p > 0 \<or> op p = SQLITE_INDEX_CONSTRAINT_MATCH) then
           (let z' = z @ idx_bytes p
            in rtreeBestIndex_loop ps (ii + 1) z'
                 (us[ii := \<lparr>argvIndex = c_div (int (length z')) 2, omit = 1\<rparr>]))
         else rtreeBestIndex_loop ps (ii + 1) z us)
      else Scan z us)"

text \<open>
  \<^verbatim>\<open>rtreeBestIndex\<close>. \<open>mprintf_ok\<close> tells whether \<^verbatim>\<open>sqlite3_mprintf\<close> succeeds; the
  string it copies ends at the first zero byte. The literals \<^verbatim>\<open>10.0\<close> and
  \<^verbatim>\<open>2000000.0\<close> are the doubles of the integers 10 and 2000000.
\<close>

definition rtreeBestIndex ::
  "'d c_float \<Rightarrow> bool \<Rightarrow> 'd sqlite3_index_info \<Rightarrow> int \<times> 'd sqlite3_index_info" where
  "rtreeBestIndex fl mprintf_ok pIdxInfo =
     (case rtreeBestIndex_loop (aConstraint pIdxInfo) 0 [] (aConstraintUsage pIdxInfo) of
        Lookup us \<Rightarrow>
          (SQLITE_OK,
           pIdxInfo\<lparr>aConstraintUsage := us, idxNum := 1, estimatedCost := d_of_int fl 10\<rparr>)
      | Scan z us \<Rightarrow>
          (let info1 = pIdxInfo\<lparr>aConstraintUsage := us, idxNum := 2, needToFreeIdxStr := 1\<rparr>;
               iIdx = int (length z)
           in if iIdx > 0 \<and> \<not> mprintf_ok then (SQLITE_NOMEM, info1\<lparr>idxStr := None\<rparr>)
              else
                (SQLITE_OK,
                 (if iIdx > 0 then info1\<lparr>idxStr := Some (takeWhile (\<lambda>c. c \<noteq> 0) z)\<rparr> else info1)
                 \<lparr>estimatedCost := d_div fl (d_of_int fl 2000000) (d_of_int fl (iIdx + 1))\<rparr>)))"


text \<open>
  Whether the scan meets a usable rowid equality while it has room for \<open>n\<close> more
  encoded constraints.
\<close>

fun reaches_rowid_eq :: "sqlite3_index_constraint list \<Rightarrow> nat \<Rightarrow> bool" where
  "reaches_rowid_eq [] n = False"
| "reaches_rowid_eq (p # ps) n =
     (0 < n \<and> (is_rowid_eq p \<or> (if is_encoded p then reaches_rowid_eq ps (n - 1)
                                   else reaches_rowid_eq ps n)))"

lemma reaches_rowid_eq_pos: "reaches_rowid_eq ps n \<Longrightarrow> 0 < n"
  by (cases ps) simp_all

lemma reaches_rowid_eq_iff:
  "reaches_rowid_eq ps n \<longleftrightarrow>
     (\<exists>j<length ps. is_rowid_eq (ps ! j) \<and> length (filter is_encoded (take j ps)) < n)"
proof (induction ps arbitrary: n)
  case Nil
  then show ?case by simp
next
  case (Cons p ps)
  show ?case
  proof (cases "is_encoded p")
    case True
    have "(\<exists>j<length ps. is_rowid_eq (ps ! j) \<and> length (filter is_encoded (take j ps)) < n - 1)
          \<longleftrightarrow> (\<exists>j<length ps. is_rowid_eq (ps ! j) \<and> Suc (length (filter is_encoded (take j ps))) < n)"
      by (auto simp add: less_diff_conv)
    with True show ?thesis
      by (auto simp add: Cons.IH Ex_less_Suc2)
  next
    case False
    then show ?thesis
      by (auto simp add: Cons.IH Ex_less_Suc2)
  qed
qed

lemma length_idx_bytes [simp]: "length (idx_bytes p) = 2"
  by (simp add: idx_bytes_def)

lemma not_both: "is_rowid_eq p \<Longrightarrow> \<not> is_encoded p"
  by (auto simp add: is_rowid_eq_def is_encoded_def SQLITE_INDEX_CONSTRAINT_EQ_def
      SQLITE_INDEX_CONSTRAINT_MATCH_def)

lemma rtreeBestIndex_loop_Cons:
  "rtreeBestIndex_loop (p # ps) ii z us =
     (if int (length z) < 40 then
        (if is_rowid_eq p then
           (let us1 = fold (\<lambda>jj u. u[jj := \<lparr>argvIndex = 0, omit = 0\<rparr>]) [0..<ii] us;
                us2 = us1[ii := (us1 ! ii)\<lparr>argvIndex := 1\<rparr>];
                us3 = us2[ii := (us2 ! ii)\<lparr>omit := 1\<rparr>]
            in Lookup us3)
         else if is_encoded p then
           rtreeBestIndex_loop ps (ii + 1) (z @ idx_bytes p)
             (us[ii := \<lparr>argvIndex = c_div (int (length (z @ idx_bytes p))) 2, omit = 1\<rparr>])
         else rtreeBestIndex_loop ps (ii + 1) z us)
      else Scan z us)"
  by (simp add: is_rowid_eq_def is_encoded_def Let_def)

lemma rtreeBestIndex_loop_char:
  "length z = 2 * k \<Longrightarrow> k \<le> 20 \<Longrightarrow>
   (case rtreeBestIndex_loop ps ii z us of
      Lookup us' \<Rightarrow> reaches_rowid_eq ps (20 - k)
    | Scan z' us' \<Rightarrow>
        \<not> reaches_rowid_eq ps (20 - k)
        \<and> z' = z @ concat (map idx_bytes (take (20 - k) (filter is_encoded ps))))"
proof (induction ps arbitrary: ii z us k)
  case Nil
  then show ?case by simp
next
  case (Cons p ps)
  show ?case
  proof (cases "k = 20")
    case True
    with Cons.prems show ?thesis by simp
  next
    case False
    with Cons.prems have k: "k < 20" and lz: "int (length z) < 40" by simp_all
    show ?thesis
    proof (cases "is_rowid_eq p")
      case True
      with k lz show ?thesis
        by (simp only: rtreeBestIndex_loop_Cons) (simp add: Let_def)
    next
      case nr: False
      show ?thesis
      proof (cases "is_encoded p")
        case True
        have l: "length (z @ idx_bytes p) = 2 * Suc k" using Cons.prems by simp
        have t: "20 - k = Suc (20 - Suc k)" using k by simp
        have "rtreeBestIndex_loop (p # ps) ii z us
              = rtreeBestIndex_loop ps (ii + 1) (z @ idx_bytes p)
                  (us[ii := \<lparr>argvIndex = c_div (int (length (z @ idx_bytes p))) 2, omit = 1\<rparr>])"
          using lz nr True by (simp only: rtreeBestIndex_loop_Cons if_True if_False)
        moreover note Cons.IH [OF l, of "ii + 1"
            "us[ii := \<lparr>argvIndex = c_div (int (length (z @ idx_bytes p))) 2, omit = 1\<rparr>]"]
        ultimately show ?thesis
          using k nr True by (auto simp add: t split: bestindex_scan.splits)
      next
        case False
        have "rtreeBestIndex_loop (p # ps) ii z us = rtreeBestIndex_loop ps (ii + 1) z us"
          using lz nr False by (simp only: rtreeBestIndex_loop_Cons if_True if_False)
        moreover note Cons.IH [OF Cons.prems(1), of "ii + 1" us]
        ultimately show ?thesis
          using k nr False Cons.prems by (auto split: bestindex_scan.splits)
      qed
    qed
  qed
qed


section \<open>Claim C3: the plan \<open>rtreeBestIndex\<close> reports\<close>

text \<open>
  C3 as stated fails twice. It promises the cost \<open>2,000,000 / (constraintCount + 1)\<close>,
  but the divisor in the code is \<^verbatim>\<open>iIdx + 1\<close> and \<^verbatim>\<open>iIdx\<close> counts the bytes of
  \<^verbatim>\<open>zIdxStr\<close>, two for each constraint: one usable constraint \<open>x0 <= ?\<close> gives
  \<open>2,000,000 / 3\<close>. And it promises strategy 1 whenever a usable rowid equality
  exists, but the scan stops once \<^verbatim>\<open>zIdxStr\<close> is full (after twenty encoded
  constraints): a rowid equality behind twenty usable coordinate constraints is not
  seen, and the plan is strategy 2.
\<close>

definition ic_le_x0 :: sqlite3_index_constraint where
  "ic_le_x0 = \<lparr>iColumn = 1, op = 8, usable = 1\<rparr>"

definition ic_rowid_eq :: sqlite3_index_constraint where
  "ic_rowid_eq = \<lparr>iColumn = 0, op = 2, usable = 1\<rparr>"

definition info_of :: "sqlite3_index_constraint list \<Rightarrow> real sqlite3_index_info" where
  "info_of cs = \<lparr>aConstraint = cs,
                 aConstraintUsage = replicate (length cs) \<lparr>argvIndex = 0, omit = 0\<rparr>,
                 idxNum = 0, idxStr = None, needToFreeIdxStr = 0, estimatedCost = 0\<rparr>"

theorem rtreeBestIndex_counterexample:
  "idxNum (snd (rtreeBestIndex exact_fl True (info_of [ic_le_x0]))) = 2
   \<and> idxStr (snd (rtreeBestIndex exact_fl True (info_of [ic_le_x0]))) = Some [0x42, 0x61]
   \<and> estimatedCost (snd (rtreeBestIndex exact_fl True (info_of [ic_le_x0]))) = 2000000 / 3
   \<and> estimatedCost (snd (rtreeBestIndex exact_fl True (info_of [ic_le_x0]))) \<noteq> 2000000 / (1 + 1)
   \<and> is_rowid_eq ic_rowid_eq
   \<and> idxNum (snd (rtreeBestIndex exact_fl True (info_of
        [ic_le_x0, ic_le_x0, ic_le_x0, ic_le_x0, ic_le_x0, ic_le_x0, ic_le_x0, ic_le_x0,
         ic_le_x0, ic_le_x0, ic_le_x0, ic_le_x0, ic_le_x0, ic_le_x0, ic_le_x0, ic_le_x0,
         ic_le_x0, ic_le_x0, ic_le_x0, ic_le_x0, ic_rowid_eq]))) = 2"
  by (simp add: rtreeBestIndex_def info_of_def ic_le_x0_def ic_rowid_eq_def exact_fl_def
      idx_bytes_def is_rowid_eq_def Let_def c_div_def
      SQLITE_INDEX_CONSTRAINT_EQ_def SQLITE_INDEX_CONSTRAINT_GT_def SQLITE_INDEX_CONSTRAINT_LE_def
      SQLITE_INDEX_CONSTRAINT_LT_def SQLITE_INDEX_CONSTRAINT_GE_def
      SQLITE_INDEX_CONSTRAINT_MATCH_def RTREE_LE_def SQLITE_OK_def)

text \<open>
  C3, amended. \<open>rtreeBestIndex\<close> reports strategy 1 with estimated cost 10 whenever a
  usable equality constraint on column 0 (the rowid) stands in the constraint array
  with fewer than twenty usable coordinate or MATCH constraints before it. Otherwise it
  reports strategy 2 and, when the copy of the index string can be allocated (or there
  is nothing to copy), the estimated cost \<open>2,000,000 / (2 * constraintCount + 1)\<close>,
  where \<open>constraintCount\<close> is the number of usable coordinate or MATCH constraints
  encoded into \<open>idxStr\<close>: all of them up to twenty, two bytes each, in array order.
\<close>

theorem rtreeBestIndex_plan:
  assumes "rtreeBestIndex fl mprintf_ok pIdxInfo = (rc, info')"
  shows "if (\<exists>j<length (aConstraint pIdxInfo).
               is_rowid_eq (aConstraint pIdxInfo ! j)
               \<and> length (filter is_encoded (take j (aConstraint pIdxInfo))) < 20)
         then rc = SQLITE_OK \<and> idxNum info' = 1 \<and> estimatedCost info' = d_of_int fl 10
         else idxNum info' = 2
              \<and> (let encoded = take 20 (filter is_encoded (aConstraint pIdxInfo));
                      constraintCount = int (length encoded)
                  in (mprintf_ok \<or> constraintCount = 0 \<longrightarrow>
                        rc = SQLITE_OK
                        \<and> estimatedCost info'
                            = d_div fl (d_of_int fl 2000000) (d_of_int fl (2 * constraintCount + 1))
                        \<and> (0 < constraintCount \<longrightarrow>
                             idxStr info'
                               = Some (takeWhile (\<lambda>c. c \<noteq> 0) (concat (map idx_bytes encoded))))))"
proof -
  have len: "\<And>xs :: sqlite3_index_constraint list. length (concat (map idx_bytes xs)) = 2 * length xs"
    by (induct_tac xs) simp_all
  note ch = rtreeBestIndex_loop_char [of "[]" 0 "aConstraint pIdxInfo" 0 "aConstraintUsage pIdxInfo"]
  show ?thesis
  proof (cases "rtreeBestIndex_loop (aConstraint pIdxInfo) 0 [] (aConstraintUsage pIdxInfo)")
    case (Lookup us)
    with ch have "reaches_rowid_eq (aConstraint pIdxInfo) 20" by simp
    then have "\<exists>j<length (aConstraint pIdxInfo).
               is_rowid_eq (aConstraint pIdxInfo ! j)
               \<and> length (filter is_encoded (take j (aConstraint pIdxInfo))) < 20"
      by (simp add: reaches_rowid_eq_iff)
    with assms Lookup show ?thesis
      by (auto simp add: rtreeBestIndex_def)
  next
    case (Scan z us)
    with ch have n: "\<not> reaches_rowid_eq (aConstraint pIdxInfo) 20"
      and z: "z = concat (map idx_bytes (take 20 (filter is_encoded (aConstraint pIdxInfo))))"
      by simp_all
    from n have ne: "\<not> (\<exists>j<length (aConstraint pIdxInfo).
               is_rowid_eq (aConstraint pIdxInfo ! j)
               \<and> length (filter is_encoded (take j (aConstraint pIdxInfo))) < 20)"
      by (simp add: reaches_rowid_eq_iff)
    define n where "n = int (length (take 20 (filter is_encoded (aConstraint pIdxInfo))))"
    have lz: "int (length z) = 2 * n"
      unfolding z len n_def by simp
    have core: "idxNum info' = 2
       \<and> (mprintf_ok \<or> n = 0 \<longrightarrow>
             rc = SQLITE_OK
             \<and> estimatedCost info' = d_div fl (d_of_int fl 2000000) (d_of_int fl (2 * n + 1))
             \<and> (0 < n \<longrightarrow> idxStr info' = Some (takeWhile (\<lambda>c. c \<noteq> 0) z)))"
    proof (cases "n = 0")
      case True
      then show ?thesis
        using assms Scan lz by (auto simp add: rtreeBestIndex_def Let_def split: if_splits)
    next
      case False
      moreover have "0 \<le> n" unfolding n_def by simp
      ultimately have "0 < n" by simp
      then show ?thesis
        using assms Scan lz by (auto simp add: rtreeBestIndex_def Let_def split: if_splits)
    qed
    show ?thesis
      using ne core unfolding n_def z by (simp add: Let_def)
  qed
qed

theorem rtreeBestIndex_plan_witness:
  "is_rowid_eq ([ic_le_x0, ic_rowid_eq] ! 1)
   \<and> length (filter is_encoded (take 1 [ic_le_x0, ic_rowid_eq])) < 20
   \<and> fst (rtreeBestIndex exact_fl True (info_of [ic_le_x0, ic_rowid_eq])) = SQLITE_OK
   \<and> idxNum (snd (rtreeBestIndex exact_fl True (info_of [ic_le_x0, ic_rowid_eq]))) = 1
   \<and> estimatedCost (snd (rtreeBestIndex exact_fl True (info_of [ic_le_x0, ic_rowid_eq]))) = 10
   \<and> idxNum (snd (rtreeBestIndex exact_fl True (info_of [ic_le_x0, ic_le_x0]))) = 2
   \<and> estimatedCost (snd (rtreeBestIndex exact_fl True (info_of [ic_le_x0, ic_le_x0]))) = 2000000 / 5"
proof -
  let ?r1 = "rtreeBestIndex exact_fl True (info_of [ic_le_x0, ic_rowid_eq])"
  let ?r2 = "rtreeBestIndex exact_fl True (info_of [ic_le_x0, ic_le_x0])"
  have x: "is_rowid_eq ([ic_le_x0, ic_rowid_eq] ! 1)"
    by (simp add: is_rowid_eq_def ic_rowid_eq_def SQLITE_INDEX_CONSTRAINT_EQ_def)
  have y: "length (filter is_encoded (take 1 [ic_le_x0, ic_rowid_eq])) < 20"
    by simp
  have e: "\<exists>j<length (aConstraint (info_of [ic_le_x0, ic_rowid_eq])).
               is_rowid_eq (aConstraint (info_of [ic_le_x0, ic_rowid_eq]) ! j)
               \<and> length (filter is_encoded (take j (aConstraint (info_of [ic_le_x0, ic_rowid_eq])))) < 20"
    using x y by (intro exI [of _ 1]) (simp add: info_of_def)
  have n: "\<not> (\<exists>j<length (aConstraint (info_of [ic_le_x0, ic_le_x0])).
               is_rowid_eq (aConstraint (info_of [ic_le_x0, ic_le_x0]) ! j)
               \<and> length (filter is_encoded (take j (aConstraint (info_of [ic_le_x0, ic_le_x0])))) < 20)"
    by (simp add: info_of_def is_rowid_eq_def ic_le_x0_def SQLITE_INDEX_CONSTRAINT_EQ_def
        nth_Cons split: nat.split)
  have enc: "filter is_encoded (aConstraint (info_of [ic_le_x0, ic_le_x0])) = [ic_le_x0, ic_le_x0]"
    by (simp add: info_of_def is_encoded_def ic_le_x0_def)
  have a: "?r1 = (fst ?r1, snd ?r1)" by simp
  have b: "?r2 = (fst ?r2, snd ?r2)" by simp
  have A: "fst ?r1 = SQLITE_OK \<and> idxNum (snd ?r1) = 1 \<and> estimatedCost (snd ?r1) = d_of_int exact_fl 10"
    using rtreeBestIndex_plan [OF a] by (simp only: e if_True)
  have B: "idxNum (snd ?r2) = 2
           \<and> estimatedCost (snd ?r2) = d_div exact_fl (d_of_int exact_fl 2000000) (d_of_int exact_fl 5)"
    using rtreeBestIndex_plan [OF b] by (simp only: n if_False enc Let_def) simp
  show ?thesis
    using x y A B by (simp add: exact_fl_def)
qed


section \<open>The insert path: state and the operations left opaque\<close>

text \<open>
  The state of a table while \<open>rtreeUpdate\<close> runs: the \<^verbatim>\<open>Rtree\<close> object, the node
  objects in memory, and the host (the database behind the nine prepared statements,
  the allocator) as an opaque value of type \<open>'w\<close>. The last field is not a C variable:
  it records, oldest first, every decision \<open>rtreeInsertCell\<close> takes at a full node,
  with the height and the node number, the way a test hook would count them.
\<close>

datatype overflow_event = EvReinsert int i64 | EvSplit int i64

record 'w rtree_state =
  rt :: Rtree
  mem :: heap
  db :: 'w
  trace :: "overflow_event list"

text \<open>
  What \<open>rtreeUpdate\<close> and the insert path call but the embedding does not define.

  Modelled from the spec: the host interface (\<^verbatim>\<open>sqlite3_value_type\<close>,
  \<^verbatim>\<open>sqlite3_value_int64\<close>, \<^verbatim>\<open>sqlite3_value_int\<close>, \<^verbatim>\<open>sqlite3_value_double\<close>,
  \<^verbatim>\<open>sqlite3_vtab_on_conflict\<close>,
  \<^verbatim>\<open>sqlite3_malloc\<close>, stepping and resetting a prepared statement) is the host's and
  is not under src/; the specification treats it as an opaque interface with inputs,
  outputs and error returns, and so do these fields. \<open>readRowid\<close> is the \<^verbatim>\<open>SELECT\<close> on
  the \<open>_rowid\<close> table (bind, step, reset): it gives the results of
  \<^verbatim>\<open>sqlite3_step\<close> and \<^verbatim>\<open>sqlite3_reset\<close> and, being a query, leaves the host as it is.
  \<open>rowidWrite\<close> and \<open>parentWrite\<close> run one \<^verbatim>\<open>INSERT OR REPLACE\<close> and touch the host only.

  The remaining fields are functions of the source file that walk or rebuild the tree
  through the node cache and the database (\<open>rtreeDeleteRowid\<close>, \<open>newRowid\<close>,
  \<open>ChooseLeaf\<close>, \<open>nodeRelease\<close>, \<open>AdjustTree\<close>, \<open>fixBoundingBox\<close>), and the four
  straight-line stretches of \<open>SplitNode\<close> between its calls of \<open>rtreeInsertCell\<close>. The claims settled below are
  about the control flow around them, so they are parameters: each may return any
  code and any state, and every theorem holds for all of them.
\<close>

record split_ctx =
  pLeft :: "addr option"
  pRight :: "addr option"
  leftbbox :: RtreeCell
  rightbbox :: RtreeCell

record ('v, 'w, 'd) rtree_ops =
  value_is_null :: "'v \<Rightarrow> bool"
  value_int64 :: "'v \<Rightarrow> i64"
  value_int :: "'v \<Rightarrow> RtreeCoord"
  value_double :: "'v \<Rightarrow> 'd"
  vtab_on_conflict :: "'w \<Rightarrow> int"
  malloc_ok :: "'w \<Rightarrow> bool"
  readRowid :: "i64 \<Rightarrow> 'w \<Rightarrow> int \<times> int"
  rowidWrite :: "i64 \<Rightarrow> i64 \<Rightarrow> 'w \<Rightarrow> int \<times> 'w"
  parentWrite :: "i64 \<Rightarrow> i64 \<Rightarrow> 'w \<Rightarrow> int \<times> 'w"
  finalize_all :: "'w rtree_state \<Rightarrow> 'w rtree_state"
  rtreeDeleteRowid :: "i64 \<Rightarrow> 'w rtree_state \<Rightarrow> int \<times> 'w rtree_state"
  newRowid :: "'w rtree_state \<Rightarrow> int \<times> i64 \<times> 'w rtree_state"
  ChooseLeaf :: "RtreeCell \<Rightarrow> int \<Rightarrow> 'w rtree_state \<Rightarrow> int \<times> addr \<times> 'w rtree_state"
  nodeRelease :: "addr option \<Rightarrow> 'w rtree_state \<Rightarrow> int \<times> 'w rtree_state"
  AdjustTree :: "addr \<Rightarrow> RtreeCell \<Rightarrow> 'w rtree_state \<Rightarrow> int \<times> 'w rtree_state"
  fixBoundingBox :: "addr \<Rightarrow> 'w rtree_state \<Rightarrow> int \<times> 'w rtree_state"
  SplitNode_assign :: "addr \<Rightarrow> RtreeCell \<Rightarrow> int \<Rightarrow> 'w rtree_state \<Rightarrow> int \<times> split_ctx \<times> 'w rtree_state"
  SplitNode_left :: "split_ctx \<Rightarrow> 'w rtree_state \<Rightarrow> int \<times> 'w rtree_state"
  SplitNode_mappings :: "addr \<Rightarrow> RtreeCell \<Rightarrow> int \<Rightarrow> split_ctx \<Rightarrow> 'w rtree_state \<Rightarrow> int \<times> split_ctx \<times> 'w rtree_state"
  SplitNode_out :: "split_ctx \<Rightarrow> 'w rtree_state \<Rightarrow> 'w rtree_state"

text \<open>
  The result of a function that recurses through \<open>rtreeInsertCell\<close>: the return code,
  or \<open>None\<close> when the recursion budget of the embedding ran out, and the state reached.
\<close>

type_synonym 'w ins_result = "int option \<times> 'w rtree_state"

type_synonym 'w ins_fun = "addr \<Rightarrow> RtreeCell \<Rightarrow> int \<Rightarrow> 'w rtree_state \<Rightarrow> 'w ins_result"

section \<open>\<open>SortByDistance\<close>\<close>

text \<open>
  The merge loop of \<open>SortByDistance\<close>. \<open>a\<close> is the array \<^verbatim>\<open>aIdx\<close>, whose second half
  \<^verbatim>\<open>aRight = &aIdx[nLeft]\<close> is read while the front is overwritten; \<open>aSpare\<close> holds
  the copy of the sorted left half. The loop keeps \<open>iLeft \<le> nLeft\<close> and
  \<open>iRight \<le> nRight\<close>; the embedding stops outside that range.
\<close>

function SortByDistance_merge ::
  "'d c_float \<Rightarrow> 'd list \<Rightarrow> nat list \<Rightarrow> nat \<Rightarrow> nat \<Rightarrow> nat \<Rightarrow> nat \<Rightarrow> nat list \<Rightarrow> nat list" where
  "SortByDistance_merge fl aDistance aSpare nLeft nRight iLeft iRight a =
     (if iLeft \<le> nLeft \<and> iRight \<le> nRight \<and> (iLeft < nLeft \<or> iRight < nRight) then
        (if iLeft = nLeft then
           SortByDistance_merge fl aDistance aSpare nLeft nRight iLeft (iRight + 1)
             (a[iLeft + iRight := a ! (nLeft + iRight)])
         else if iRight = nRight then
           SortByDistance_merge fl aDistance aSpare nLeft nRight (iLeft + 1) iRight
             (a[iLeft + iRight := aSpare ! iLeft])
         else
           (let fLeft = aDistance ! (aSpare ! iLeft);
                fRight = aDistance ! (a ! (nLeft + iRight))
            in if d_lt fl fLeft fRight then
                 SortByDistance_merge fl aDistance aSpare nLeft nRight (iLeft + 1) iRight
                   (a[iLeft + iRight := aSpare ! iLeft])
               else
                 SortByDistance_merge fl aDistance aSpare nLeft nRight iLeft (iRight + 1)
                   (a[iLeft + iRight := a ! (nLeft + iRight)])))
      else a)"
  by pat_completeness auto
termination
  by (relation "measure (\<lambda>(fl, aDistance, aSpare, nLeft, nRight, iLeft, iRight, a).
        (nLeft - iLeft) + (nRight - iRight))") auto

declare SortByDistance_merge.simps [simp del]

text \<open>
  \<open>SortByDistance\<close> on the sub-array \<open>aIdx\<close> (its length is \<^verbatim>\<open>nIdx\<close>): both halves are
  sorted in place, the left one is copied to \<^verbatim>\<open>aSpare\<close>, and the two are merged.
\<close>

function SortByDistance :: "'d c_float \<Rightarrow> nat list \<Rightarrow> 'd list \<Rightarrow> nat list" where
  "SortByDistance fl aIdx aDistance =
     (if length aIdx > 1 then
        (let nLeft = length aIdx div 2;
             nRight = length aIdx - nLeft;
             aLeft = SortByDistance fl (take nLeft aIdx) aDistance;
             aRight = SortByDistance fl (drop nLeft aIdx) aDistance
         in SortByDistance_merge fl aDistance aLeft nLeft nRight 0 0 (aLeft @ aRight))
      else aIdx)"
  by pat_completeness auto
termination
  by (relation "measure (\<lambda>(fl, aIdx, aDistance). length aIdx)") auto

declare SortByDistance.simps [simp del]


text \<open>The merge and the merge sort as functions on lists.\<close>

fun dmerge :: "'d c_float \<Rightarrow> 'd list \<Rightarrow> nat list \<Rightarrow> nat list \<Rightarrow> nat list" where
  "dmerge fl D [] ys = ys"
| "dmerge fl D (x # xs) [] = x # xs"
| "dmerge fl D (x # xs) (y # ys) =
     (if d_lt fl (D ! x) (D ! y) then x # dmerge fl D xs (y # ys)
      else y # dmerge fl D (x # xs) ys)"

lemma dmerge_Nil2 [simp]: "dmerge fl D xs [] = xs"
  by (cases xs) simp_all

lemma SortByDistance_merge_eq:
  "length L = nLeft \<Longrightarrow> iL \<le> nLeft \<Longrightarrow> iR \<le> nRight \<Longrightarrow> length a = nLeft + nRight \<Longrightarrow>
   SortByDistance_merge fl D L nLeft nRight iL iR a
     = take (iL + iR) a @ dmerge fl D (drop iL L) (drop (nLeft + iR) a)"
proof (induction fl D L nLeft nRight iL iR a rule: SortByDistance_merge.induct)
  case (1 fl D L nLeft nRight iL iR a)
  show ?case
  proof (cases "iL < nLeft \<or> iR < nRight")
    case False
    with "1.prems" have "iL = nLeft" "iR = nRight" by simp_all
    with "1.prems" show ?thesis
      by (subst SortByDistance_merge.simps) simp
  next
    case True
    have right: "SortByDistance_merge fl D L nLeft nRight iL (iR + 1) (a[iL + iR := a ! (nLeft + iR)])
        = take (iL + iR) a @ (a ! (nLeft + iR)) # dmerge fl D (drop iL L) (drop (nLeft + iR + 1) a)"
      if r: "iR < nRight" and ih: "SortByDistance_merge fl D L nLeft nRight iL (iR + 1) (a[iL + iR := a ! (nLeft + iR)])
        = take (iL + (iR + 1)) (a[iL + iR := a ! (nLeft + iR)])
          @ dmerge fl D (drop iL L) (drop (nLeft + (iR + 1)) (a[iL + iR := a ! (nLeft + iR)]))"
    proof -
      have "take (iL + (iR + 1)) (a[iL + iR := a ! (nLeft + iR)]) = take (iL + iR) a @ [a ! (nLeft + iR)]"
        using r "1.prems" by (simp add: take_Suc_conv_app_nth)
      moreover have "drop (nLeft + (iR + 1)) (a[iL + iR := a ! (nLeft + iR)]) = drop (nLeft + iR + 1) a"
        using "1.prems" by simp
      ultimately show ?thesis using ih by simp
    qed
    have left: "SortByDistance_merge fl D L nLeft nRight (iL + 1) iR (a[iL + iR := L ! iL])
        = take (iL + iR) a @ (L ! iL) # dmerge fl D (drop (iL + 1) L) (drop (nLeft + iR) a)"
      if l: "iL < nLeft" and ih: "SortByDistance_merge fl D L nLeft nRight (iL + 1) iR (a[iL + iR := L ! iL])
        = take (iL + 1 + iR) (a[iL + iR := L ! iL])
          @ dmerge fl D (drop (iL + 1) L) (drop (nLeft + iR) (a[iL + iR := L ! iL]))"
    proof -
      have "take (iL + 1 + iR) (a[iL + iR := L ! iL]) = take (iL + iR) a @ [L ! iL]"
        using l "1.prems" by (simp add: take_Suc_conv_app_nth)
      moreover have "drop (nLeft + iR) (a[iL + iR := L ! iL]) = drop (nLeft + iR) a"
        using l by simp
      ultimately show ?thesis using ih by simp
    qed
    have dl: "drop iL L = L ! iL # drop (iL + 1) L" if "iL < nLeft"
      using that "1.prems" by (simp add: Cons_nth_drop_Suc)
    have dr: "drop (nLeft + iR) a = a ! (nLeft + iR) # drop (nLeft + iR + 1) a" if "iR < nRight"
      using that "1.prems" by (simp add: Cons_nth_drop_Suc)
    show ?thesis
    proof (cases "iL = nLeft")
      case l: True
      with True have r: "iR < nRight" by simp
      have "SortByDistance_merge fl D L nLeft nRight iL iR a
            = SortByDistance_merge fl D L nLeft nRight iL (iR + 1) (a[iL + iR := a ! (nLeft + iR)])"
        using l r "1.prems" by (subst SortByDistance_merge.simps) simp
      also have "\<dots> = take (iL + iR) a @ (a ! (nLeft + iR)) # dmerge fl D (drop iL L) (drop (nLeft + iR + 1) a)"
        using l r "1.prems" by (intro right "1.IH"(1)) simp_all
      finally show ?thesis
        using l "1.prems" dr [OF r] by simp
    next
      case nl: False
      with "1.prems" have l: "iL < nLeft" by simp
      show ?thesis
      proof (cases "iR = nRight")
        case r: True
        have "SortByDistance_merge fl D L nLeft nRight iL iR a
            = SortByDistance_merge fl D L nLeft nRight (iL + 1) iR (a[iL + iR := L ! iL])"
          using l nl r "1.prems" by (subst SortByDistance_merge.simps) simp
        also have "\<dots> = take (iL + iR) a @ (L ! iL) # dmerge fl D (drop (iL + 1) L) (drop (nLeft + iR) a)"
          using l nl r "1.prems" by (intro left "1.IH"(2)) simp_all
        finally show ?thesis
          using r "1.prems" dl [OF l] by simp
      next
        case nr: False
        with "1.prems" have r: "iR < nRight" by simp
        show ?thesis
        proof (cases "d_lt fl (D ! (L ! iL)) (D ! (a ! (nLeft + iR)))")
          case c: True
          have "SortByDistance_merge fl D L nLeft nRight iL iR a
            = SortByDistance_merge fl D L nLeft nRight (iL + 1) iR (a[iL + iR := L ! iL])"
            using l nl r nr c "1.prems" by (subst SortByDistance_merge.simps) simp
          also have "\<dots> = take (iL + iR) a @ (L ! iL) # dmerge fl D (drop (iL + 1) L) (drop (nLeft + iR) a)"
            using l nl r nr c "1.prems" by (intro left "1.IH"(3)) simp_all
          finally show ?thesis
            using c dl [OF l] dr [OF r] by simp
        next
          case c: False
          have "SortByDistance_merge fl D L nLeft nRight iL iR a
            = SortByDistance_merge fl D L nLeft nRight iL (iR + 1) (a[iL + iR := a ! (nLeft + iR)])"
            using l nl r nr c "1.prems" by (subst SortByDistance_merge.simps) simp
          also have "\<dots> = take (iL + iR) a @ (a ! (nLeft + iR)) # dmerge fl D (drop iL L) (drop (nLeft + iR + 1) a)"
            using l nl r nr c "1.prems" by (intro right "1.IH"(4)) simp_all
          finally show ?thesis
            using c dl [OF l] dr [OF r] by simp
        qed
      qed
    qed
  qed
qed


function msortD :: "'d c_float \<Rightarrow> 'd list \<Rightarrow> nat list \<Rightarrow> nat list" where
  "msortD fl D xs =
     (if length xs > 1 then
        dmerge fl D (msortD fl D (take (length xs div 2) xs)) (msortD fl D (drop (length xs div 2) xs))
      else xs)"
  by pat_completeness auto
termination
  by (relation "measure (\<lambda>(fl, D, xs). length xs)") auto

declare msortD.simps [simp del]


lemma mset_dmerge [simp]: "mset (dmerge fl D xs ys) = mset xs + mset ys"
  by (induction fl D xs ys rule: dmerge.induct) simp_all

lemma mset_msortD [simp]: "mset (msortD fl D xs) = mset xs"
proof (induction fl D xs rule: msortD.induct)
  case (1 fl D xs)
  show ?case
  proof (cases "length xs > 1")
    case True
    have "mset (take (length xs div 2) xs) + mset (drop (length xs div 2) xs) = mset xs"
      by (metis append_take_drop_id mset_append)
    with True "1.IH" show ?thesis
      by (subst msortD.simps) simp
  next
    case False
    then show ?thesis by (subst msortD.simps) simp
  qed
qed

lemma length_msortD [simp]: "length (msortD fl D xs) = length xs"
  by (metis mset_msortD size_mset)

lemma SortByDistance_msortD: "SortByDistance fl aIdx D = msortD fl D aIdx"
proof (induction fl aIdx D rule: SortByDistance.induct)
  case (1 fl aIdx D)
  show ?case
  proof (cases "length aIdx > 1")
    case True
    let ?h = "length aIdx div 2"
    have a: "SortByDistance fl (take ?h aIdx) D = msortD fl D (take ?h aIdx)"
      using True by (intro "1.IH"(1)) simp_all
    have b: "SortByDistance fl (drop ?h aIdx) D = msortD fl D (drop ?h aIdx)"
      using True by (intro "1.IH"(2)) simp_all
    have l: "length (msortD fl D (take ?h aIdx)) = ?h" by simp
    have "SortByDistance fl aIdx D
          = SortByDistance_merge fl D (msortD fl D (take ?h aIdx)) ?h (length aIdx - ?h) 0 0
              (msortD fl D (take ?h aIdx) @ msortD fl D (drop ?h aIdx))"
      using True by (subst SortByDistance.simps) (simp add: a b Let_def)
    also have "\<dots> = dmerge fl D (msortD fl D (take ?h aIdx)) (msortD fl D (drop ?h aIdx))"
      by (subst SortByDistance_merge_eq) (simp_all add: l)
    finally show ?thesis
      using True by (subst msortD.simps) simp
  next
    case False
    then show ?thesis
      by (subst SortByDistance.simps, subst msortD.simps) simp
  qed
qed



text \<open>
  The comparison of the sort is a weak order on a set of wide values when it is
  asymmetric and its negation is transitive there, as \<^verbatim>\<open><\<close> is on doubles that are not
  NaN.
\<close>

definition d_weak_order :: "'d c_float \<Rightarrow> 'd set \<Rightarrow> bool" where
  "d_weak_order fl S \<longleftrightarrow>
     (\<forall>x\<in>S. \<forall>y\<in>S. d_lt fl x y \<longrightarrow> \<not> d_lt fl y x)
     \<and> (\<forall>x\<in>S. \<forall>y\<in>S. \<forall>z\<in>S. \<not> d_lt fl y x \<longrightarrow> \<not> d_lt fl z y \<longrightarrow> \<not> d_lt fl z x)"

definition ascending :: "'d c_float \<Rightarrow> 'd list \<Rightarrow> nat list \<Rightarrow> bool" where
  "ascending fl D xs = sorted_wrt (\<lambda>i j. \<not> d_lt fl (D ! j) (D ! i)) xs"

lemma d_weak_order_asym:
  "d_weak_order fl S \<Longrightarrow> a \<in> S \<Longrightarrow> b \<in> S \<Longrightarrow> d_lt fl a b \<Longrightarrow> \<not> d_lt fl b a"
  unfolding d_weak_order_def by blast

lemma d_weak_order_trans:
  "d_weak_order fl S \<Longrightarrow> a \<in> S \<Longrightarrow> b \<in> S \<Longrightarrow> c \<in> S \<Longrightarrow>
   \<not> d_lt fl b a \<Longrightarrow> \<not> d_lt fl c b \<Longrightarrow> \<not> d_lt fl c a"
  unfolding d_weak_order_def by fast

lemma set_dmerge [simp]: "set (dmerge fl D xs ys) = set xs \<union> set ys"
  by (induction fl D xs ys rule: dmerge.induct) auto

lemma ascending_Cons:
  "ascending fl D (x # xs) \<longleftrightarrow> (\<forall>z \<in> set xs. \<not> d_lt fl (D ! z) (D ! x)) \<and> ascending fl D xs"
  by (simp add: ascending_def)

lemma ascending_dmerge:
  assumes "d_weak_order fl S" and "\<forall>i \<in> set xs \<union> set ys. D ! i \<in> S"
    and "ascending fl D xs" and "ascending fl D ys"
  shows "ascending fl D (dmerge fl D xs ys)"
  using assms
proof (induction fl D xs ys rule: dmerge.induct)
  case (1 fl D ys)
  then show ?case by simp
next
  case (2 fl D x xs)
  then show ?case by simp
next
  case (3 fl D x xs y ys)
  note wo = "3.prems"(1)
  have xS: "D ! x \<in> S" and yS: "D ! y \<in> S" using "3.prems"(2) by simp_all
  have xsS: "z \<in> set xs \<Longrightarrow> D ! z \<in> S" for z using "3.prems"(2) by simp
  have ysS: "z \<in> set ys \<Longrightarrow> D ! z \<in> S" for z using "3.prems"(2) by simp
  have sx: "z \<in> set xs \<Longrightarrow> \<not> d_lt fl (D ! z) (D ! x)" for z
    using "3.prems"(3) by (simp add: ascending_Cons)
  have sy: "z \<in> set ys \<Longrightarrow> \<not> d_lt fl (D ! z) (D ! y)" for z
    using "3.prems"(4) by (simp add: ascending_Cons)
  have ax: "ascending fl D xs" using "3.prems"(3) by (simp add: ascending_Cons)
  have ay: "ascending fl D ys" using "3.prems"(4) by (simp add: ascending_Cons)
  show ?case
  proof (cases "d_lt fl (D ! x) (D ! y)")
    case True
    have xy: "\<not> d_lt fl (D ! y) (D ! x)" using d_weak_order_asym [OF wo xS yS True] .
    have s2: "\<forall>i\<in>set xs \<union> set (y # ys). D ! i \<in> S" using "3.prems"(2) by simp
    have r: "ascending fl D (dmerge fl D xs (y # ys))"
      using "3.IH"(1) [OF True wo s2 ax "3.prems"(4)] .
    have t: "\<not> d_lt fl (D ! z) (D ! x)" if "z \<in> set ys" for z
      using d_weak_order_trans [OF wo xS yS ysS [OF that] xy sy [OF that]] .
    have "\<forall>z \<in> set (dmerge fl D xs (y # ys)). \<not> d_lt fl (D ! z) (D ! x)"
      using sx xy t by auto
    with r True show ?thesis by (simp add: ascending_Cons)
  next
    case False
    have s2: "\<forall>i\<in>set (x # xs) \<union> set ys. D ! i \<in> S" using "3.prems"(2) by simp
    have r: "ascending fl D (dmerge fl D (x # xs) ys)"
      using "3.IH"(2) [OF False wo s2 "3.prems"(3) ay] .
    have t: "\<not> d_lt fl (D ! z) (D ! y)" if "z \<in> set xs" for z
      using d_weak_order_trans [OF wo yS xS xsS [OF that] False sx [OF that]] .
    have "\<forall>z \<in> set (dmerge fl D (x # xs) ys). \<not> d_lt fl (D ! z) (D ! y)"
      using sy False t by auto
    with r False show ?thesis by (simp add: ascending_Cons)
  qed
qed

lemma set_msortD [simp]: "set (msortD fl D xs) = set xs"
  using mset_msortD [of fl D xs] by (metis set_mset_mset)


lemma ascending_msortD:
  assumes "d_weak_order fl S" and "\<forall>i \<in> set xs. D ! i \<in> S"
  shows "ascending fl D (msortD fl D xs)"
  using assms
proof (induction fl D xs rule: msortD.induct)
  case (1 fl D xs)
  show ?case
  proof (cases "length xs > 1")
    case True
    let ?h = "length xs div 2"
    have s1: "\<forall>i \<in> set (take ?h xs). D ! i \<in> S" using "1.prems"(2) by (meson in_set_takeD)
    have s2: "\<forall>i \<in> set (drop ?h xs). D ! i \<in> S" using "1.prems"(2) by (meson in_set_dropD)
    have a: "ascending fl D (msortD fl D (take ?h xs))"
      using "1.IH"(1) [OF True "1.prems"(1) s1] .
    have b: "ascending fl D (msortD fl D (drop ?h xs))"
      using "1.IH"(2) [OF True "1.prems"(1) s2] .
    have s3: "\<forall>i \<in> set (msortD fl D (take ?h xs)) \<union> set (msortD fl D (drop ?h xs)). D ! i \<in> S"
      using s1 s2 by (simp add: ball_Un)
    have "ascending fl D (dmerge fl D (msortD fl D (take ?h xs)) (msortD fl D (drop ?h xs)))"
      using ascending_dmerge [OF "1.prems"(1) s3 a b] .
    then show ?thesis
      using True by (subst msortD.simps) simp
  next
    case False
    then have "xs = [] \<or> (\<exists>x. xs = [x])"
      by (cases xs) (auto simp add: length_Suc_conv)
    then show ?thesis
      by (subst msortD.simps) (auto simp add: ascending_def)
  qed
qed


section \<open>\<open>Reinsert\<close>, \<open>SplitNode\<close> and \<open>rtreeInsertCell\<close>\<close>

text \<open>
  The array \<^verbatim>\<open>aCell\<close> of \<open>Reinsert\<close>: the cells of the node and, last, the new cell.
\<close>

definition Reinsert_cells :: "Rtree \<Rightarrow> RtreeNode \<Rightarrow> RtreeCell \<Rightarrow> int \<Rightarrow> RtreeCell list" where
  "Reinsert_cells pRtree pNode pCell nCell =
     map (\<lambda>ii. if int ii = nCell - 1 then pCell else nodeGetCell pRtree pNode (int ii))
         [0..<nat nCell]"

text \<open>
  \<^verbatim>\<open>aCenterCoord[iDim]\<close>: starting from \<^verbatim>\<open>0.0\<close>, both coordinates of the dimension
  are added for each cell in turn; the sum is divided by \<^verbatim>\<open>nCell*(RtreeDValue)2\<close>.
\<close>

definition Reinsert_center :: "'d c_float \<Rightarrow> Rtree \<Rightarrow> RtreeCell list \<Rightarrow> int \<Rightarrow> nat \<Rightarrow> 'd" where
  "Reinsert_center fl pRtree aCell nCell iDim =
     d_div fl
       (fold (\<lambda>ii c. d_add fl (d_add fl c (DCOORD fl pRtree (aCoord (aCell ! ii) ! (iDim * 2))))
                               (DCOORD fl pRtree (aCoord (aCell ! ii) ! (iDim * 2 + 1))))
             [0..<nat nCell] (d_of_int fl 0))
       (d_mul fl (d_of_int fl nCell) (d_of_int fl 2))"

text \<open>
  \<^verbatim>\<open>aDistance[ii]\<close>: starting from \<^verbatim>\<open>0.0\<close>, for each dimension the square of
  \<^verbatim>\<open>coord - aCenterCoord[iDim]\<close> is added, where \<^verbatim>\<open>coord\<close> is the cell's upper minus
  its lower coordinate.
\<close>

definition Reinsert_distance :: "'d c_float \<Rightarrow> Rtree \<Rightarrow> RtreeCell list \<Rightarrow> int \<Rightarrow> nat \<Rightarrow> 'd" where
  "Reinsert_distance fl pRtree aCell nCell ii =
     fold (\<lambda>iDim acc.
             (let coord = d_sub fl (DCOORD fl pRtree (aCoord (aCell ! ii) ! (iDim * 2 + 1)))
                                   (DCOORD fl pRtree (aCoord (aCell ! ii) ! (iDim * 2)));
                  c = Reinsert_center fl pRtree aCell nCell iDim
              in d_add fl acc (d_mul fl (d_sub fl coord c) (d_sub fl coord c))))
          [0..<nat (nDim pRtree)] (d_of_int fl 0)"

text \<open>
  The first loop of \<open>Reinsert\<close>,
  \<^verbatim>\<open>for(ii=0; rc==SQLITE_OK && ii<(nCell-(RTREE_MINCELLS(pRtree)+1)); ii++)\<close>, over the
  values of \<open>ii\<close> still to come.
\<close>

fun Reinsert_keep ::
  "('v, 'w, 'd) rtree_ops \<Rightarrow> addr \<Rightarrow> RtreeCell \<Rightarrow> int \<Rightarrow> RtreeCell list \<Rightarrow> nat list \<Rightarrow> nat list
   \<Rightarrow> int \<Rightarrow> 'w rtree_state \<Rightarrow> int \<times> 'w rtree_state" where
  "Reinsert_keep ops pNode pCell iHeight aCell aOrder [] rc s = (rc, s)"
| "Reinsert_keep ops pNode pCell iHeight aCell aOrder (ii # iis) rc s =
     (if rc = SQLITE_OK then
        (let p = aCell ! (aOrder ! ii);
             s1 = s\<lparr>mem := (mem s)(pNode \<mapsto> fst (nodeInsertCell (rt s) (the (mem s pNode)) p))\<rparr>;
             (rc', s2) =
               (if iRowid p = iRowid pCell then
                  (let (r, w) = (if iHeight = 0
                                 then rowidWrite ops (iRowid p) (iNode (the (mem s1 pNode))) (db s1)
                                 else parentWrite ops (iRowid p) (iNode (the (mem s1 pNode))) (db s1))
                   in (r, s1\<lparr>db := w\<rparr>))
                else (rc, s1))
         in Reinsert_keep ops pNode pCell iHeight aCell aOrder iis rc' s2)
      else (rc, s))"

text \<open>
  The second loop, \<^verbatim>\<open>for(; rc==SQLITE_OK && ii<nCell; ii++)\<close>: \<open>ChooseLeaf\<close> at the
  same height, then \<open>rtreeInsertCell\<close> (the parameter \<open>ins\<close>) and \<open>nodeRelease\<close>.
\<close>

fun Reinsert_far ::
  "'w ins_fun \<Rightarrow> ('v, 'w, 'd) rtree_ops \<Rightarrow> int \<Rightarrow> RtreeCell list \<Rightarrow> nat list \<Rightarrow> nat list
   \<Rightarrow> int \<Rightarrow> 'w rtree_state \<Rightarrow> 'w ins_result" where
  "Reinsert_far ins ops iHeight aCell aOrder [] rc s = (Some rc, s)"
| "Reinsert_far ins ops iHeight aCell aOrder (ii # iis) rc s =
     (if rc = SQLITE_OK then
        (let p = aCell ! (aOrder ! ii);
             (rc1, pInsert, s1) = ChooseLeaf ops p iHeight s
         in if rc1 = SQLITE_OK then
              (case ins pInsert p iHeight s1 of
                 (None, s2) \<Rightarrow> (None, s2)
               | (Some rc2, s2) \<Rightarrow>
                   (let (rc3, s3) = nodeRelease ops (Some pInsert) s2
                    in Reinsert_far ins ops iHeight aCell aOrder iis
                         (if rc2 = SQLITE_OK then rc3 else rc2) s3))
            else Reinsert_far ins ops iHeight aCell aOrder iis rc1 s1)
      else (Some rc, s))"

text \<open>
  \<open>Reinsert\<close>. The one allocation holds the four arrays; \<^verbatim>\<open>aOrder\<close> starts as
  \<open>0, 1, \<dots>, nCell-1\<close>.
\<close>

definition Reinsert ::
  "'w ins_fun \<Rightarrow> 'd c_float \<Rightarrow> ('v, 'w, 'd) rtree_ops \<Rightarrow> addr \<Rightarrow> RtreeCell \<Rightarrow> int
   \<Rightarrow> 'w rtree_state \<Rightarrow> 'w ins_result" where
  "Reinsert ins fl ops pNode pCell iHeight s =
     (let pRtree = rt s;
          nCell = NCELL (the (mem s pNode)) + 1
      in if \<not> malloc_ok ops (db s) then (Some SQLITE_NOMEM, s)
         else
           (let aCell = Reinsert_cells pRtree (the (mem s pNode)) pCell nCell;
                aDistance = map (Reinsert_distance fl pRtree aCell nCell) [0..<nat nCell];
                aOrder = SortByDistance fl [0..<nat nCell] aDistance;
                s1 = s\<lparr>mem := (mem s)(pNode \<mapsto> nodeZero pRtree (the (mem s pNode)))\<rparr>;
                nKeep = nat (nCell - (RTREE_MINCELLS pRtree + 1));
                (rc, s2) = Reinsert_keep ops pNode pCell iHeight aCell aOrder [0..<nKeep] SQLITE_OK s1;
                (rc, s3) = (if rc = SQLITE_OK then fixBoundingBox ops pNode s2 else (rc, s2))
            in Reinsert_far ins ops iHeight aCell aOrder [nKeep..<nat nCell] rc s3))"

text \<open>
  \<open>SplitNode\<close>: its two calls of \<open>rtreeInsertCell\<close> one level up, between the opaque
  stretches. \<open>SplitNode_assign\<close> is the code up to the assignment of the two node
  numbers (gathering the cells, the new nodes, \<^verbatim>\<open>AssignCells\<close>, \<^verbatim>\<open>nodeWrite\<close>),
  \<open>SplitNode_left\<close> the update of the left node's cell in its parent,
  \<open>SplitNode_mappings\<close> the \<^verbatim>\<open>updateMapping\<close> loops and the two releases, and
  \<open>SplitNode_out\<close> the code at the label \<^verbatim>\<open>splitnode_out\<close>.
\<close>

definition SplitNode ::
  "'w ins_fun \<Rightarrow> ('v, 'w, 'd) rtree_ops \<Rightarrow> addr \<Rightarrow> RtreeCell \<Rightarrow> int \<Rightarrow> 'w rtree_state \<Rightarrow> 'w ins_result" where
  "SplitNode ins ops pNode pCell iHeight s =
     (let (rc, sp, s1) = SplitNode_assign ops pNode pCell iHeight s
      in if rc \<noteq> SQLITE_OK then (Some rc, SplitNode_out ops sp s1)
         else
           (case (if iNode (the (mem s1 pNode)) = 1
                  then ins (the (pParent (the (mem s1 (the (pLeft sp)))))) (leftbbox sp) (iHeight + 1) s1
                  else (let (rc1, s2) = SplitNode_left ops sp s1 in (Some rc1, s2))) of
              (None, s2) \<Rightarrow> (None, s2)
            | (Some rc1, s2) \<Rightarrow>
                if rc1 \<noteq> SQLITE_OK then (Some rc1, SplitNode_out ops sp s2)
                else
                  (case ins (the (pParent (the (mem s2 (the (pRight sp)))))) (rightbbox sp)
                            (iHeight + 1) s2 of
                     (None, s3) \<Rightarrow> (None, s3)
                   | (Some rc2, s3) \<Rightarrow>
                       if rc2 \<noteq> SQLITE_OK then (Some rc2, SplitNode_out ops sp s3)
                       else
                         (let (rc3, sp', s4) = SplitNode_mappings ops pNode pCell iHeight sp s3
                          in (Some rc3, SplitNode_out ops sp' s4)))))"

text \<open>
  \<open>rtreeInsertCell\<close>, compiled with \<^verbatim>\<open>VARIANT_RSTARTREE_REINSERT\<close> set. The first
  argument bounds the depth of the recursion through \<open>Reinsert\<close> and \<open>SplitNode\<close>;
  at 0 the result is \<open>None\<close>.
\<close>

primrec rtreeInsertCell :: "nat \<Rightarrow> 'd c_float \<Rightarrow> ('v, 'w, 'd) rtree_ops \<Rightarrow> 'w ins_fun" where
  "rtreeInsertCell 0 fl ops = (\<lambda>pNode pCell iHeight s. (None, s))"
| "rtreeInsertCell (Suc n) fl ops = (\<lambda>pNode pCell iHeight s.
     (let s1 = (if iHeight > 0 then
                  (case nodeHashLookup (rt s) (mem s) (iRowid pCell) of
                     None \<Rightarrow> s
                   | Some pChild \<Rightarrow>
                       (let (rc0, sa) = nodeRelease ops (pParent (the (mem s pChild))) s;
                            sb = sa\<lparr>mem := nodeReference (mem sa) (Some pNode)\<rparr>
                        in sb\<lparr>mem := upd_node (mem sb) pChild (\<lambda>c. c\<lparr>pParent := Some pNode\<rparr>)\<rparr>))
                else s);
          (node', full) = nodeInsertCell (rt s1) (the (mem s1 pNode)) pCell;
          s2 = s1\<lparr>mem := (mem s1)(pNode \<mapsto> node')\<rparr>
      in if full \<noteq> 0 then
           (if iHeight \<le> iReinsertHeight (rt s2) \<or> iNode node' = 1 then
              SplitNode (rtreeInsertCell n fl ops) ops pNode pCell iHeight
                (s2\<lparr>trace := trace s2 @ [EvSplit iHeight (iNode node')]\<rparr>)
            else
              Reinsert (rtreeInsertCell n fl ops) fl ops pNode pCell iHeight
                (s2\<lparr>rt := (rt s2)\<lparr>iReinsertHeight := iHeight\<rparr>,
                    trace := trace s2 @ [EvReinsert iHeight (iNode node')]\<rparr>))
         else
           (let (rc, s3) = AdjustTree ops pNode pCell s2
            in if rc = SQLITE_OK then
                 (let (rc', w) = (if iHeight = 0
                                  then rowidWrite ops (iRowid pCell) (iNode (the (mem s3 pNode))) (db s3)
                                  else parentWrite ops (iRowid pCell) (iNode (the (mem s3 pNode))) (db s3))
                  in (Some rc', s3\<lparr>db := w\<rparr>))
               else (Some rc, s3))))"

section \<open>\<open>rtreeUpdate\<close>\<close>

definition rtreeReference :: "'w rtree_state \<Rightarrow> 'w rtree_state" where
  "rtreeReference s = s\<lparr>rt := (rt s)\<lparr>nBusy := nBusy (rt s) + 1\<rparr>\<rparr>"

definition rtreeRelease :: "('v, 'w, 'd) rtree_ops \<Rightarrow> 'w rtree_state \<Rightarrow> 'w rtree_state" where
  "rtreeRelease ops s =
     (let s1 = s\<lparr>rt := (rt s)\<lparr>nBusy := nBusy (rt s) - 1\<rparr>\<rparr>
      in if nBusy (rt s1) = 0 then finalize_all ops s1 else s1)"

text \<open>
  The loop that fills \<^verbatim>\<open>cell.aCoord\<close> from \<^verbatim>\<open>azData[3..]\<close>, for the values of \<open>ii\<close>
  still to come (\<open>0, 2, 4, \<dots>\<close>); \<open>None\<close> is \<^verbatim>\<open>goto constraint\<close>.
\<close>

text \<open>The rounding constants and the two conversions of an SQL value to a float.\<close>

definition RNDTOWARDS :: "'d c_float \<Rightarrow> 'd" where
  "RNDTOWARDS fl = d_sub fl (d_of_int fl 1) (d_div fl (d_of_int fl 1) (d_of_int fl 8388608))"

definition RNDAWAY :: "'d c_float \<Rightarrow> 'd" where
  "RNDAWAY fl = d_add fl (d_of_int fl 1) (d_div fl (d_of_int fl 1) (d_of_int fl 8388608))"

definition rtreeValueDown :: "'d c_float \<Rightarrow> ('v, 'w, 'd) rtree_ops \<Rightarrow> 'v \<Rightarrow> RtreeCoord" where
  "rtreeValueDown fl ops v =
     (let d = value_double ops v;
          f = f_of_d fl d
      in if d_lt fl d (d_of_float fl f)
         then f_of_d fl (d_mul fl d (if d_lt fl d (d_of_int fl 0) then RNDAWAY fl else RNDTOWARDS fl))
         else f)"

definition rtreeValueUp :: "'d c_float \<Rightarrow> ('v, 'w, 'd) rtree_ops \<Rightarrow> 'v \<Rightarrow> RtreeCoord" where
  "rtreeValueUp fl ops v =
     (let d = value_double ops v;
          f = f_of_d fl d
      in if d_lt fl (d_of_float fl f) d
         then f_of_d fl (d_mul fl d (if d_lt fl d (d_of_int fl 0) then RNDTOWARDS fl else RNDAWAY fl))
         else f)"

fun rtreeUpdate_coords ::
  "'d c_float \<Rightarrow> ('v, 'w, 'd) rtree_ops \<Rightarrow> Rtree \<Rightarrow> 'v list \<Rightarrow> nat list \<Rightarrow> RtreeCoord list
   \<Rightarrow> RtreeCoord list option" where
  "rtreeUpdate_coords fl ops pRtree azData [] cs = Some cs"
| "rtreeUpdate_coords fl ops pRtree azData (ii # iis) cs =
     (if eCoordType pRtree = RTREE_COORD_REAL32 then
        (let lo = rtreeValueDown fl ops (azData ! (ii + 3));
             hi = rtreeValueUp fl ops (azData ! (ii + 4))
         in if f_lt fl hi lo then None
            else rtreeUpdate_coords fl ops pRtree azData iis (cs @ [lo, hi]))
      else
        (let lo = value_int ops (azData ! (ii + 3));
             hi = value_int ops (azData ! (ii + 4))
         in if sint lo > sint hi then None
            else rtreeUpdate_coords fl ops pRtree azData iis (cs @ [lo, hi])))"

text \<open>
  The last block of \<open>rtreeUpdate\<close>: the insertion of the new record. The second
  component of the result is the value stored in \<^verbatim>\<open>*pRowid\<close>.
\<close>

definition rtreeUpdate_insert ::
  "'w ins_fun \<Rightarrow> ('v, 'w, 'd) rtree_ops \<Rightarrow> RtreeCell \<Rightarrow> bool \<Rightarrow> 'w rtree_state
   \<Rightarrow> int option \<times> i64 option \<times> 'w rtree_state" where
  "rtreeUpdate_insert ins ops cell bHaveRowid s =
     (let (rc, cell1, s1) =
            (if \<not> bHaveRowid
             then (let (r, rowid, s') = newRowid ops s in (r, cell\<lparr>iRowid := rowid\<rparr>, s'))
             else (SQLITE_OK, cell, s));
          pRowid = Some (iRowid cell1)
      in if rc = SQLITE_OK then
           (let (rc1, pLeaf, s2) = ChooseLeaf ops cell1 0 s1
            in if rc1 = SQLITE_OK then
                 (case ins pLeaf cell1 0 (s2\<lparr>rt := (rt s2)\<lparr>iReinsertHeight := - 1\<rparr>\<rparr>) of
                    (None, s3) \<Rightarrow> (None, pRowid, s3)
                  | (Some rc2, s3) \<Rightarrow>
                      (let (rc3, s4) = nodeRelease ops (Some pLeaf) s3
                       in (Some (if rc2 = SQLITE_OK then rc3 else rc2), pRowid, s4)))
               else (Some rc1, pRowid, s2))
         else (Some rc, pRowid, s1))"

text \<open>
  \<open>rtreeUpdate\<close>. \<^verbatim>\<open>nData\<close> is the length of \<^verbatim>\<open>azData\<close>. The constraint handling
  ends either at the label \<^verbatim>\<open>constraint\<close> (\<open>Inl\<close>) or with the return code so far, the
  cell and \<^verbatim>\<open>bHaveRowid\<close>.
\<close>

definition rtreeUpdate_constraints ::
  "'d c_float \<Rightarrow> ('v, 'w, 'd) rtree_ops \<Rightarrow> 'v list \<Rightarrow> 'w rtree_state
   \<Rightarrow> int + (int \<times> RtreeCell \<times> bool \<times> 'w rtree_state)" where
  "rtreeUpdate_constraints fl ops azData s =
     (if int (length azData) > 1 then
        (case rtreeUpdate_coords fl ops (rt s) azData
                (map (\<lambda>k. 2 * k) [0..<nat (nDim (rt s))]) [] of
           None \<Rightarrow> Inl SQLITE_CONSTRAINT
         | Some cs \<Rightarrow>
             (if \<not> value_is_null ops (azData ! 2) then
                (let cell = \<lparr>iRowid = value_int64 ops (azData ! 2), aCoord = cs\<rparr>
                 in if value_is_null ops (azData ! 0)
                       \<or> value_int64 ops (azData ! 0) \<noteq> iRowid cell then
                      (let (steprc, rc) = readRowid ops (iRowid cell) (db s)
                       in if steprc = SQLITE_ROW then
                            (if vtab_on_conflict ops (db s) = SQLITE_REPLACE then
                               (let (rc', s') = rtreeDeleteRowid ops (iRowid cell) s
                                in Inr (rc', cell, True, s'))
                             else Inl SQLITE_CONSTRAINT)
                          else Inr (rc, cell, True, s))
                    else Inr (SQLITE_OK, cell, True, s))
              else Inr (SQLITE_OK, \<lparr>iRowid = 0, aCoord = cs\<rparr>, False, s)))
      else Inr (SQLITE_OK, \<lparr>iRowid = 0, aCoord = []\<rparr>, False, s))"

text \<open>
  What follows the constraint handling: the deletion of the old row when \<^verbatim>\<open>azData[0]\<close>
  is not NULL, the insertion of the new record, and \<^verbatim>\<open>rtreeRelease\<close>.
\<close>

definition rtreeUpdate_rest ::
  "'w ins_fun \<Rightarrow> ('v, 'w, 'd) rtree_ops \<Rightarrow> 'v list \<Rightarrow> int \<Rightarrow> RtreeCell \<Rightarrow> bool \<Rightarrow> 'w rtree_state
   \<Rightarrow> int option \<times> i64 option \<times> 'w rtree_state" where
  "rtreeUpdate_rest ins ops azData rc cell bHaveRowid s1 =
     (let (rc1, s2) =
            (if \<not> value_is_null ops (azData ! 0)
             then rtreeDeleteRowid ops (value_int64 ops (azData ! 0)) s1
             else (rc, s1))
      in if rc1 = SQLITE_OK \<and> int (length azData) > 1 then
           (case rtreeUpdate_insert ins ops cell bHaveRowid s2 of
              (None, pRowid, s3) \<Rightarrow> (None, pRowid, s3)
            | (Some rc2, pRowid, s3) \<Rightarrow> (Some rc2, pRowid, rtreeRelease ops s3))
         else (Some rc1, None, rtreeRelease ops s2))"

definition rtreeUpdate ::
  "'w ins_fun \<Rightarrow> 'd c_float \<Rightarrow> ('v, 'w, 'd) rtree_ops \<Rightarrow> 'v list \<Rightarrow> 'w rtree_state
   \<Rightarrow> int option \<times> i64 option \<times> 'w rtree_state" where
  "rtreeUpdate ins fl ops azData s0 =
     (case rtreeUpdate_constraints fl ops azData (rtreeReference s0) of
        Inl rc \<Rightarrow> (Some rc, None, rtreeRelease ops (rtreeReference s0))
      | Inr (rc, cell, bHaveRowid, s1) \<Rightarrow> rtreeUpdate_rest ins ops azData rc cell bHaveRowid s1)"

text \<open>
  A stand-in host for concrete runs. An SQL value is \<open>None\<close> (NULL) or an integer; the
  host keeps the three backing tables, the conflict policy, and the cells handed to
  \<open>ChooseLeaf\<close>, oldest first. Its tree operations are the simplest that answer:
  \<open>ChooseLeaf\<close> always picks the node at address 0, \<open>rtreeDeleteRowid\<close> removes the
  row of the \<open>_rowid\<close> table, the splitting code fails at its first allocation, and
  the others succeed and change nothing.
\<close>

record test_db =
  tab_node :: "(i64 \<times> u8 list) list"
  tab_rowid :: "(i64 \<times> i64) list"
  tab_parent :: "(i64 \<times> i64) list"
  policy :: int
  chosen :: "RtreeCell list"

definition test_ops :: "(i64 option, test_db, real) rtree_ops" where
  "test_ops =
     \<lparr>value_is_null = (\<lambda>v. v = None),
      value_int64 = (\<lambda>v. case v of None \<Rightarrow> 0 | Some n \<Rightarrow> n),
      value_int = (\<lambda>v. case v of None \<Rightarrow> 0 | Some n \<Rightarrow> ucast n),
      value_double = (\<lambda>v. case v of None \<Rightarrow> 0 | Some n \<Rightarrow> real_of_int (sint n)),
      vtab_on_conflict = policy,
      malloc_ok = (\<lambda>w. True),
      readRowid = (\<lambda>r w. (if r \<in> set (map fst (tab_rowid w)) then SQLITE_ROW else 101, SQLITE_OK)),
      rowidWrite = (\<lambda>r n w. (SQLITE_OK, w\<lparr>tab_rowid := (r, n) # filter (\<lambda>e. fst e \<noteq> r) (tab_rowid w)\<rparr>)),
      parentWrite = (\<lambda>r n w. (SQLITE_OK, w\<lparr>tab_parent := (r, n) # filter (\<lambda>e. fst e \<noteq> r) (tab_parent w)\<rparr>)),
      finalize_all = (\<lambda>s. s),
      rtreeDeleteRowid =
        (\<lambda>r s. (SQLITE_OK, s\<lparr>db := (db s)\<lparr>tab_rowid := filter (\<lambda>e. fst e \<noteq> r) (tab_rowid (db s))\<rparr>\<rparr>)),
      newRowid = (\<lambda>s. (SQLITE_OK, 1 + foldr max (map fst (tab_rowid (db s))) 0, s)),
      ChooseLeaf = (\<lambda>c h s. (SQLITE_OK, 0, s\<lparr>db := (db s)\<lparr>chosen := chosen (db s) @ [c]\<rparr>\<rparr>)),
      nodeRelease = (\<lambda>p s. (SQLITE_OK, s)),
      AdjustTree = (\<lambda>p c s. (SQLITE_OK, s)),
      fixBoundingBox = (\<lambda>p s. (SQLITE_OK, s)),
      SplitNode_assign =
        (\<lambda>p c h s. (SQLITE_NOMEM, \<lparr>pLeft = None, pRight = None, leftbbox = c, rightbbox = c\<rparr>, s)),
      SplitNode_left = (\<lambda>sp s. (SQLITE_OK, s)),
      SplitNode_mappings = (\<lambda>p c h sp s. (SQLITE_OK, sp, s)),
      SplitNode_out = (\<lambda>sp s. s)\<rparr>"

text \<open>
  The small integer tree with an empty root (at address 0), row 10 present in the
  \<open>_rowid\<close> table, and the conflict policy ABORT (2).
\<close>

definition test_state :: "test_db rtree_state" where
  "test_state =
     \<lparr>rt = rt_small, mem = [0 \<mapsto> node_blank],
      db = \<lparr>tab_node = [(1, replicate 36 0)], tab_rowid = [(10, 1)], tab_parent = [],
            policy = 2, chosen = []\<rparr>,
      trace = []\<rparr>"


section \<open>\<open>rtreeUpdate\<close>: the constraint handling\<close>

text \<open>
  The coordinates of the new record as \<open>rtreeUpdate\<close> stores them, for dimension \<open>k\<close>:
  on a \<^verbatim>\<open>REAL32\<close> tree the minimum rounded down and the maximum rounded up to a float,
  on an integer tree both read by \<^verbatim>\<open>sqlite3_value_int\<close>. \<open>coord_less\<close> is the comparison
  the loop applies to the stored pair (on floats, or on signed integers), and
  \<open>bad_range\<close> says that some dimension has its stored maximum below its stored minimum.
\<close>

definition record_lo ::
  "'d c_float \<Rightarrow> ('v, 'w, 'd) rtree_ops \<Rightarrow> Rtree \<Rightarrow> 'v list \<Rightarrow> nat \<Rightarrow> RtreeCoord" where
  "record_lo fl ops pRtree azData k =
     (if eCoordType pRtree = RTREE_COORD_REAL32 then rtreeValueDown fl ops (azData ! (2 * k + 3))
      else value_int ops (azData ! (2 * k + 3)))"

definition record_hi ::
  "'d c_float \<Rightarrow> ('v, 'w, 'd) rtree_ops \<Rightarrow> Rtree \<Rightarrow> 'v list \<Rightarrow> nat \<Rightarrow> RtreeCoord" where
  "record_hi fl ops pRtree azData k =
     (if eCoordType pRtree = RTREE_COORD_REAL32 then rtreeValueUp fl ops (azData ! (2 * k + 4))
      else value_int ops (azData ! (2 * k + 4)))"

definition coord_less :: "'d c_float \<Rightarrow> Rtree \<Rightarrow> RtreeCoord \<Rightarrow> RtreeCoord \<Rightarrow> bool" where
  "coord_less fl pRtree a b =
     (if eCoordType pRtree = RTREE_COORD_REAL32 then f_lt fl a b else sint a < sint b)"

definition bad_range :: "'d c_float \<Rightarrow> ('v, 'w, 'd) rtree_ops \<Rightarrow> Rtree \<Rightarrow> 'v list \<Rightarrow> bool" where
  "bad_range fl ops pRtree azData \<longleftrightarrow>
     (\<exists>k < nat (nDim pRtree).
        coord_less fl pRtree (record_hi fl ops pRtree azData k) (record_lo fl ops pRtree azData k))"

text \<open>The coordinates of the record, all pairs in order.\<close>

definition record_coords :: "'d c_float \<Rightarrow> ('v, 'w, 'd) rtree_ops \<Rightarrow> Rtree \<Rightarrow> 'v list \<Rightarrow> RtreeCoord list" where
  "record_coords fl ops pRtree azData =
     concat (map (\<lambda>k. [record_lo fl ops pRtree azData k, record_hi fl ops pRtree azData k])
                 [0..<nat (nDim pRtree)])"

lemma rtreeUpdate_coords_Cons:
  "rtreeUpdate_coords fl ops pRtree azData (2 * k # iis) cs =
     (if coord_less fl pRtree (record_hi fl ops pRtree azData k) (record_lo fl ops pRtree azData k)
      then None
      else rtreeUpdate_coords fl ops pRtree azData iis
             (cs @ [record_lo fl ops pRtree azData k, record_hi fl ops pRtree azData k]))"
  by (simp add: coord_less_def record_lo_def record_hi_def Let_def)

lemma rtreeUpdate_coords_None_iff:
  "rtreeUpdate_coords fl ops pRtree azData (map (\<lambda>k. 2 * k) ks) cs = None
   \<longleftrightarrow> (\<exists>k \<in> set ks.
          coord_less fl pRtree (record_hi fl ops pRtree azData k) (record_lo fl ops pRtree azData k))"
proof (induction ks arbitrary: cs)
  case Nil
  then show ?case by simp
next
  case (Cons k ks)
  show ?case
  proof (cases "coord_less fl pRtree (record_hi fl ops pRtree azData k) (record_lo fl ops pRtree azData k)")
    case True
    then show ?thesis
      by (simp only: list.map rtreeUpdate_coords_Cons if_True) simp
  next
    case False
    then show ?thesis
      by (simp only: list.map rtreeUpdate_coords_Cons if_False
            Cons.IH [of "cs @ [record_lo fl ops pRtree azData k, record_hi fl ops pRtree azData k]"])
         simp
  qed
qed

lemma rtreeUpdate_coords_bad_range:
  "rtreeUpdate_coords fl ops pRtree azData (map (\<lambda>k. 2 * k) [0..<nat (nDim pRtree)]) [] = None
   \<longleftrightarrow> bad_range fl ops pRtree azData"
  by (simp add: rtreeUpdate_coords_None_iff bad_range_def Bex_def)

lemma rtreeUpdate_coords_Some:
  "\<not> (\<exists>k \<in> set ks.
          coord_less fl pRtree (record_hi fl ops pRtree azData k) (record_lo fl ops pRtree azData k)) \<Longrightarrow>
   rtreeUpdate_coords fl ops pRtree azData (map (\<lambda>k. 2 * k) ks) cs
     = Some (cs @ concat (map (\<lambda>k. [record_lo fl ops pRtree azData k, record_hi fl ops pRtree azData k]) ks))"
proof (induction ks arbitrary: cs)
  case Nil
  then show ?case by simp
next
  case (Cons k ks)
  from Cons.prems have a: "\<not> coord_less fl pRtree (record_hi fl ops pRtree azData k) (record_lo fl ops pRtree azData k)"
    and b: "\<not> (\<exists>k \<in> set ks.
          coord_less fl pRtree (record_hi fl ops pRtree azData k) (record_lo fl ops pRtree azData k))"
    by simp_all
  show ?case
    by (simp only: list.map rtreeUpdate_coords_Cons a if_False Cons.IH [OF b]) simp
qed

lemma rtreeRelease_rtreeReference:
  "nBusy (rt s) \<noteq> 0 \<Longrightarrow> rtreeRelease ops (rtreeReference s) = s"
  by (simp add: rtreeRelease_def rtreeReference_def Let_def)

lemma rt_rtreeReference [simp]:
  "nDim (rt (rtreeReference s)) = nDim (rt s)"
  "eCoordType (rt (rtreeReference s)) = eCoordType (rt s)"
  "db (rtreeReference s) = db s"
  by (simp_all add: rtreeReference_def)

lemma bad_range_rtreeReference [simp]:
  "bad_range fl ops (rt (rtreeReference s)) azData = bad_range fl ops (rt s) azData"
  by (simp add: bad_range_def coord_less_def record_lo_def record_hi_def)

lemma rtreeUpdate_coords_good:
  "\<not> bad_range fl ops (rt s) azData \<Longrightarrow>
   rtreeUpdate_coords fl ops (rt (rtreeReference s)) azData
       (map (\<lambda>k. 2 * k) [0..<nat (nDim (rt (rtreeReference s)))]) []
     = Some (record_coords fl ops (rt s) azData)"
proof -
  assume "\<not> bad_range fl ops (rt s) azData"
  then have n: "\<not> (\<exists>k \<in> set [0..<nat (nDim (rt (rtreeReference s)))].
          coord_less fl (rt (rtreeReference s)) (record_hi fl ops (rt (rtreeReference s)) azData k)
             (record_lo fl ops (rt (rtreeReference s)) azData k))"
    by (simp add: bad_range_def coord_less_def record_lo_def record_hi_def)
  show ?thesis
    unfolding rtreeUpdate_coords_Some [OF n]
    by (simp add: record_coords_def record_lo_def record_hi_def rtreeReference_def)
qed

lemma rtreeUpdate_coords_bad:
  "bad_range fl ops (rt s) azData \<Longrightarrow>
   rtreeUpdate_coords fl ops (rt (rtreeReference s)) azData
       (map (\<lambda>k. 2 * k) [0..<nat (nDim (rt (rtreeReference s)))]) [] = None"
  by (simp only: rtreeUpdate_coords_bad_range bad_range_rtreeReference)

text \<open>
  \<open>rtreeUpdate\<close> on a record with an explicit rowid that is not the rowid of the row
  being replaced: the lookup in the \<open>_rowid\<close> table decides.
\<close>

lemma rtreeUpdate_new_rowid:
  assumes "1 < length azData"
    and "\<not> bad_range fl ops (rt s) azData"
    and "\<not> value_is_null ops (azData ! 2)"
    and "value_is_null ops (azData ! 0) \<or> value_int64 ops (azData ! 0) \<noteq> value_int64 ops (azData ! 2)"
  shows "rtreeUpdate ins fl ops azData s =
           (let cell = \<lparr>iRowid = value_int64 ops (azData ! 2), aCoord = record_coords fl ops (rt s) azData\<rparr>;
                (steprc, rc) = readRowid ops (iRowid cell) (db s)
            in if steprc = SQLITE_ROW then
                 (if vtab_on_conflict ops (db s) = SQLITE_REPLACE then
                    (let (rc', s') = rtreeDeleteRowid ops (iRowid cell) (rtreeReference s)
                     in rtreeUpdate_rest ins ops azData rc' cell True s')
                  else (Some SQLITE_CONSTRAINT, None, rtreeRelease ops (rtreeReference s)))
               else rtreeUpdate_rest ins ops azData rc cell True (rtreeReference s))"
  unfolding rtreeUpdate_def rtreeUpdate_constraints_def rtreeUpdate_coords_good [OF assms(2)]
  using assms(1,3,4) by (auto simp add: Let_def split: prod.splits)

text \<open>The stand-in host, field by field.\<close>

lemma test_ops_simps:
  "value_is_null test_ops v = (v = None)"
  "value_int64 test_ops v = (case v of None \<Rightarrow> 0 | Some n \<Rightarrow> n)"
  "value_int test_ops v = (case v of None \<Rightarrow> 0 | Some n \<Rightarrow> ucast n)"
  "value_double test_ops v = (case v of None \<Rightarrow> 0 | Some n \<Rightarrow> real_of_int (sint n))"
  "vtab_on_conflict test_ops w = policy w"
  "malloc_ok test_ops w = True"
  "readRowid test_ops r w = (if r \<in> set (map fst (tab_rowid w)) then SQLITE_ROW else 101, SQLITE_OK)"
  "rowidWrite test_ops r n w
     = (SQLITE_OK, w\<lparr>tab_rowid := (r, n) # filter (\<lambda>e. fst e \<noteq> r) (tab_rowid w)\<rparr>)"
  "parentWrite test_ops r n w
     = (SQLITE_OK, w\<lparr>tab_parent := (r, n) # filter (\<lambda>e. fst e \<noteq> r) (tab_parent w)\<rparr>)"
  "finalize_all test_ops st = st"
  "rtreeDeleteRowid test_ops r st
     = (SQLITE_OK, st\<lparr>db := (db st)\<lparr>tab_rowid := filter (\<lambda>e. fst e \<noteq> r) (tab_rowid (db st))\<rparr>\<rparr>)"
  "newRowid test_ops st = (SQLITE_OK, 1 + foldr max (map fst (tab_rowid (db st))) 0, st)"
  "ChooseLeaf test_ops c h st = (SQLITE_OK, 0, st\<lparr>db := (db st)\<lparr>chosen := chosen (db st) @ [c]\<rparr>\<rparr>)"
  "nodeRelease test_ops p st = (SQLITE_OK, st)"
  "AdjustTree test_ops a c st = (SQLITE_OK, st)"
  "fixBoundingBox test_ops a st = (SQLITE_OK, st)"
  "SplitNode_assign test_ops a c h st
     = (SQLITE_NOMEM, \<lparr>pLeft = None, pRight = None, leftbbox = c, rightbbox = c\<rparr>, st)"
  "SplitNode_left test_ops sp st = (SQLITE_OK, st)"
  "SplitNode_mappings test_ops a c h sp st = (SQLITE_OK, sp, st)"
  "SplitNode_out test_ops sp st = st"
  by (simp_all add: test_ops_def)

lemma nodeInsertCell_iReinsertHeight [simp]:
  "nodeInsertCell (r\<lparr>iReinsertHeight := h\<rparr>) node cell = nodeInsertCell r node cell"
  by (simp add: nodeInsertCell_def nodeOverwriteCell_def Let_def)

text \<open>An insertion into a leaf with room, on the stand-in host.\<close>

lemma rtreeInsertCell_test_room:
  assumes "mem st 0 = Some node" and "snd (nodeInsertCell (rt st) node cell) = 0"
  shows "rtreeInsertCell (Suc n) fl test_ops 0 cell 0 st =
           (Some SQLITE_OK,
            st\<lparr>mem := (mem st)(0 \<mapsto> fst (nodeInsertCell (rt st) node cell)),
               db := (db st)\<lparr>tab_rowid := (iRowid cell, iNode (fst (nodeInsertCell (rt st) node cell)))
                                      # filter (\<lambda>e. fst e \<noteq> iRowid cell) (tab_rowid (db st))\<rparr>\<rparr>)"
  using assms by (simp add: test_ops_simps Let_def case_prod_beta SQLITE_OK_def)

lemma rtreeUpdate_rest_test_room:
  assumes "1 < length azData"
    and "mem st 0 = Some node" and "snd (nodeInsertCell (rt st) node cell) = 0"
    and "nBusy (rt st) \<noteq> 1"
  shows "rtreeUpdate_rest (rtreeInsertCell (Suc n) fl test_ops) test_ops azData SQLITE_OK cell True st =
           (Some SQLITE_OK, Some (iRowid cell),
            st\<lparr>rt := (rt st)\<lparr>iReinsertHeight := - 1, nBusy := nBusy (rt st) - 1\<rparr>,
               mem := (mem st)(0 \<mapsto> fst (nodeInsertCell (rt st) node cell)),
               db := (db st)\<lparr>chosen := chosen (db st) @ [cell],
                            tab_rowid := (iRowid cell, iNode (fst (nodeInsertCell (rt st) node cell)))
                                      # filter (\<lambda>e. fst e \<noteq> iRowid cell)
                                          (case azData ! 0 of None \<Rightarrow> tab_rowid (db st)
                                           | Some r \<Rightarrow> filter (\<lambda>e. fst e \<noteq> r) (tab_rowid (db st)))\<rparr>\<rparr>)"
proof -
  show ?thesis
    using assms
    by (cases "azData ! 0")
       (simp_all add: rtreeUpdate_rest_def rtreeUpdate_insert_def test_ops_simps
        rtreeInsertCell_test_room [where node = node] rtreeRelease_def Let_def SQLITE_OK_def
        del: rtreeInsertCell.simps)
qed


section \<open>Claim C4: a record with a maximum below its minimum\<close>

text \<open>
  C4 as stated fails on a \<^verbatim>\<open>REAL32\<close> table. \<open>rtreeUpdate\<close> does not compare the supplied
  numbers: it compares the floats it is about to store, the minimum rounded down and
  the maximum rounded up. The record \<open>(11, 33554433, 33554432)\<close> has its maximum below
  its minimum; \<open>2\<^sup>2\<^sup>5 + 1\<close> is not a float and rounds down to \<open>2\<^sup>2\<^sup>5\<close>, so the stored
  pair is \<open>(2\<^sup>2\<^sup>5, 2\<^sup>2\<^sup>5)\<close>, the call returns \<^verbatim>\<open>SQLITE_OK\<close> and the row is in the
  \<open>_rowid\<close> table afterwards.
\<close>

definition test_state_f :: "test_db rtree_state" where
  "test_state_f = test_state\<lparr>rt := rt_small\<lparr>eCoordType := RTREE_COORD_REAL32\<rparr>\<rparr>"

definition az_close :: "i64 option list" where
  "az_close = [None, None, Some 11, Some 33554433, Some 33554432]"

lemma float_of_real_samples:
  "float_of_real 33554433 = 0x4C000000" "float_of_real 33554432 = 0x4C000000"
  by (simp_all add: float_of_real_def float_norm.simps round_even_def Let_def)

lemma float32_value_sample: "float32_value 0x4C000000 = 33554432"
  by (simp add: float32_value_def Let_def)

lemma record_close:
  "record_lo exact_fl test_ops (rt test_state_f) az_close 0 = 0x4C000000"
  "record_hi exact_fl test_ops (rt test_state_f) az_close 0 = 0x4C000000"
  by (simp_all add: record_lo_def record_hi_def test_state_f_def test_state_def az_close_def
      rtreeValueDown_def rtreeValueUp_def test_ops_def exact_fl_def float_of_real_samples
      float32_value_sample Let_def)

theorem rtreeUpdate_bad_range_counterexample:
  "eCoordType (rt test_state_f) = RTREE_COORD_REAL32
   \<and> value_double test_ops (az_close ! 4) < value_double test_ops (az_close ! 3)
   \<and> fst (rtreeUpdate (rtreeInsertCell (Suc 0) exact_fl test_ops) exact_fl test_ops az_close test_state_f)
       = Some SQLITE_OK
   \<and> tab_rowid (db (snd (snd (rtreeUpdate (rtreeInsertCell (Suc 0) exact_fl test_ops) exact_fl test_ops
                                  az_close test_state_f))))
       = [(11, 1), (10, 1)]"
proof -
  have d1: "nDim (rt test_state_f) = 1"
    by (simp add: test_state_f_def test_state_def rt_small_def)
  have cl: "\<not> coord_less exact_fl (rt test_state_f) 0x4C000000 0x4C000000"
    by (simp add: coord_less_def exact_fl_def)
  have n: "\<not> bad_range exact_fl test_ops (rt test_state_f) az_close"
    unfolding bad_range_def d1 by (simp add: record_close cl)
  have c: "record_coords exact_fl test_ops (rt test_state_f) az_close = [0x4C000000, 0x4C000000]"
    unfolding record_coords_def d1 by (simp add: record_close)
  have l: "1 < length az_close" by (simp add: az_close_def)
  have v: "\<not> value_is_null test_ops (az_close ! 2)"
    "value_is_null test_ops (az_close ! 0) \<or> value_int64 test_ops (az_close ! 0) \<noteq> value_int64 test_ops (az_close ! 2)"
    by (simp_all add: az_close_def test_ops_simps)
  have u: "rtreeUpdate (rtreeInsertCell (Suc 0) exact_fl test_ops) exact_fl test_ops az_close test_state_f
           = rtreeUpdate_rest (rtreeInsertCell (Suc 0) exact_fl test_ops) test_ops az_close SQLITE_OK
               \<lparr>iRowid = 11, aCoord = [0x4C000000, 0x4C000000]\<rparr> True (rtreeReference test_state_f)"
    unfolding rtreeUpdate_new_rowid [OF l n v] c
    by (simp add: test_ops_simps az_close_def test_state_f_def test_state_def SQLITE_ROW_def
        del: rtreeInsertCell.simps)
  have m: "mem (rtreeReference test_state_f) 0 = Some node_blank"
    by (simp add: rtreeReference_def test_state_f_def test_state_def)
  have f: "snd (nodeInsertCell (rt (rtreeReference test_state_f)) node_blank
                 \<lparr>iRowid = 11, aCoord = [0x4C000000, 0x4C000000]\<rparr>) = 0"
    by (simp add: nodeInsertCell_def rtreeReference_def test_state_f_def test_state_def
        rt_small_def node_blank_def NCELL_def readInt16_def c_div_def Let_def)
  have b: "nBusy (rt (rtreeReference test_state_f)) \<noteq> 1"
    by (simp add: rtreeReference_def test_state_f_def test_state_def rt_small_def)
  have z: "az_close ! 0 = None" by (simp add: az_close_def)
  have e: "eCoordType (rt test_state_f) = RTREE_COORD_REAL32"
    by (simp add: test_state_f_def)
  have w: "value_double test_ops (az_close ! 4) < value_double test_ops (az_close ! 3)"
    by (simp add: az_close_def test_ops_simps)
  have i: "iNode (fst (nodeInsertCell (rt (rtreeReference test_state_f)) node_blank
                 \<lparr>iRowid = 11, aCoord = [0x4C000000, 0x4C000000]\<rparr>)) = 1"
    by (simp add: nodeInsertCell_def nodeOverwriteCell_def node_blank_def Let_def)
  show ?thesis
    unfolding u rtreeUpdate_rest_test_room [OF l m f b]
    using e w by (simp add: i z) (simp add: rtreeReference_def test_state_f_def test_state_def)
qed

text \<open>
  C4, amended. For every call of \<open>rtreeUpdate\<close> that supplies a new record
  (\<^verbatim>\<open>nData > 1\<close>): if, after conversion to the coordinate type of the table (on a float
  table each minimum rounded down by \<open>rtreeValueDown\<close> and each maximum rounded up by
  \<open>rtreeValueUp\<close> to a 32-bit float), some coordinate pair has its maximum below its
  minimum, the call returns
  \<^verbatim>\<open>SQLITE_CONSTRAINT\<close> and leaves the whole state as it was: the three backing tables,
  the node cache and the \<^verbatim>\<open>Rtree\<close> object. The table is in use (\<^verbatim>\<open>nBusy\<close> is not 0, as it
  is from \<^verbatim>\<open>rtreeInit\<close> until the last disconnect), so that the release at the end of the
  call is not the last one.
\<close>

theorem rtreeUpdate_bad_range:
  assumes "1 < length azData"
    and "bad_range fl ops (rt s) azData"
    and "nBusy (rt s) \<noteq> 0"
  shows "rtreeUpdate ins fl ops azData s = (Some SQLITE_CONSTRAINT, None, s)"
proof -
  have c: "rtreeUpdate_coords fl ops (rt (rtreeReference s)) azData
             (map (\<lambda>k. 2 * k) [0..<nat (nDim (rt (rtreeReference s)))]) [] = None"
    using assms(2) by (simp only: rtreeUpdate_coords_bad_range bad_range_rtreeReference)
  have "rtreeUpdate_constraints fl ops azData (rtreeReference s) = Inl SQLITE_CONSTRAINT"
    unfolding rtreeUpdate_constraints_def c using assms(1) by simp
  then show ?thesis
    using assms(3) by (simp add: rtreeUpdate_def rtreeRelease_rtreeReference)
qed

definition az_bad :: "i64 option list" where
  "az_bad = [None, None, Some 11, Some 3, Some 1]"

definition ins_ok :: "test_db ins_fun" where
  "ins_ok = (\<lambda>pNode pCell iHeight s. (Some SQLITE_OK, s))"

theorem rtreeUpdate_bad_range_witness:
  "1 < length az_bad
   \<and> bad_range exact_fl test_ops (rt test_state) az_bad
   \<and> nBusy (rt test_state) \<noteq> 0
   \<and> rtreeUpdate ins_ok exact_fl test_ops az_bad test_state = (Some SQLITE_CONSTRAINT, None, test_state)
   \<and> tab_rowid (db (snd (snd (rtreeUpdate ins_ok exact_fl test_ops az_bad test_state)))) = [(10, 1)]"
proof -
  have h1: "1 < length az_bad" by (simp add: az_bad_def)
  have h2: "bad_range exact_fl test_ops (rt test_state) az_bad"
    by (simp add: bad_range_def coord_less_def record_lo_def record_hi_def test_state_def
        rt_small_def RTREE_COORD_REAL32_def az_bad_def test_ops_def)
  have h3: "nBusy (rt test_state) \<noteq> 0" by (simp add: test_state_def rt_small_def)
  show ?thesis
    using h1 h2 h3 rtreeUpdate_bad_range [OF h1 h2 h3, of ins_ok]
    by (simp add: test_state_def)
qed


section \<open>Claim C9: an update that keeps its rowid\<close>

text \<open>
  C9. When \<^verbatim>\<open>azData[0]\<close> is not NULL and equals the new rowid \<^verbatim>\<open>azData[2]\<close>, the existence
  check is skipped: \<open>rtreeUpdate\<close> goes from the coordinate check straight to the
  deletion of the old row and the insertion (\<open>rtreeUpdate_rest\<close>) with the return code
  \<^verbatim>\<open>SQLITE_OK\<close>, and \<^verbatim>\<open>SQLITE_CONSTRAINT\<close> can only come from the coordinate check. The
  result does not depend on what the lookup in the \<open>_rowid\<close> table or
  \<^verbatim>\<open>sqlite3_vtab_on_conflict\<close> would answer: replacing both by anything else gives the same
  result.
\<close>

theorem rtreeUpdate_same_rowid:
  assumes "1 < length azData"
    and "\<not> value_is_null ops (azData ! 0)"
    and "\<not> value_is_null ops (azData ! 2)"
    and "value_int64 ops (azData ! 0) = value_int64 ops (azData ! 2)"
  shows "rtreeUpdate ins fl ops azData s =
           (if bad_range fl ops (rt s) azData
            then (Some SQLITE_CONSTRAINT, None, rtreeRelease ops (rtreeReference s))
            else rtreeUpdate_rest ins ops azData SQLITE_OK
                   \<lparr>iRowid = value_int64 ops (azData ! 2), aCoord = record_coords fl ops (rt s) azData\<rparr>
                   True (rtreeReference s))
         \<and> rtreeUpdate ins fl (ops\<lparr>readRowid := rd, vtab_on_conflict := oc\<rparr>) azData s
             = rtreeUpdate ins fl ops azData s"
proof -
  have a: "rtreeUpdate ins fl ops azData s =
           (if bad_range fl ops (rt s) azData
            then (Some SQLITE_CONSTRAINT, None, rtreeRelease ops (rtreeReference s))
            else rtreeUpdate_rest ins ops azData SQLITE_OK
                   \<lparr>iRowid = value_int64 ops (azData ! 2), aCoord = record_coords fl ops (rt s) azData\<rparr>
                   True (rtreeReference s))"
    if "1 < length azData"
      and "\<not> value_is_null ops (azData ! 0)"
      and "\<not> value_is_null ops (azData ! 2)"
      and "value_int64 ops (azData ! 0) = value_int64 ops (azData ! 2)"
    for ops :: "('a, 'b, 'c) rtree_ops"
  proof (cases "bad_range fl ops (rt s) azData")
    case True
    show ?thesis
      unfolding rtreeUpdate_def rtreeUpdate_constraints_def rtreeUpdate_coords_bad [OF True]
      using that True by simp
  next
    case False
    show ?thesis
      unfolding rtreeUpdate_def rtreeUpdate_constraints_def rtreeUpdate_coords_good [OF False]
      using that False by (simp add: Let_def)
  qed
  let ?ops = "ops\<lparr>readRowid := rd, vtab_on_conflict := oc\<rparr>"
  have sel: "value_is_null ?ops = value_is_null ops" "value_int64 ?ops = value_int64 ops"
    "value_int ?ops = value_int ops"
    "value_double ?ops = value_double ops" "finalize_all ?ops = finalize_all ops"
    "rtreeDeleteRowid ?ops = rtreeDeleteRowid ops" "newRowid ?ops = newRowid ops"
    "ChooseLeaf ?ops = ChooseLeaf ops" "nodeRelease ?ops = nodeRelease ops"
    by simp_all
  have lo: "record_lo fl ?ops = record_lo fl ops" and hi: "record_hi fl ?ops = record_hi fl ops"
    by (intro ext, simp only: record_lo_def record_hi_def rtreeValueDown_def rtreeValueUp_def sel)+
  have b: "bad_range fl ?ops (rt s) azData = bad_range fl ops (rt s) azData"
    by (simp only: bad_range_def lo hi)
  have c: "record_coords fl ?ops (rt s) azData = record_coords fl ops (rt s) azData"
    by (simp only: record_coords_def lo hi)
  have d: "rtreeRelease ?ops = rtreeRelease ops"
    by (rule ext) (simp only: rtreeRelease_def sel)
  have e: "rtreeUpdate_insert ins ?ops = rtreeUpdate_insert ins ops"
    by (intro ext) (simp only: rtreeUpdate_insert_def sel)
  have f: "rtreeUpdate_rest ins ?ops azData = rtreeUpdate_rest ins ops azData"
    by (intro ext) (simp only: rtreeUpdate_rest_def d e sel)
  have "rtreeUpdate ins fl ?ops azData s = rtreeUpdate ins fl ops azData s"
  proof -
    have p: "\<not> value_is_null ?ops (azData ! 0)" "\<not> value_is_null ?ops (azData ! 2)"
      "value_int64 ?ops (azData ! 0) = value_int64 ?ops (azData ! 2)"
      using assms(2-4) unfolding sel by - assumption+
    show ?thesis
      unfolding a [OF assms] a [of ?ops, OF assms(1) p] b c d f sel ..
  qed
  with a [OF assms] show ?thesis by simp
qed

definition az_same :: "i64 option list" where
  "az_same = [Some 10, None, Some 10, Some 1, Some 3]"

theorem rtreeUpdate_same_rowid_witness:
  "1 < length az_same
   \<and> \<not> value_is_null test_ops (az_same ! 0)
   \<and> \<not> value_is_null test_ops (az_same ! 2)
   \<and> value_int64 test_ops (az_same ! 0) = value_int64 test_ops (az_same ! 2)
   \<and> fst (readRowid test_ops (value_int64 test_ops (az_same ! 2)) (db test_state)) = SQLITE_ROW
   \<and> vtab_on_conflict test_ops (db test_state) \<noteq> SQLITE_REPLACE
   \<and> rtreeUpdate (rtreeInsertCell (Suc 0) exact_fl test_ops) exact_fl test_ops az_same test_state
       = (Some SQLITE_OK, Some 10,
          test_state\<lparr>rt := rt_small\<lparr>iReinsertHeight := - 1\<rparr>,
                      mem := [0 \<mapsto> fst (nodeInsertCell rt_small node_blank \<lparr>iRowid = 10, aCoord = [1, 3]\<rparr>)],
                      db := (db test_state)\<lparr>chosen := [\<lparr>iRowid = 10, aCoord = [1, 3]\<rparr>]\<rparr>\<rparr>)
   \<and> rtreeUpdate (rtreeInsertCell (Suc 0) exact_fl test_ops) exact_fl
         (test_ops\<lparr>readRowid := \<lambda>r w. (SQLITE_ROW, SQLITE_ERROR), vtab_on_conflict := \<lambda>w. 1\<rparr>)
         az_same test_state
       = rtreeUpdate (rtreeInsertCell (Suc 0) exact_fl test_ops) exact_fl test_ops az_same test_state"
proof -
  have l: "1 < length az_same" by (simp add: az_same_def)
  have v: "\<not> value_is_null test_ops (az_same ! 0)" "\<not> value_is_null test_ops (az_same ! 2)"
    "value_int64 test_ops (az_same ! 0) = value_int64 test_ops (az_same ! 2)"
    by (simp_all add: az_same_def test_ops_simps)
  have r: "fst (readRowid test_ops (value_int64 test_ops (az_same ! 2)) (db test_state)) = SQLITE_ROW"
    "vtab_on_conflict test_ops (db test_state) \<noteq> SQLITE_REPLACE"
    by (simp_all add: az_same_def test_ops_simps test_state_def SQLITE_REPLACE_def)
  have d1: "nDim (rt test_state) = 1" "eCoordType (rt test_state) \<noteq> RTREE_COORD_REAL32"
    by (simp_all add: test_state_def rt_small_def RTREE_COORD_REAL32_def)
  have lo: "record_lo exact_fl test_ops (rt test_state) az_same 0 = 1"
    and hi: "record_hi exact_fl test_ops (rt test_state) az_same 0 = 3"
    by (simp_all add: record_lo_def record_hi_def d1 az_same_def test_ops_simps)
  have n: "\<not> bad_range exact_fl test_ops (rt test_state) az_same"
    unfolding bad_range_def d1 by (simp add: lo hi coord_less_def d1)
  have c: "record_coords exact_fl test_ops (rt test_state) az_same = [1, 3]"
    unfolding record_coords_def d1 by (simp add: lo hi)
  have m: "mem (rtreeReference test_state) 0 = Some node_blank"
    by (simp add: rtreeReference_def test_state_def)
  have f: "snd (nodeInsertCell (rt (rtreeReference test_state)) node_blank
                 \<lparr>iRowid = 10, aCoord = [1, 3]\<rparr>) = 0"
    by (simp add: nodeInsertCell_def rtreeReference_def test_state_def
        rt_small_def node_blank_def NCELL_def readInt16_def c_div_def Let_def)
  have b: "nBusy (rt (rtreeReference test_state)) \<noteq> 1"
    by (simp add: rtreeReference_def test_state_def rt_small_def)
  have i: "iNode (fst (nodeInsertCell r node_blank cell)) = 1" for r cell
    by (simp add: nodeInsertCell_def nodeOverwriteCell_def node_blank_def Let_def)
  have k: "nodeInsertCell (r\<lparr>nBusy := x\<rparr>) node cell = nodeInsertCell r node cell" for r x node cell
    by (simp add: nodeInsertCell_def nodeOverwriteCell_def Let_def)
  have vi: "value_int64 test_ops (az_same ! 2) = 10"
    by (simp add: az_same_def test_ops_simps)
  note t = rtreeUpdate_same_rowid [OF l v, where ins = "rtreeInsertCell (Suc 0) exact_fl test_ops"
      and fl = exact_fl and s = test_state and rd = "\<lambda>r w. (SQLITE_ROW, SQLITE_ERROR)" and oc = "\<lambda>w. 1"]
  have u: "rtreeUpdate (rtreeInsertCell (Suc 0) exact_fl test_ops) exact_fl test_ops az_same test_state
       = (Some SQLITE_OK, Some 10,
          test_state\<lparr>rt := rt_small\<lparr>iReinsertHeight := - 1\<rparr>,
                      mem := [0 \<mapsto> fst (nodeInsertCell rt_small node_blank \<lparr>iRowid = 10, aCoord = [1, 3]\<rparr>)],
                      db := (db test_state)\<lparr>chosen := [\<lparr>iRowid = 10, aCoord = [1, 3]\<rparr>]\<rparr>\<rparr>)"
    unfolding conjunct1 [OF t] c vi
    by (simp only: n if_False rtreeUpdate_rest_test_room [OF l m f b])
       (simp add: az_same_def i k rtreeReference_def test_state_def
          del: rtreeInsertCell.simps, (simp add: rt_small_def)?)
  show ?thesis
    using l v r u conjunct2 [OF t] by (simp only: simp_thms)
qed


section \<open>A new rowid that is already present\<close>

text \<open>
  The new record has valid coordinates and an explicit rowid, which is not the rowid of
  the row being replaced, and the lookup in the \<open>_rowid\<close> table finds it
  (\<^verbatim>\<open>sqlite3_step\<close> returns \<^verbatim>\<open>SQLITE_ROW\<close>). Under the conflict policy \<^verbatim>\<open>REPLACE\<close>,
  \<open>rtreeUpdate\<close> calls \<open>rtreeDeleteRowid\<close> on that rowid and passes its code and state to
  the rest of the call. Under any other policy it returns \<^verbatim>\<open>SQLITE_CONSTRAINT\<close> and the
  state is the one before the call (the table being in use, \<^verbatim>\<open>nBusy\<close> not 0).
\<close>

lemma rtreeUpdate_duplicate_rowid:
  assumes "1 < length azData"
    and "\<not> bad_range fl ops (rt s) azData"
    and "\<not> value_is_null ops (azData ! 2)"
    and "value_is_null ops (azData ! 0)
         \<or> value_int64 ops (azData ! 0) \<noteq> value_int64 ops (azData ! 2)"
    and "fst (readRowid ops (value_int64 ops (azData ! 2)) (db s)) = SQLITE_ROW"
    and "nBusy (rt s) \<noteq> 0"
  shows "rtreeUpdate ins fl ops azData s =
           (if vtab_on_conflict ops (db s) = SQLITE_REPLACE then
              (let (rc, s') = rtreeDeleteRowid ops (value_int64 ops (azData ! 2)) (rtreeReference s)
               in rtreeUpdate_rest ins ops azData rc
                    \<lparr>iRowid = value_int64 ops (azData ! 2),
                       aCoord = record_coords fl ops (rt s) azData\<rparr> True s')
            else (Some SQLITE_CONSTRAINT, None, s))"
  unfolding rtreeUpdate_new_rowid [OF assms(1-4)]
  using assms(5,6) by (simp add: Let_def case_prod_beta rtreeRelease_rtreeReference)


section \<open>The overflow log of an insertion\<close>

text \<open>
  What the log of \<open>rtreeInsertCell\<close> is checked against. \<open>reinsert_once\<close> reads a log,
  oldest event first: a \<open>Reinsert\<close> is never on node 1, and after a \<open>Reinsert\<close> at height
  \<open>h\<close> every later overflow at height \<open>h\<close> or below is a split. \<open>reinsert_heights\<close> lists
  the heights at which \<open>Reinsert\<close> ran.
\<close>

fun is_split :: "overflow_event \<Rightarrow> bool" where
  "is_split (EvSplit h n) = True"
| "is_split (EvReinsert h n) = False"

fun ev_height :: "overflow_event \<Rightarrow> int" where
  "ev_height (EvSplit h n) = h"
| "ev_height (EvReinsert h n) = h"

fun reinsert_once :: "overflow_event list \<Rightarrow> bool" where
  "reinsert_once [] = True"
| "reinsert_once (EvSplit h n # es) = reinsert_once es"
| "reinsert_once (EvReinsert h n # es) =
     (n \<noteq> 1 \<and> (\<forall>e \<in> set es. ev_height e \<le> h \<longrightarrow> is_split e) \<and> reinsert_once es)"

definition reinsert_heights :: "overflow_event list \<Rightarrow> int list" where
  "reinsert_heights es = map ev_height (filter (\<lambda>e. \<not> is_split e) es)"

text \<open>
  \<open>replay\<close> runs a log against the test of \<open>rtreeInsertCell\<close>, starting from a value of
  \<^verbatim>\<open>iReinsertHeight\<close>: it gives the final value, or \<open>None\<close> if some event is not the one
  the test chooses. \<open>logged s s'\<close> says that \<open>s'\<close> extends the log of \<open>s\<close> by events that
  replay from the \<^verbatim>\<open>iReinsertHeight\<close> of \<open>s\<close> to that of \<open>s'\<close>.
\<close>

fun replay :: "int \<Rightarrow> overflow_event list \<Rightarrow> int option" where
  "replay rh [] = Some rh"
| "replay rh (EvReinsert h n # es) = (if rh < h \<and> n \<noteq> 1 then replay h es else None)"
| "replay rh (EvSplit h n # es) = (if h \<le> rh \<or> n = 1 then replay rh es else None)"

definition log_of :: "'w rtree_state \<Rightarrow> overflow_event list \<times> int" where
  "log_of s = (trace s, iReinsertHeight (rt s))"

definition logged :: "'w rtree_state \<Rightarrow> 'w rtree_state \<Rightarrow> bool" where
  "logged s s' \<longleftrightarrow>
     (\<exists>es. fst (log_of s') = fst (log_of s) @ es \<and> replay (snd (log_of s)) es = Some (snd (log_of s')))"

text \<open>
  The functions left open do not assign \<^verbatim>\<open>iReinsertHeight\<close> (in the source only
  \<open>rtreeInsertCell\<close> and \<open>rtreeUpdate\<close> do) and do not write the log.
\<close>

definition insert_frame :: "('v, 'w, 'd) rtree_ops \<Rightarrow> bool" where
  "insert_frame ops \<longleftrightarrow>
     (\<forall>s. log_of (snd (snd (newRowid ops s))) = log_of s)
     \<and> (\<forall>c h s. log_of (snd (snd (ChooseLeaf ops c h s))) = log_of s)
     \<and> (\<forall>p s. log_of (snd (nodeRelease ops p s)) = log_of s)
     \<and> (\<forall>p c s. log_of (snd (AdjustTree ops p c s)) = log_of s)
     \<and> (\<forall>p s. log_of (snd (fixBoundingBox ops p s)) = log_of s)
     \<and> (\<forall>p c h s. log_of (snd (snd (SplitNode_assign ops p c h s))) = log_of s)
     \<and> (\<forall>sp s. log_of (snd (SplitNode_left ops sp s)) = log_of s)
     \<and> (\<forall>p c h sp s. log_of (snd (snd (SplitNode_mappings ops p c h sp s))) = log_of s)
     \<and> (\<forall>sp s. log_of (SplitNode_out ops sp s) = log_of s)"

lemma replay_append:
  "replay rh (es @ es') = (case replay rh es of None \<Rightarrow> None | Some r \<Rightarrow> replay r es')"
proof (induction es arbitrary: rh)
  case Nil
  then show ?case by simp
next
  case (Cons e es)
  then show ?case by (cases e) simp_all
qed

lemma replay_props:
  "replay rh es = Some r \<Longrightarrow>
     rh \<le> r \<and> (\<forall>e \<in> set es. \<not> is_split e \<longrightarrow> rh < ev_height e)
     \<and> reinsert_once es \<and> distinct (reinsert_heights es)"
proof (induction es arbitrary: rh)
  case Nil
  then show ?case by (simp add: reinsert_heights_def)
next
  case (Cons e es)
  show ?case
  proof (cases e)
    case (EvReinsert h n)
    with Cons.prems have c: "rh < h" "n \<noteq> 1" and r: "replay h es = Some r"
      by (simp_all split: if_splits)
    note ih = Cons.IH [OF r]
    have "h \<notin> set (reinsert_heights es)"
      using ih by (auto simp add: reinsert_heights_def)
    moreover have "\<forall>e \<in> set es. ev_height e \<le> h \<longrightarrow> is_split e"
      using ih by fastforce
    ultimately show ?thesis
      using ih c EvReinsert by (auto simp add: reinsert_heights_def)
  next
    case (EvSplit h n)
    with Cons.prems have r: "replay rh es = Some r"
      by (simp split: if_splits)
    show ?thesis
      using Cons.IH [OF r] EvSplit by (auto simp add: reinsert_heights_def)
  qed
qed

lemma log_of_simps [simp]:
  "log_of (s\<lparr>mem := m\<rparr>) = log_of s"
  "log_of (s\<lparr>db := w\<rparr>) = log_of s"
  by (simp_all add: log_of_def)

lemma logged_refl: "log_of s' = log_of s \<Longrightarrow> logged s s'"
  by (simp add: logged_def)

lemma logged_trans: "logged s s' \<Longrightarrow> logged s' s'' \<Longrightarrow> logged s s''"
  unfolding logged_def
proof -
  assume "\<exists>es. fst (log_of s') = fst (log_of s) @ es \<and> replay (snd (log_of s)) es = Some (snd (log_of s'))"
    and "\<exists>es. fst (log_of s'') = fst (log_of s') @ es \<and> replay (snd (log_of s')) es = Some (snd (log_of s''))"
  then obtain es es' where a: "fst (log_of s') = fst (log_of s) @ es"
    "replay (snd (log_of s)) es = Some (snd (log_of s'))"
    "fst (log_of s'') = fst (log_of s') @ es'"
    "replay (snd (log_of s')) es' = Some (snd (log_of s''))"
    by blast
  have "fst (log_of s'') = fst (log_of s) @ (es @ es')" using a by simp
  moreover have "replay (snd (log_of s)) (es @ es') = Some (snd (log_of s''))"
    using a by (simp add: replay_append)
  ultimately show "\<exists>es. fst (log_of s'') = fst (log_of s) @ es \<and> replay (snd (log_of s)) es = Some (snd (log_of s''))"
    by blast
qed

lemma logged_left: "log_of s1 = log_of s \<Longrightarrow> logged s1 s' \<Longrightarrow> logged s s'"
  by (simp add: logged_def)

lemma logged_right: "logged s s1 \<Longrightarrow> log_of s' = log_of s1 \<Longrightarrow> logged s s'"
  by (simp add: logged_def)

lemma frameD:
  assumes "insert_frame ops"
  shows "log_of (snd (snd (newRowid ops s))) = log_of s"
    and "log_of (snd (snd (ChooseLeaf ops c h s))) = log_of s"
    and "log_of (snd (nodeRelease ops p s)) = log_of s"
    and "log_of (snd (AdjustTree ops a c s)) = log_of s"
    and "log_of (snd (fixBoundingBox ops a s)) = log_of s"
    and "log_of (snd (snd (SplitNode_assign ops a c h s))) = log_of s"
    and "log_of (snd (SplitNode_left ops sp s)) = log_of s"
    and "log_of (snd (snd (SplitNode_mappings ops a c h sp s))) = log_of s"
    and "log_of (SplitNode_out ops sp s) = log_of s"
  using assms by (simp_all add: insert_frame_def)

lemma log_of_Reinsert_keep:
  "log_of (snd (Reinsert_keep ops pNode pCell iHeight aCell aOrder iis rc s)) = log_of s"
proof (induction iis arbitrary: rc s)
  case Nil
  then show ?case by simp
next
  case (Cons ii iis)
  show ?case
    by (simp add: Let_def case_prod_beta Cons.IH)
qed

lemma logged_Reinsert_far:
  assumes f: "insert_frame ops"
    and i: "\<And>p c h s. logged s (snd (ins p c h s))"
  shows "logged s (snd (Reinsert_far ins ops iHeight aCell aOrder iis rc s))"
proof (induction iis arbitrary: rc s)
  case Nil
  then show ?case by (simp add: logged_refl)
next
  case (Cons ii iis)
  let ?p = "aCell ! (aOrder ! ii)"
  obtain rc1 pInsert s1 where c: "ChooseLeaf ops ?p iHeight s = (rc1, pInsert, s1)"
    by (cases "ChooseLeaf ops ?p iHeight s") auto
  have l1: "log_of s1 = log_of s"
    using frameD(2) [OF f, of ?p iHeight s] c by simp
  show ?case
  proof (cases "rc = SQLITE_OK")
    case False
    then show ?thesis by (simp add: logged_refl)
  next
    case True
    show ?thesis
    proof (cases "rc1 = SQLITE_OK")
      case False
      have "logged s1 (snd (Reinsert_far ins ops iHeight aCell aOrder iis rc1 s1))"
        by (rule Cons.IH)
      then have "logged s (snd (Reinsert_far ins ops iHeight aCell aOrder iis rc1 s1))"
        by (rule logged_left [OF l1])
      then show ?thesis
        using True False c by simp
    next
      case ok: True
      obtain r2 s2 where n: "ins pInsert ?p iHeight s1 = (r2, s2)"
        by (cases "ins pInsert ?p iHeight s1") auto
      have l2: "logged s1 s2" using i [of s1 pInsert ?p iHeight] n by simp
      have l2': "logged s s2" by (rule logged_left [OF l1 l2])
      show ?thesis
      proof (cases r2)
        case None
        then show ?thesis
          using True ok c n l2' by simp
      next
        case (Some rc2)
        obtain rc3 s3 where d: "nodeRelease ops (Some pInsert) s2 = (rc3, s3)"
          by (cases "nodeRelease ops (Some pInsert) s2") auto
        have l3: "log_of s3 = log_of s2"
          using frameD(3) [OF f, of "Some pInsert" s2] d by simp
        have l3': "logged s s3" by (rule logged_right [OF l2' l3])
        have "logged s3 (snd (Reinsert_far ins ops iHeight aCell aOrder iis
                 (if rc2 = SQLITE_OK then rc3 else rc2) s3))"
          by (rule Cons.IH)
        then have "logged s (snd (Reinsert_far ins ops iHeight aCell aOrder iis
                 (if rc2 = SQLITE_OK then rc3 else rc2) s3))"
          by (rule logged_trans [OF l3'])
        then show ?thesis
          using True ok c n Some d by simp
      qed
    qed
  qed
qed

lemma logged_Reinsert:
  assumes f: "insert_frame ops"
    and i: "\<And>p c h s. logged s (snd (ins p c h s))"
  shows "logged s (snd (Reinsert ins fl ops pNode pCell iHeight s))"
proof (cases "malloc_ok ops (db s)")
  case False
  then show ?thesis by (simp add: Reinsert_def Let_def logged_refl)
next
  case True
  have far: "logged s (snd (Reinsert_far ins ops iHeight aCell aOrder iis rc s'))"
    if "log_of s' = log_of s" for aCell aOrder iis rc s'
    by (rule logged_left [OF that logged_Reinsert_far [OF f i]])
  have k: "log_of (snd (if P then fixBoundingBox ops pNode s2 else (rc, s2))) = log_of s2" for P rc s2
    by (simp add: frameD(5) [OF f])
  show ?thesis
    using True by (simp add: Reinsert_def Let_def case_prod_beta far k log_of_Reinsert_keep)
qed

lemma logged_SplitNode:
  assumes f: "insert_frame ops"
    and i: "\<And>p c h s. logged s (snd (ins p c h s))"
  shows "logged s (snd (SplitNode ins ops pNode pCell iHeight s))"
proof -
  obtain rc sp s1 where a: "SplitNode_assign ops pNode pCell iHeight s = (rc, sp, s1)"
    by (cases "SplitNode_assign ops pNode pCell iHeight s") auto
  have l1: "log_of s1 = log_of s"
    using frameD(6) [OF f, of pNode pCell iHeight s] a by simp
  have out: "logged s (SplitNode_out ops sp' s')" if "logged s s'" for sp' s'
    by (rule logged_right [OF that frameD(9) [OF f]])
  show ?thesis
  proof (cases "rc = SQLITE_OK")
    case False
    then show ?thesis
      using out [OF logged_refl [OF l1]] by (simp add: SplitNode_def a)
  next
    case True
    define r where "r = (if iNode (the (mem s1 pNode)) = 1
                  then ins (the (pParent (the (mem s1 (the (pLeft sp)))))) (leftbbox sp) (iHeight + 1) s1
                  else (let (rc1, s2) = SplitNode_left ops sp s1 in (Some rc1, s2)))"
    have lr: "logged s (snd r)"
    proof (cases "iNode (the (mem s1 pNode)) = 1")
      case True
      then show ?thesis
        using logged_left [OF l1 i] by (simp add: r_def)
    next
      case False
      have "log_of (snd (SplitNode_left ops sp s1)) = log_of s"
        using frameD(7) [OF f, of sp s1] l1 by simp
      then show ?thesis
        using False by (simp add: r_def case_prod_beta logged_refl)
    qed
    obtain r1 s2 where rr: "r = (r1, s2)" by (cases r) auto
    have l2: "logged s s2" using lr rr by simp
    have e: "SplitNode ins ops pNode pCell iHeight s =
               (case r of
                  (None, s2) \<Rightarrow> (None, s2)
                | (Some rc1, s2) \<Rightarrow>
                    if rc1 \<noteq> SQLITE_OK then (Some rc1, SplitNode_out ops sp s2)
                    else
                      (case ins (the (pParent (the (mem s2 (the (pRight sp)))))) (rightbbox sp)
                                (iHeight + 1) s2 of
                         (None, s3) \<Rightarrow> (None, s3)
                       | (Some rc2, s3) \<Rightarrow>
                           if rc2 \<noteq> SQLITE_OK then (Some rc2, SplitNode_out ops sp s3)
                           else
                             (let (rc3, sp', s4) = SplitNode_mappings ops pNode pCell iHeight sp s3
                              in (Some rc3, SplitNode_out ops sp' s4))))"
      using True by (simp add: SplitNode_def a r_def)
    show ?thesis
    proof (cases r1)
      case None
      then show ?thesis using l2 by (simp add: e rr)
    next
      case (Some rc1)
      show ?thesis
      proof (cases "rc1 = SQLITE_OK")
        case False
        then show ?thesis using out [OF l2] Some by (simp add: e rr)
      next
        case ok1: True
        let ?c = "ins (the (pParent (the (mem s2 (the (pRight sp)))))) (rightbbox sp) (iHeight + 1) s2"
        obtain r2 s3 where n: "?c = (r2, s3)" by (cases ?c) auto
        have "logged s2 s3"
          using i [of s2 "the (pParent (the (mem s2 (the (pRight sp)))))" "rightbbox sp" "iHeight + 1"] n
          by simp
        then have l3: "logged s s3" by (rule logged_trans [OF l2])
        show ?thesis
        proof (cases r2)
          case None
          then show ?thesis using l3 Some ok1 n by (simp add: e rr)
        next
          case s: (Some rc2)
          show ?thesis
          proof (cases "rc2 = SQLITE_OK")
            case False
            then show ?thesis using out [OF l3] Some ok1 n s by (simp add: e rr)
          next
            case ok2: True
            obtain rc3 sp' s4 where m: "SplitNode_mappings ops pNode pCell iHeight sp s3 = (rc3, sp', s4)"
              by (cases "SplitNode_mappings ops pNode pCell iHeight sp s3") auto
            have "log_of s4 = log_of s3"
              using frameD(8) [OF f, of pNode pCell iHeight sp s3] m by simp
            then have "logged s s4" by (rule logged_right [OF l3])
            then show ?thesis
              using out Some ok1 n s ok2 m by (simp add: e rr)
          qed
        qed
      qed
    qed
  qed
qed

lemma logged_event:
  "log_of t = (fst (log_of s) @ [e], r) \<Longrightarrow> replay (snd (log_of s)) [e] = Some r \<Longrightarrow> logged s t"
  by (auto simp add: logged_def)

lemma logged_rtreeInsertCell:
  assumes f: "insert_frame ops"
  shows "logged s (snd (rtreeInsertCell n fl ops pNode pCell iHeight s))"
proof (induction n arbitrary: pNode pCell iHeight s)
  case 0
  then show ?case by (simp add: logged_refl)
next
  case (Suc n)
  define s1 where "s1 =
     (if iHeight > 0 then
        (case nodeHashLookup (rt s) (mem s) (iRowid pCell) of
           None \<Rightarrow> s
         | Some pChild \<Rightarrow>
             (let (rc0, sa) = nodeRelease ops (pParent (the (mem s pChild))) s;
                  sb = sa\<lparr>mem := nodeReference (mem sa) (Some pNode)\<rparr>
              in sb\<lparr>mem := upd_node (mem sb) pChild (\<lambda>c. c\<lparr>pParent := Some pNode\<rparr>)\<rparr>))
      else s)"
  have l1: "log_of s1 = log_of s"
    by (simp add: s1_def Let_def case_prod_beta frameD(3) [OF f] split: option.splits)
  obtain node' full where ni: "nodeInsertCell (rt s1) (the (mem s1 pNode)) pCell = (node', full)"
    by (cases "nodeInsertCell (rt s1) (the (mem s1 pNode)) pCell") auto
  define s2 where "s2 = s1\<lparr>mem := (mem s1)(pNode \<mapsto> node')\<rparr>"
  have l2: "log_of s2 = log_of s" by (simp add: s2_def l1)
  have e: "rtreeInsertCell (Suc n) fl ops pNode pCell iHeight s =
     (if full \<noteq> 0 then
           (if iHeight \<le> iReinsertHeight (rt s2) \<or> iNode node' = 1 then
              SplitNode (rtreeInsertCell n fl ops) ops pNode pCell iHeight
                (s2\<lparr>trace := trace s2 @ [EvSplit iHeight (iNode node')]\<rparr>)
            else
              Reinsert (rtreeInsertCell n fl ops) fl ops pNode pCell iHeight
                (s2\<lparr>rt := (rt s2)\<lparr>iReinsertHeight := iHeight\<rparr>,
                    trace := trace s2 @ [EvReinsert iHeight (iNode node')]\<rparr>))
         else
           (let (rc, s3) = AdjustTree ops pNode pCell s2
            in if rc = SQLITE_OK then
                 (let (rc', w) = (if iHeight = 0
                                  then rowidWrite ops (iRowid pCell) (iNode (the (mem s3 pNode))) (db s3)
                                  else parentWrite ops (iRowid pCell) (iNode (the (mem s3 pNode))) (db s3))
                  in (Some rc', s3\<lparr>db := w\<rparr>))
               else (Some rc, s3)))"
    unfolding rtreeInsertCell.simps Let_def s1_def [unfolded Let_def, symmetric] ni prod.case
      s2_def [symmetric] ..
  note ih = Suc.IH
  show ?case
  proof (cases "full \<noteq> 0")
    case False
    have "log_of (snd (AdjustTree ops pNode pCell s2)) = log_of s"
      using frameD(4) [OF f, of pNode pCell s2] l2 by simp
    then show ?thesis
      using False by (simp add: e Let_def case_prod_beta logged_refl del: rtreeInsertCell.simps)
  next
    case True
    show ?thesis
    proof (cases "iHeight \<le> iReinsertHeight (rt s2) \<or> iNode node' = 1")
      case sp: True
      let ?t = "s2\<lparr>trace := trace s2 @ [EvSplit iHeight (iNode node')]\<rparr>"
      have "log_of ?t = (fst (log_of s) @ [EvSplit iHeight (iNode node')], snd (log_of s))"
        using l2 by (simp add: log_of_def)
      moreover have "replay (snd (log_of s)) [EvSplit iHeight (iNode node')] = Some (snd (log_of s))"
        using sp l2 by (auto simp add: log_of_def)
      ultimately have a: "logged s ?t" by (rule logged_event)
      have "logged ?t (snd (SplitNode (rtreeInsertCell n fl ops) ops pNode pCell iHeight ?t))"
        by (rule logged_SplitNode [OF f ih])
      then have "logged s (snd (SplitNode (rtreeInsertCell n fl ops) ops pNode pCell iHeight ?t))"
        by (rule logged_trans [OF a])
      then show ?thesis
        using True sp by (simp only: e if_True simp_thms)
    next
      case re: False
      let ?t = "s2\<lparr>rt := (rt s2)\<lparr>iReinsertHeight := iHeight\<rparr>,
                    trace := trace s2 @ [EvReinsert iHeight (iNode node')]\<rparr>"
      have "log_of ?t = (fst (log_of s) @ [EvReinsert iHeight (iNode node')], iHeight)"
        using l2 by (simp add: log_of_def)
      moreover have "replay (snd (log_of s)) [EvReinsert iHeight (iNode node')] = Some iHeight"
        using re l2 by (auto simp add: log_of_def)
      ultimately have a: "logged s ?t" by (rule logged_event)
      have "logged ?t (snd (Reinsert (rtreeInsertCell n fl ops) fl ops pNode pCell iHeight ?t))"
        by (rule logged_Reinsert [OF f ih])
      then have "logged s (snd (Reinsert (rtreeInsertCell n fl ops) fl ops pNode pCell iHeight ?t))"
        by (rule logged_trans [OF a])
      then show ?thesis
        using True re by (simp only: e if_True if_False simp_thms)
    qed
  qed
qed


section \<open>Claim C6: one \<open>Reinsert\<close> per height\<close>

text \<open>
  C6. A top-level insert is the insertion block of \<open>rtreeUpdate\<close>: it sets
  \<^verbatim>\<open>iReinsertHeight\<close> to \<open>-1\<close> and calls \<open>rtreeInsertCell\<close> on the chosen leaf. Whatever the
  recursion budget and whatever the open functions return, the overflows logged during
  it are such that \<open>Reinsert\<close> never runs on the root (node 1), that after a \<open>Reinsert\<close>
  at some height every further overflow at that height or a lower one is handled by
  \<open>SplitNode\<close>, and that no two runs of \<open>Reinsert\<close> are at the same height.
\<close>

theorem rtreeUpdate_insert_reinsert_once:
  assumes f: "insert_frame ops"
  shows "\<exists>es. trace (snd (snd (rtreeUpdate_insert (rtreeInsertCell n fl ops) ops cell bHaveRowid s)))
                = trace s @ es
              \<and> reinsert_once es \<and> distinct (reinsert_heights es)"
proof -
  let ?ins = "rtreeInsertCell n fl ops"
  let ?goal = "\<lambda>s'. \<exists>es. trace s' = trace s @ es \<and> reinsert_once es \<and> distinct (reinsert_heights es)"
  have same: "?goal s'" if "log_of s' = log_of s" for s'
    using that by (simp add: log_of_def reinsert_heights_def)
  define st where "st = (if \<not> bHaveRowid
             then (let (r, rowid, s') = newRowid ops s in (r, cell\<lparr>iRowid := rowid\<rparr>, s'))
             else (SQLITE_OK, cell, s))"
  obtain rc cell1 s1 where a: "st = (rc, cell1, s1)" by (cases st) auto
  have l1: "log_of s1 = log_of s"
    using a frameD(1) [OF f, of s] by (auto simp add: st_def case_prod_beta split: if_splits)
  obtain rc1 pLeaf s2 where c: "ChooseLeaf ops cell1 0 s1 = (rc1, pLeaf, s2)"
    by (cases "ChooseLeaf ops cell1 0 s1") auto
  have l2: "log_of s2 = log_of s"
    using frameD(2) [OF f, of cell1 0 s1] c l1 by simp
  let ?t = "s2\<lparr>rt := (rt s2)\<lparr>iReinsertHeight := - 1\<rparr>\<rparr>"
  obtain r2 s3 where n: "?ins pLeaf cell1 0 ?t = (r2, s3)"
    by (cases "?ins pLeaf cell1 0 ?t") auto
  have "logged ?t s3"
    using logged_rtreeInsertCell [OF f, of ?t n fl pLeaf cell1 0] n by simp
  then obtain es where es: "trace s3 = trace s @ es" "replay (- 1) es = Some (iReinsertHeight (rt s3))"
    using l2 by (auto simp add: logged_def log_of_def)
  have g3: "?goal s3"
    using es(1) replay_props [OF es(2)] by blast
  obtain rc3 s4 where d: "nodeRelease ops (Some pLeaf) s3 = (rc3, s4)"
    by (cases "nodeRelease ops (Some pLeaf) s3") auto
  have "log_of s4 = log_of s3"
    using frameD(3) [OF f, of "Some pLeaf" s3] d by simp
  then have g4: "?goal s4" using g3 by (simp add: log_of_def)
  have e: "rtreeUpdate_insert ?ins ops cell bHaveRowid s =
     (let pRowid = Some (iRowid cell1)
      in if rc = SQLITE_OK then
           (if rc1 = SQLITE_OK then
                 (case r2 of
                    None \<Rightarrow> (None, pRowid, s3)
                  | Some rc2 \<Rightarrow> (Some (if rc2 = SQLITE_OK then rc3 else rc2), pRowid, s4))
               else (Some rc1, pRowid, s2))
         else (Some rc, pRowid, s1))"
    unfolding rtreeUpdate_insert_def st_def [symmetric] a
    by (simp add: c n d Let_def split: option.splits)
  show ?thesis
    unfolding e Let_def
    using same [OF l1] same [OF l2] g3 g4 by (simp split: option.splits)
qed

text \<open>
  A run on the stand-in host: a full leaf (node 2, two cells) takes a third cell.
  \<open>Reinsert\<close> keeps two cells and hands the third to \<open>ChooseLeaf\<close>, which picks the
  same leaf again; the second overflow is split.
\<close>

definition node_two :: RtreeNode where
  "node_two = \<lparr>pParent = None, iNode = 2, nRef = 1, isDirty = 0,
               zData = [0, 0, 0, 2,  0, 0, 0, 0, 0, 0, 0, 1,  0, 0, 0, 0,  0, 0, 0, 2,
                                     0, 0, 0, 0, 0, 0, 0, 2,  0, 0, 0, 4,  0, 0, 0, 6]\<rparr>"

definition cell_c :: RtreeCell where
  "cell_c = \<lparr>iRowid = 3, aCoord = [10, 14]\<rparr>"

definition test_state_two :: "test_db rtree_state" where
  "test_state_two = test_state\<lparr>mem := [0 \<mapsto> node_two]\<rparr>"

lemma Reinsert_cells_two_aux: "Reinsert_cells rt_small node_two cell_c 3
            = [\<lparr>iRowid = 1, aCoord = [0, 2]\<rparr>, \<lparr>iRowid = 2, aCoord = [4, 6]\<rparr>, cell_c]"
  by (simp add: Reinsert_cells_def nodeGetCell_def nodeGetRowid_def nodeGetCoord_def readInt64_def
      readCoord_def rt_small_def node_two_def upt_rec)

lemma Reinsert_distance_two_aux: "map (Reinsert_distance exact_fl rt_small
                 [\<lparr>iRowid = 1, aCoord = [0, 2]\<rparr>, \<lparr>iRowid = 2, aCoord = [4, 6]\<rparr>, cell_c] 3) [0..<3]
            = [16, 16, 4]"
  by (simp add: Reinsert_distance_def Reinsert_center_def DCOORD_def exact_fl_def rt_small_def
      RTREE_COORD_REAL32_def cell_c_def upt_rec Let_def)

lemma SortByDistance_two_aux: "SortByDistance exact_fl [0..<3] [16, 16, 4::real] = [2, 1, 0]"
  by (simp add: SortByDistance_msortD msortD.simps exact_fl_def upt_rec)

lemma NCELL_node_two: "NCELL node_two = 2"
  by (simp add: NCELL_def node_two_def readInt16_def)

definition node_kept :: RtreeNode where
  "node_kept = fst (nodeInsertCell rt_small
                 (fst (nodeInsertCell rt_small (nodeZero rt_small node_two) cell_c))
                 \<lparr>iRowid = 2, aCoord = [4, 6]\<rparr>)"

lemma node_kept_eval:
  "node_kept = \<lparr>pParent = None, iNode = 2, nRef = 1, isDirty = 1,
               zData = [0, 0, 0, 2,  0, 0, 0, 0, 0, 0, 0, 3,  0, 0, 0, 10,  0, 0, 0, 14,
                                     0, 0, 0, 0, 0, 0, 0, 2,  0, 0, 0, 4,  0, 0, 0, 6]\<rparr>"
  by (simp add: node_kept_def nodeInsertCell_def nodeOverwriteCell_def nodeZero_def NCELL_def
      readInt16_def writeInt16_def writeInt64_def writeCoord_def rt_small_def node_two_def cell_c_def
      c_div_def Let_def upt_rec)
     (simp add: eval_nat_numeral)

lemma iNode_nodeInsertCell [simp]: "iNode (fst (nodeInsertCell r n c)) = iNode n"
  by (simp add: nodeInsertCell_def nodeOverwriteCell_def Let_def)

lemma iNode_nodeZero [simp]: "iNode (nodeZero r n) = iNode n"
  by (simp add: nodeZero_def)

lemma iNode_node_two: "iNode node_two = 2"
  by (simp add: node_two_def)

lemma Reinsert_cells_two: "Reinsert_cells rt_small node_two cell_c (NCELL node_two + 1)
            = [\<lparr>iRowid = 1, aCoord = [0, 2]\<rparr>, \<lparr>iRowid = 2, aCoord = [4, 6]\<rparr>, cell_c]"
  using Reinsert_cells_two_aux by (simp add: NCELL_node_two)

lemma Reinsert_distance_two: "map (Reinsert_distance exact_fl rt_small
                 [\<lparr>iRowid = 1, aCoord = [0, 2]\<rparr>, \<lparr>iRowid = 2, aCoord = [4, 6]\<rparr>, cell_c]
                 (NCELL node_two + 1)) [0..<nat (NCELL node_two + 1)]
            = [16, 16, 4]"
  using Reinsert_distance_two_aux by (simp add: NCELL_node_two)

lemma SortByDistance_two: "SortByDistance exact_fl [0..<nat (NCELL node_two + 1)] [16, 16, 4::real] = [2, 1, 0]"
  using SortByDistance_two_aux by (simp add: NCELL_node_two)

lemma nKeep_two: "nat (NCELL node_two + 1 - (RTREE_MINCELLS rt_small + 1)) = 2"
  by (simp add: NCELL_node_two RTREE_MINCELLS_def rt_small_def c_div_def)

lemma nCell_two: "nat (NCELL node_two + 1) = 3"
  by (simp add: NCELL_node_two)

lemma Reinsert_two:
  assumes "rt S = rt_small" and "mem S 0 = Some node_two"
  shows "Reinsert ins exact_fl test_ops 0 cell_c 0 S =
     (case ins 0 \<lparr>iRowid = 1, aCoord = [0, 2]\<rparr> 0
             (S\<lparr>mem := (mem S)(0 \<mapsto> node_kept),
                db := (db S)\<lparr>tab_rowid := (3, 2) # filter (\<lambda>e. fst e \<noteq> 3) (tab_rowid (db S)),
                             chosen := chosen (db S) @ [\<lparr>iRowid = 1, aCoord = [0, 2]\<rparr>]\<rparr>\<rparr>) of
        (None, s2) \<Rightarrow> (None, s2)
      | (Some rc2, s2) \<Rightarrow> (Some rc2, s2))"
  unfolding Reinsert_def Let_def assms option.sel Reinsert_cells_two Reinsert_distance_two SortByDistance_two nKeep_two
  by (simp add: test_ops_simps assms node_kept_def cell_c_def SQLITE_OK_def upt_rec nCell_two Let_def
      iNode_node_two split: prod.splits option.splits)

lemma nodeInsertCell_node_two: "nodeInsertCell rt_small node_two c = (node_two, 1)"
  by (simp add: nodeInsertCell_def NCELL_node_two rt_small_def c_div_def)

lemma nodeInsertCell_node_kept: "nodeInsertCell rt_small node_kept c = (node_kept, 1)"
  by (simp add: nodeInsertCell_def NCELL_def readInt16_def node_kept_eval rt_small_def c_div_def)

lemma iNode_node_kept: "iNode node_kept = 2"
  by (simp add: node_kept_def iNode_node_two)

text \<open>An insertion into a full leaf that is split, and one that is reinserted, on the stand-in host.\<close>

lemma rtreeInsertCell_test_split:
  assumes "mem st 0 = Some node" and "nodeInsertCell (rt st) node c = (node, 1)"
    and "0 \<le> iReinsertHeight (rt st) \<or> iNode node = 1"
  shows "rtreeInsertCell (Suc n) fl test_ops 0 c 0 st =
           (Some SQLITE_NOMEM,
            st\<lparr>mem := (mem st)(0 \<mapsto> node), trace := trace st @ [EvSplit 0 (iNode node)]\<rparr>)"
  using assms by (simp add: SplitNode_def test_ops_simps Let_def SQLITE_NOMEM_def SQLITE_OK_def
      )

lemma rtreeInsertCell_test_reinsert:
  assumes "mem st 0 = Some node" and "nodeInsertCell (rt st) node c = (node, 1)"
    and "\<not> 0 \<le> iReinsertHeight (rt st)" and "iNode node \<noteq> 1"
  shows "rtreeInsertCell (Suc n) fl test_ops 0 c 0 st =
           Reinsert (rtreeInsertCell n fl test_ops) fl test_ops 0 c 0
             (st\<lparr>mem := (mem st)(0 \<mapsto> node), rt := (rt st)\<lparr>iReinsertHeight := 0\<rparr>,
                 trace := trace st @ [EvReinsert 0 (iNode node)]\<rparr>)"
  using assms by (cases n) (simp_all add: Let_def)

lemma insert_frame_test_ops: "insert_frame test_ops"
  by (simp add: insert_frame_def test_ops_simps log_of_def)

lemma rtreeUpdate_insert_two:
  "rtreeUpdate_insert (rtreeInsertCell (Suc (Suc 0)) exact_fl test_ops) test_ops cell_c True test_state_two
     = (Some SQLITE_NOMEM, Some 3,
        test_state_two
          \<lparr>mem := [0 \<mapsto> node_kept],
             db := (db test_state_two)
                     \<lparr>tab_rowid := [(3, 2), (10, 1)],
                        chosen := [cell_c, \<lparr>iRowid = 1, aCoord = [0, 2]\<rparr>]\<rparr>,
             trace := [EvReinsert 0 2, EvSplit 0 2]\<rparr>)"
proof -
  let ?c1 = "\<lparr>iRowid = 1, aCoord = [0, 2]\<rparr> :: RtreeCell"
  let ?t = "test_state_two\<lparr>db := (db test_state_two)\<lparr>chosen := [cell_c]\<rparr>,
                            rt := rt_small\<lparr>iReinsertHeight := - 1\<rparr>\<rparr>"
  let ?r = "?t\<lparr>mem := (mem ?t)(0 \<mapsto> node_two), rt := (rt ?t)\<lparr>iReinsertHeight := 0\<rparr>,
                 trace := trace ?t @ [EvReinsert 0 (iNode node_two)]\<rparr>"
  let ?k = "?r\<lparr>mem := (mem ?r)(0 \<mapsto> node_kept),
                db := (db ?r)\<lparr>tab_rowid := (3, 2) # filter (\<lambda>e. fst e \<noteq> 3) (tab_rowid (db ?r)),
                             chosen := chosen (db ?r) @ [?c1]\<rparr>\<rparr>"
  have t1: "mem ?t 0 = Some node_two" by (simp add: test_state_two_def)
  have t2: "nodeInsertCell (rt ?t) node_two cell_c = (node_two, 1)"
    by (simp add: nodeInsertCell_node_two)
  have t3: "\<not> 0 \<le> iReinsertHeight (rt ?t)" by simp
  have t4: "iNode node_two \<noteq> 1" by (simp add: iNode_node_two)
  have r1: "rt ?r = rt_small" by (simp add: rt_small_def)
  have r2: "mem ?r 0 = Some node_two" by simp
  have k1: "mem ?k 0 = Some node_kept" by simp
  have k2: "nodeInsertCell (rt ?k) node_kept ?c1 = (node_kept, 1)"
    by (simp add: nodeInsertCell_node_kept)
  have k3: "0 \<le> iReinsertHeight (rt ?k) \<or> iNode node_kept = 1" by simp
  have a: "rtreeInsertCell (Suc (Suc 0)) exact_fl test_ops 0 cell_c 0 ?t
           = (Some SQLITE_NOMEM, ?k\<lparr>mem := (mem ?k)(0 \<mapsto> node_kept),
                                    trace := trace ?k @ [EvSplit 0 (iNode node_kept)]\<rparr>)"
    unfolding rtreeInsertCell_test_reinsert [OF t1 t2 t3 t4] Reinsert_two [OF r1 r2]
      rtreeInsertCell_test_split [OF k1 k2 k3]
    by simp
  have u: "rtreeUpdate_insert ins test_ops cell_c True test_state_two =
             (case ins 0 cell_c 0 ?t of
                (None, s3) \<Rightarrow> (None, Some 3, s3)
              | (Some rc2, s3) \<Rightarrow> (Some rc2, Some 3, s3))" for ins
    by (simp add: rtreeUpdate_insert_def test_ops_simps Let_def cell_c_def test_state_two_def
        test_state_def SQLITE_OK_def split: prod.splits option.splits)
  show ?thesis
    unfolding u a
    by (simp add: test_state_two_def test_state_def iNode_node_two iNode_node_kept)
       (simp add: rt_small_def)
qed

theorem rtreeUpdate_insert_reinsert_once_witness:
  "insert_frame test_ops
   \<and> trace (snd (snd (rtreeUpdate_insert (rtreeInsertCell (Suc (Suc 0)) exact_fl test_ops) test_ops
                           cell_c True test_state_two)))
       = [EvReinsert 0 2, EvSplit 0 2]
   \<and> reinsert_once [EvReinsert 0 2, EvSplit 0 2]
   \<and> distinct (reinsert_heights [EvReinsert 0 2, EvSplit 0 2])"
proof -
  let ?run = "rtreeUpdate_insert (rtreeInsertCell (Suc (Suc 0)) exact_fl test_ops) test_ops
                cell_c True test_state_two"
  have t: "trace (snd (snd ?run)) = [EvReinsert 0 2, EvSplit 0 2]"
    unfolding rtreeUpdate_insert_two by simp
  have z: "trace test_state_two = []"
    by (simp add: test_state_two_def test_state_def)
  from rtreeUpdate_insert_reinsert_once [OF insert_frame_test_ops, of "Suc (Suc 0)" exact_fl cell_c True
      test_state_two]
  have "reinsert_once [EvReinsert 0 2, EvSplit 0 2]
        \<and> distinct (reinsert_heights [EvReinsert 0 2, EvSplit 0 2])"
    unfolding t z by simp
  then show ?thesis
    using insert_frame_test_ops t by simp
qed


section \<open>The cell count of a node after \<open>nodeInsertCell\<close>\<close>

lemma readInt16_writeInt16:
  assumes "p + 2 \<le> length z" and "0 \<le> v" and "v < 65536"
  shows "readInt16 (writeInt16 z p v) p = v"
proof -
  have a: "uint (word_of_int (drop_bit 8 v AND 255) :: u8) = v div 256"
  proof -
    have "drop_bit 8 v AND 255 = take_bit 8 (drop_bit 8 v)"
      by (simp add: take_bit_eq_mask mask_eq_exp_minus_1)
    moreover have "drop_bit 8 v < 256" "0 \<le> drop_bit 8 v"
      using assms by (simp_all add: drop_bit_eq_div)
    ultimately show ?thesis
      by (simp add: uint_word_of_int take_bit_eq_mod drop_bit_eq_div)
  qed
  have b: "uint (word_of_int (v AND 255) :: u8) = v mod 256"
  proof -
    have "v AND 255 = take_bit 8 v"
      by (simp add: take_bit_eq_mask mask_eq_exp_minus_1)
    then show ?thesis
      by (simp add: uint_word_of_int take_bit_eq_mod)
  qed
  have "readInt16 (writeInt16 z p v) p = push_bit 8 (v div 256) + v mod 256"
    using assms(1) unfolding readInt16_def writeInt16_def by (simp add: a b)
  then show ?thesis
    by (simp add: push_bit_eq_mult)
qed

lemma nth_writeInt64_below: "k < p \<Longrightarrow> writeInt64 z p v ! k = z ! k"
  by (simp add: writeInt64_def)

lemma nth_writeCoord_below: "k < p \<Longrightarrow> writeCoord z p v ! k = z ! k"
  by (simp add: writeCoord_def)

lemma nth_fold_writeCoord_below:
  "k < q \<Longrightarrow> fold (\<lambda>ii z. writeCoord z (q + 4 * ii) (cs ! ii)) [0..<n] z ! k = z ! k"
proof (induction n)
  case 0
  then show ?case by simp
next
  case (Suc n)
  then show ?case
    by (simp only: fold_writeCoord_Suc) (simp add: nth_writeCoord_below)
qed

lemma NCELL_nodeOverwriteCell:
  assumes "0 \<le> nBytesPerCell pRtree" and "0 \<le> iCell"
  shows "NCELL (nodeOverwriteCell pRtree pNode pCell iCell) = NCELL pNode"
proof -
  have "0 \<le> nBytesPerCell pRtree * iCell"
    using assms by simp
  then have "4 \<le> nat (4 + nBytesPerCell pRtree * iCell)"
    by linarith
  then have "k < 4 \<Longrightarrow> zData (nodeOverwriteCell pRtree pNode pCell iCell) ! k = zData pNode ! k" for k
    unfolding zData_nodeOverwriteCell
    by (simp add: nth_fold_writeCoord_below nth_writeInt64_below)
  then show ?thesis
    by (simp add: NCELL_def readInt16_def)
qed

lemma NCELL_nonneg: "0 \<le> NCELL pNode"
  by (simp add: NCELL_def readInt16_def push_bit_eq_mult)

lemma NCELL_nodeInsertCell:
  assumes "NCELL pNode < c_div (iNodeSize pRtree - 4) (nBytesPerCell pRtree)"
    and "0 \<le> nBytesPerCell pRtree" and "4 \<le> length (zData pNode)"
    and "NCELL pNode + 1 < 65536"
  shows "NCELL (fst (nodeInsertCell pRtree pNode pCell)) = NCELL pNode + 1"
proof -
  let ?n1 = "nodeOverwriteCell pRtree pNode pCell (NCELL pNode)"
  have "NCELL (fst (nodeInsertCell pRtree pNode pCell))
          = readInt16 (writeInt16 (zData ?n1) 2 (NCELL pNode + 1)) 2"
    using assms(1) by (simp add: nodeInsertCell_def Let_def NCELL_def)
  also have "\<dots> = NCELL pNode + 1"
    using assms(3,4) NCELL_nonneg [of pNode] by (intro readInt16_writeInt16) simp_all
  finally show ?thesis .
qed

lemma length_zData_nodeInsertCell [simp]:
  "length (zData (fst (nodeInsertCell pRtree pNode pCell))) = length (zData pNode)"
  by (simp add: nodeInsertCell_def Let_def)

lemma snd_nodeInsertCell:
  "snd (nodeInsertCell pRtree pNode pCell)
     = (if NCELL pNode = c_div (iNodeSize pRtree - 4) (nBytesPerCell pRtree) then 1 else 0)"
  by (simp add: nodeInsertCell_def Let_def)

lemma NCELL_nodeZero:
  "2 \<le> length (zData p) \<Longrightarrow> 4 \<le> iNodeSize r \<Longrightarrow> NCELL (nodeZero r p) = 0"
  by (simp add: NCELL_def readInt16_def nodeZero_def nth_append)

lemma length_zData_nodeZero:
  "length (zData p) = nat (iNodeSize r) \<Longrightarrow> 2 \<le> iNodeSize r \<Longrightarrow> length (zData (nodeZero r p)) = length (zData p)"
  by (simp add: nodeZero_def)

text \<open>\<open>rtreeInsertCell\<close> on a leaf with room.\<close>

lemma rtreeInsertCell_room:
  assumes "mem st a = Some node" and "snd (nodeInsertCell (rt st) node cell) = 0"
  shows "rtreeInsertCell (Suc n) fl ops a cell 0 st =
           (let s2 = st\<lparr>mem := (mem st)(a \<mapsto> fst (nodeInsertCell (rt st) node cell))\<rparr>;
                (rc, s3) = AdjustTree ops a cell s2
            in if rc = SQLITE_OK then
                 (let (rc', w) = rowidWrite ops (iRowid cell) (iNode (the (mem s3 a))) (db s3)
                  in (Some rc', s3\<lparr>db := w\<rparr>))
               else (Some rc, s3))"
  using assms by (simp add: Let_def case_prod_beta)


section \<open>Claim C5: a new rowid that is already present, under \<^verbatim>\<open>REPLACE\<close>\<close>

text \<open>
  A host on which the deletion of row 10 fails with \<^verbatim>\<open>SQLITE_NOMEM\<close> and changes nothing,
  and is otherwise the stand-in host; a leaf (node 1) holding row 10 with the box
  \<open>[5, 6]\<close>; the policy \<^verbatim>\<open>REPLACE\<close>; and the arguments of an update that moves row 4 to the
  rowid 10 with the box \<open>[1, 3]\<close>.
\<close>

definition test_ops_delfail :: "(i64 option, test_db, real) rtree_ops" where
  "test_ops_delfail =
     test_ops\<lparr>rtreeDeleteRowid :=
                (\<lambda>r s. if r = 10 then (SQLITE_NOMEM, s) else rtreeDeleteRowid test_ops r s)\<rparr>"

definition node_ten :: RtreeNode where
  "node_ten = \<lparr>pParent = None, iNode = 1, nRef = 1, isDirty = 0,
               zData = [0, 0, 0, 1,  0, 0, 0, 0, 0, 0, 0, 10,  0, 0, 0, 5,  0, 0, 0, 6]
                       @ replicate 16 0\<rparr>"

definition test_state_ten :: "test_db rtree_state" where
  "test_state_ten =
     \<lparr>rt = rt_small, mem = [0 \<mapsto> node_ten],
      db = \<lparr>tab_node = [(1, zData node_ten)], tab_rowid = [(4, 9), (10, 1)], tab_parent = [],
            policy = SQLITE_REPLACE, chosen = []\<rparr>,
      trace = []\<rparr>"

definition az_move :: "i64 option list" where
  "az_move = [Some 4, None, Some 10, Some 1, Some 3]"

lemma test_ops_delfail_simps:
  "value_is_null test_ops_delfail = value_is_null test_ops"
  "value_int64 test_ops_delfail = value_int64 test_ops"
  "value_int test_ops_delfail = value_int test_ops"
  "value_double test_ops_delfail = value_double test_ops"
  "vtab_on_conflict test_ops_delfail = vtab_on_conflict test_ops"
  "readRowid test_ops_delfail = readRowid test_ops"
  "rowidWrite test_ops_delfail = rowidWrite test_ops"
  "finalize_all test_ops_delfail = finalize_all test_ops"
  "newRowid test_ops_delfail = newRowid test_ops"
  "ChooseLeaf test_ops_delfail = ChooseLeaf test_ops"
  "nodeRelease test_ops_delfail = nodeRelease test_ops"
  "AdjustTree test_ops_delfail = AdjustTree test_ops"
  "rtreeDeleteRowid test_ops_delfail r s
     = (if r = 10 then (SQLITE_NOMEM, s) else rtreeDeleteRowid test_ops r s)"
  by (simp_all add: test_ops_delfail_def)

text \<open>
  C5. Under \<^verbatim>\<open>REPLACE\<close> the existing row with the new rowid is to be deleted before the
  new record is inserted. \<open>rtreeUpdate\<close> calls \<open>rtreeDeleteRowid\<close> for it and keeps the
  result in \<^verbatim>\<open>rc\<close>, but when \<^verbatim>\<open>azData[0]\<close> is not NULL the next statement assigns \<^verbatim>\<open>rc\<close>
  again, from the deletion of the old row, before anything has tested it. On the run
  below the deletion of row 10 fails, the deletion of row 4 succeeds, and the call
  returns \<^verbatim>\<open>SQLITE_OK\<close> with the new record in the leaf next to the row that was not
  deleted: two cells with rowid 10. With \<^verbatim>\<open>azData[0]\<close> NULL (a plain insert) the same
  failure is returned and nothing is changed.
\<close>

theorem rtreeUpdate_replace_delete_fails:
  "vtab_on_conflict test_ops_delfail (db test_state_ten) = SQLITE_REPLACE
   \<and> fst (readRowid test_ops_delfail 10 (db test_state_ten)) = SQLITE_ROW
   \<and> nodeGetCell rt_small (the (mem test_state_ten 0)) 0 = \<lparr>iRowid = 10, aCoord = [5, 6]\<rparr>
   \<and> rtreeDeleteRowid test_ops_delfail 10 (rtreeReference test_state_ten)
       = (SQLITE_NOMEM, rtreeReference test_state_ten)
   \<and> fst (rtreeUpdate (rtreeInsertCell (Suc 0) exact_fl test_ops_delfail) exact_fl test_ops_delfail
             az_move test_state_ten) = Some SQLITE_OK
   \<and> map (nodeGetCell rt_small
             (the (mem (snd (snd (rtreeUpdate (rtreeInsertCell (Suc 0) exact_fl test_ops_delfail)
                                     exact_fl test_ops_delfail az_move test_state_ten))) 0)))
         [0, 1]
       = [\<lparr>iRowid = 10, aCoord = [5, 6]\<rparr>, \<lparr>iRowid = 10, aCoord = [1, 3]\<rparr>]
   \<and> rtreeUpdate (rtreeInsertCell (Suc 0) exact_fl test_ops_delfail) exact_fl test_ops_delfail
         (az_move[0 := None]) test_state_ten
       = (Some SQLITE_NOMEM, None, test_state_ten)"
proof -
  let ?ops = test_ops_delfail
  let ?ins = "rtreeInsertCell (Suc 0) exact_fl ?ops"
  let ?cell = "\<lparr>iRowid = 10, aCoord = [1, 3]\<rparr> :: RtreeCell"
  let ?S = "rtreeReference test_state_ten"
  have p: "vtab_on_conflict ?ops (db test_state_ten) = SQLITE_REPLACE"
    by (simp add: test_ops_delfail_simps test_ops_simps test_state_ten_def)
  have r: "readRowid ?ops 10 (db test_state_ten) = (SQLITE_ROW, SQLITE_OK)"
    by (simp add: test_ops_delfail_simps test_ops_simps test_state_ten_def)
  have g: "nodeGetCell rt_small (the (mem test_state_ten 0)) 0 = \<lparr>iRowid = 10, aCoord = [5, 6]\<rparr>"
    by (simp add: test_state_ten_def nodeGetCell_def nodeGetRowid_def nodeGetCoord_def readInt64_def
        readCoord_def rt_small_def node_ten_def upt_rec)
  have d: "rtreeDeleteRowid ?ops 10 ?S = (SQLITE_NOMEM, ?S)"
    by (simp add: test_ops_delfail_simps)
  have d1: "nDim (rt test_state_ten) = 1" "eCoordType (rt test_state_ten) \<noteq> RTREE_COORD_REAL32"
    by (simp_all add: test_state_ten_def rt_small_def RTREE_COORD_REAL32_def)
  have c: "record_coords exact_fl ?ops (rt test_state_ten) az = [1, 3]"
    and n: "\<not> bad_range exact_fl ?ops (rt test_state_ten) az"
    and l: "1 < length az" and v2: "\<not> value_is_null ?ops (az ! 2)"
    and vi: "value_int64 ?ops (az ! 2) = 10"
    if "az = az_move \<or> az = az_move[0 := None]" for az
  proof -
    have lo: "record_lo exact_fl ?ops (rt test_state_ten) az 0 = 1"
      and hi: "record_hi exact_fl ?ops (rt test_state_ten) az 0 = 3"
      using that
      by (auto simp add: record_lo_def record_hi_def d1 az_move_def test_ops_delfail_simps test_ops_simps)
    show "record_coords exact_fl ?ops (rt test_state_ten) az = [1, 3]"
      unfolding record_coords_def d1 by (simp add: lo hi)
    show "\<not> bad_range exact_fl ?ops (rt test_state_ten) az"
      unfolding bad_range_def d1 by (simp add: lo hi coord_less_def d1)
    show "1 < length az" using that by (auto simp add: az_move_def)
    show "\<not> value_is_null ?ops (az ! 2)"
      using that by (auto simp add: az_move_def test_ops_delfail_simps test_ops_simps)
    show "value_int64 ?ops (az ! 2) = 10"
      using that by (auto simp add: az_move_def test_ops_delfail_simps test_ops_simps)
  qed
  have m1: "az_move = az_move \<or> az_move = az_move[0 := None]" by simp
  have m2: "az_move[0 := None] = az_move \<or> az_move[0 := None] = az_move[0 := None]" by simp
  have v0: "value_is_null ?ops (az_move ! 0) \<or> value_int64 ?ops (az_move ! 0) \<noteq> value_int64 ?ops (az_move ! 2)"
    by (simp add: az_move_def test_ops_delfail_simps test_ops_simps)
  have v0': "value_is_null ?ops (az_move[0 := None] ! 0)
             \<or> value_int64 ?ops (az_move[0 := None] ! 0) \<noteq> value_int64 ?ops (az_move[0 := None] ! 2)"
    by (simp add: az_move_def test_ops_delfail_simps test_ops_simps)
  have A: "rtreeUpdate ?ins exact_fl ?ops az_move test_state_ten
             = rtreeUpdate_rest ?ins ?ops az_move SQLITE_NOMEM ?cell True ?S"
    unfolding rtreeUpdate_new_rowid [OF l [OF m1] n [OF m1] v2 [OF m1] v0] c [OF m1] vi [OF m1]
    by (simp only: Let_def RtreeCell.simps r prod.case simp_thms if_True p d)
  have B: "rtreeUpdate ?ins exact_fl ?ops (az_move[0 := None]) test_state_ten
             = rtreeUpdate_rest ?ins ?ops (az_move[0 := None]) SQLITE_NOMEM ?cell True ?S"
    unfolding rtreeUpdate_new_rowid [OF l [OF m2] n [OF m2] v2 [OF m2] v0'] c [OF m2] vi [OF m2]
    by (simp only: Let_def RtreeCell.simps r prod.case simp_thms if_True p d)
  have nb: "nBusy (rt test_state_ten) \<noteq> 0" by (simp add: test_state_ten_def rt_small_def)
  have B': "rtreeUpdate_rest ?ins ?ops (az_move[0 := None]) SQLITE_NOMEM ?cell True ?S
              = (Some SQLITE_NOMEM, None, test_state_ten)"
    by (simp add: rtreeUpdate_rest_def az_move_def test_ops_delfail_simps test_ops_simps
        SQLITE_NOMEM_def SQLITE_OK_def rtreeRelease_rtreeReference [OF nb] del: rtreeInsertCell.simps)
  have f: "snd (nodeInsertCell r node_ten c) = 0" if "iNodeSize r = 36" "nBytesPerCell r = 16" for r c
    using that by (simp add: nodeInsertCell_def node_ten_def NCELL_def readInt16_def c_div_def Let_def)
  have q: "nodeInsertCell (r\<lparr>nBusy := x\<rparr>) node c = nodeInsertCell r node c" for r x node c
    by (simp add: nodeInsertCell_def nodeOverwriteCell_def Let_def)
  note ev = rtreeUpdate_rest_def rtreeUpdate_insert_def az_move_def test_ops_delfail_simps
    test_ops_simps rtreeInsertCell_room [where node = node_ten] f q rtreeReference_def
    rtreeRelease_def test_state_ten_def Let_def SQLITE_OK_def SQLITE_NOMEM_def
  have rs: "iNodeSize rt_small = 36" "nBytesPerCell rt_small = 16" "nBusy rt_small = 1"
    by (simp_all add: rt_small_def)
  have R1: "fst (rtreeUpdate_rest ?ins ?ops az_move SQLITE_NOMEM ?cell True ?S) = Some SQLITE_OK"
    by (simp add: ev rs del: rtreeInsertCell.simps)
  have R2: "the (mem (snd (snd (rtreeUpdate_rest ?ins ?ops az_move SQLITE_NOMEM ?cell True ?S))) 0)
              = fst (nodeInsertCell rt_small node_ten ?cell)"
    by (simp add: ev rs del: rtreeInsertCell.simps)
  have k: "map (nodeGetCell rt_small (fst (nodeInsertCell rt_small node_ten ?cell))) [0, 1]
             = [\<lparr>iRowid = 10, aCoord = [5, 6]\<rparr>, ?cell]"
    by (simp add: nodeInsertCell_def nodeOverwriteCell_def NCELL_def readInt16_def writeInt16_def
        writeInt64_def writeCoord_def nodeGetCell_def nodeGetRowid_def nodeGetCoord_def readInt64_def
        readCoord_def rt_small_def node_ten_def c_div_def Let_def upt_rec)
  have A1: "fst (rtreeUpdate ?ins exact_fl ?ops az_move test_state_ten) = Some SQLITE_OK"
    unfolding A by (rule R1)
  have A2: "map (nodeGetCell rt_small
             (the (mem (snd (snd (rtreeUpdate ?ins exact_fl ?ops az_move test_state_ten))) 0))) [0, 1]
       = [\<lparr>iRowid = 10, aCoord = [5, 6]\<rparr>, ?cell]"
    unfolding A R2 by (rule k)
  show ?thesis
    using p r g d A1 A2 B [unfolded B'] by simp
qed


section \<open>Claim C1: what \<open>Reinsert\<close> keeps and what it re-inserts\<close>

text \<open>
  A one-dimensional integer tree whose nodes have 100 bytes, so that a node holds at
  most \<open>M = 6\<close> cells and \<^verbatim>\<open>RTREE_REINSERT\<close> is \<open>m = 2\<close>; a full leaf (node 2) with the rows
  1 to 6; the new cell, row 7; and an empty leaf (node 3). On the host used here
  \<open>ChooseLeaf\<close> answers with the empty leaf.
\<close>

definition rt_six :: Rtree where
  "rt_six = \<lparr>iNodeSize = 100, nDim = 1, nBytesPerCell = 16, iDepth = 1, aHash = replicate 128 [],
             nBusy = 1, iReinsertHeight = 0, eCoordType = 1\<rparr>"

definition node_six :: RtreeNode where
  "node_six = \<lparr>pParent = None, iNode = 2, nRef = 1, isDirty = 0,
       zData = [0, 0, 0, 6,
                 0, 0, 0, 0, 0, 0, 0, 1, 0, 0, 0, 4, 0, 0, 0, 9,
                 0, 0, 0, 0, 0, 0, 0, 2, 0, 0, 0, 4, 0, 0, 0, 11,
                 0, 0, 0, 0, 0, 0, 0, 3, 0, 0, 0, 1, 0, 0, 0, 9,
                 0, 0, 0, 0, 0, 0, 0, 4, 0, 0, 0, 8, 0, 0, 0, 8,
                 0, 0, 0, 0, 0, 0, 0, 5, 0, 0, 0, 8, 0, 0, 0, 11,
                 0, 0, 0, 0, 0, 0, 0, 6, 0, 0, 0, 6, 0, 0, 0, 7]\<rparr>"

definition node_spare :: RtreeNode where
  "node_spare = \<lparr>pParent = None, iNode = 3, nRef = 1, isDirty = 0, zData = replicate 100 0\<rparr>"

definition cell_g :: RtreeCell where
  "cell_g = \<lparr>iRowid = 7, aCoord = [5, 7]\<rparr>"

definition cells_six :: "RtreeCell list" where
  "cells_six =
     [\<lparr>iRowid = 1, aCoord = [4, 9]\<rparr>,
      \<lparr>iRowid = 2, aCoord = [4, 11]\<rparr>,
      \<lparr>iRowid = 3, aCoord = [1, 9]\<rparr>,
      \<lparr>iRowid = 4, aCoord = [8, 8]\<rparr>,
      \<lparr>iRowid = 5, aCoord = [8, 11]\<rparr>,
      \<lparr>iRowid = 6, aCoord = [6, 7]\<rparr>,
      \<lparr>iRowid = 7, aCoord = [5, 7]\<rparr>]"

definition test_ops_far :: "(i64 option, test_db, real) rtree_ops" where
  "test_ops_far =
     test_ops\<lparr>ChooseLeaf := (\<lambda>c h s. (SQLITE_OK, 1, s\<lparr>db := (db s)\<lparr>chosen := chosen (db s) @ [c]\<rparr>\<rparr>))\<rparr>"

definition test_state_six :: "test_db rtree_state" where
  "test_state_six = \<lparr>rt = rt_six, mem = [0 \<mapsto> node_six, 1 \<mapsto> node_spare],
                      db = db test_state, trace = []\<rparr>"

text \<open>
  \<open>spec_distance\<close> is not in the source. It is the distance as the specification words
  it, from the centre of the cell's box to the centre of the node, summed over the
  dimensions as squares; for the centre of the node it takes \<^verbatim>\<open>aCenterCoord\<close> as the
  source computes it. It is here to be compared with \<open>Reinsert_distance\<close>.
\<close>

definition spec_distance :: "'d c_float \<Rightarrow> Rtree \<Rightarrow> RtreeCell list \<Rightarrow> int \<Rightarrow> nat \<Rightarrow> 'd" where
  "spec_distance fl pRtree aCell nCell ii =
     fold (\<lambda>iDim acc.
             (let mid = d_div fl (d_add fl (DCOORD fl pRtree (aCoord (aCell ! ii) ! (iDim * 2)))
                                          (DCOORD fl pRtree (aCoord (aCell ! ii) ! (iDim * 2 + 1))))
                                 (d_of_int fl 2);
                  c = Reinsert_center fl pRtree aCell nCell iDim
              in d_add fl acc (d_mul fl (d_sub fl mid c) (d_sub fl mid c))))
          [0..<nat (nDim pRtree)] (d_of_int fl 0)"

lemma NCELL_node_six: "NCELL node_six = 6"
  by (simp add: NCELL_def node_six_def readInt16_def)

lemma nodeGetCell_node_six:
  "nodeGetCell rt_six node_six 0 = \<lparr>iRowid = 1, aCoord = [4, 9]\<rparr>"
  "nodeGetCell rt_six node_six 1 = \<lparr>iRowid = 2, aCoord = [4, 11]\<rparr>"
  "nodeGetCell rt_six node_six 2 = \<lparr>iRowid = 3, aCoord = [1, 9]\<rparr>"
  "nodeGetCell rt_six node_six 3 = \<lparr>iRowid = 4, aCoord = [8, 8]\<rparr>"
  "nodeGetCell rt_six node_six 4 = \<lparr>iRowid = 5, aCoord = [8, 11]\<rparr>"
  "nodeGetCell rt_six node_six 5 = \<lparr>iRowid = 6, aCoord = [6, 7]\<rparr>"
  by (simp_all add: nodeGetCell_def nodeGetRowid_def nodeGetCoord_def readInt64_def readCoord_def
      rt_six_def node_six_def upt_rec)

lemma Reinsert_cells_six: "Reinsert_cells rt_six node_six cell_g (NCELL node_six + 1) = cells_six"
  by (simp add: NCELL_node_six Reinsert_cells_def upt_rec nodeGetCell_node_six cell_g_def cells_six_def)

lemma Reinsert_distance_six:
  "map (Reinsert_distance exact_fl rt_six cells_six (NCELL node_six + 1)) [0..<nat (NCELL node_six + 1)]
     = [4, 0, 1, 49, 16, 36, 25]"
  by (simp add: NCELL_node_six Reinsert_distance_def Reinsert_center_def DCOORD_def exact_fl_def
      rt_six_def RTREE_COORD_REAL32_def cells_six_def upt_rec Let_def)

lemma spec_distance_six:
  "map (spec_distance exact_fl rt_six cells_six (NCELL node_six + 1)) [0..<nat (NCELL node_six + 1)]
     = [1 / 4, 1 / 4, 4, 1, 25 / 4, 1 / 4, 1]"
  by (simp add: NCELL_node_six spec_distance_def Reinsert_center_def DCOORD_def exact_fl_def
      rt_six_def RTREE_COORD_REAL32_def cells_six_def upt_rec Let_def)

lemma SortByDistance_six:
  "SortByDistance exact_fl [0..<nat (NCELL node_six + 1)] [4, 0, 1, 49, 16, 36, 25::real]
     = [1, 2, 0, 4, 6, 5, 3]"
  by (simp add: NCELL_node_six SortByDistance_msortD msortD.simps exact_fl_def upt_rec)

lemma nKeep_six: "nat (NCELL node_six + 1 - (RTREE_MINCELLS rt_six + 1)) = 4"
  by (simp add: NCELL_node_six RTREE_MINCELLS_def rt_six_def c_div_def)

lemma nCell_six: "nat (NCELL node_six + 1) = 7"
  by (simp add: NCELL_node_six)

lemma test_ops_far_simps:
  "malloc_ok test_ops_far = malloc_ok test_ops"
  "rowidWrite test_ops_far = rowidWrite test_ops"
  "parentWrite test_ops_far = parentWrite test_ops"
  "nodeRelease test_ops_far = nodeRelease test_ops"
  "AdjustTree test_ops_far = AdjustTree test_ops"
  "fixBoundingBox test_ops_far = fixBoundingBox test_ops"
  "ChooseLeaf test_ops_far c h s = (SQLITE_OK, 1, s\<lparr>db := (db s)\<lparr>chosen := chosen (db s) @ [c]\<rparr>\<rparr>)"
  by (simp_all add: test_ops_far_def)

lemma rt_six_simps:
  "iNodeSize rt_six = 100" "nBytesPerCell rt_six = 16" "nDim rt_six = 1"
  by (simp_all add: rt_six_def)

lemma node_facts_six:
  "length (zData node_six) = 100" "length (zData node_spare) = 100" "NCELL node_spare = 0"
  "iNode node_six = 2" "iNode node_spare = 3"
  by (simp_all add: node_six_def node_spare_def NCELL_def readInt16_def)

text \<open>
  The number of rounds of the two loops of \<open>Reinsert\<close> on a full node, for every
  node size: \<open>M - m\<close> cells go back into the node and \<open>m + 1\<close> are re-inserted.
\<close>

lemma Reinsert_loop_lengths:
  assumes "0 \<le> RTREE_MINCELLS pRtree" and "RTREE_MINCELLS pRtree \<le> NCELL pNode"
  shows "length [0..<nat (NCELL pNode + 1 - (RTREE_MINCELLS pRtree + 1))]
           = nat (NCELL pNode - RTREE_MINCELLS pRtree)"
    and "length [nat (NCELL pNode + 1 - (RTREE_MINCELLS pRtree + 1))..<nat (NCELL pNode + 1)]
           = nat (RTREE_MINCELLS pRtree + 1)"
  using assms by simp_all

text \<open>The two leaves after the call: the rebuilt one and the one that took the re-inserted cells.\<close>

definition node_six_kept :: RtreeNode where
  "node_six_kept =
     fold (\<lambda>c n. fst (nodeInsertCell rt_six n c))
       [cells_six ! 1, cells_six ! 2, cells_six ! 0, cells_six ! 4] (nodeZero rt_six node_six)"

definition node_spare_far :: RtreeNode where
  "node_spare_far =
     fold (\<lambda>c n. fst (nodeInsertCell rt_six n c))
       [cells_six ! 6, cells_six ! 5, cells_six ! 3] node_spare"

lemma Reinsert_six:
  "Reinsert (rtreeInsertCell (Suc 0) exact_fl test_ops_far) exact_fl test_ops_far 0 cell_g 0 test_state_six
     = (Some SQLITE_OK,
        test_state_six
          \<lparr>mem := [0 \<mapsto> node_six_kept, 1 \<mapsto> node_spare_far],
             db := (db test_state_six)
                     \<lparr>chosen := [cells_six ! 6, cells_six ! 5, cells_six ! 3],
                        tab_rowid := [(4, 3), (6, 3), (7, 3), (10, 1)]\<rparr>\<rparr>)"
proof -
  have s: "rt test_state_six = rt_six" "mem test_state_six 0 = Some node_six"
    by (simp_all add: test_state_six_def)
  show ?thesis
    unfolding Reinsert_def Let_def s option.sel Reinsert_cells_six Reinsert_distance_six
      SortByDistance_six nKeep_six
    by (simp add: nCell_six upt_rec test_ops_far_simps test_ops_simps test_state_six_def test_state_def
        cells_six_def cell_g_def rtreeInsertCell_room snd_nodeInsertCell NCELL_nodeInsertCell
        rt_six_simps node_facts_six c_div_def node_six_kept_def node_spare_far_def Let_def
        SQLITE_OK_def fun_upd_twist
        del: rtreeInsertCell.simps)
qed

lemma NCELL_node_six_kept: "NCELL node_six_kept = 4"
  by (simp add: node_six_kept_def NCELL_nodeInsertCell NCELL_nodeZero length_zData_nodeZero
      rt_six_simps node_facts_six c_div_def)

lemma NCELL_node_spare_far: "NCELL node_spare_far = 3"
  by (simp add: node_spare_far_def NCELL_nodeInsertCell rt_six_simps node_facts_six c_div_def)

lemma zData_node_six_kept:
  "zData node_six_kept =
     [0, 0, 0, 4,  0, 0, 0, 0, 0, 0, 0, 2,  0, 0, 0, 4,  0, 0, 0, 11,
                   0, 0, 0, 0, 0, 0, 0, 3,  0, 0, 0, 1,  0, 0, 0, 9,
                   0, 0, 0, 0, 0, 0, 0, 1,  0, 0, 0, 4,  0, 0, 0, 9,
                   0, 0, 0, 0, 0, 0, 0, 5,  0, 0, 0, 8,  0, 0, 0, 11] @ replicate 32 0"
  by (simp add: node_six_kept_def nodeInsertCell_def nodeOverwriteCell_def nodeZero_def NCELL_def
      readInt16_def writeInt16_def writeInt64_def writeCoord_def rt_six_def node_six_def cells_six_def
      c_div_def Let_def upt_rec)
     (simp add: eval_nat_numeral)

text \<open>
  C1. \<open>Reinsert\<close> is to measure each of the \<open>M + 1\<close> cells by the distance of its centre
  from the centre of the node, keep the \<open>M + 1 - RTREE_REINSERT\<close> nearest and re-insert the
  \<^verbatim>\<open>RTREE_REINSERT\<close> farthest. The source does neither. Its \<^verbatim>\<open>coord\<close> is the extent
  \<open>hi - lo\<close> of the cell, not its centre, so that \<^verbatim>\<open>aDistance\<close> is \<open>4, 0, 1, 49, 16, 36, 25\<close>
  where the distances of the centres are \<open>1/4, 1/4, 4, 1, 25/4, 1/4, 1\<close>; and its first
  loop stops at \<^verbatim>\<open>nCell - (RTREE_MINCELLS + 1)\<close>, so that four cells stay and three are
  re-inserted, where \<open>M + 1 - RTREE_REINSERT\<close> is five and \<^verbatim>\<open>RTREE_REINSERT\<close> is two. The
  rows 5 and 3, the farthest from the centre, stay in the node; the rows 7, 6 and 4 are
  re-inserted.
\<close>

theorem Reinsert_overfull_example:
  "NCELL node_six = nMaxCell_of rt_six
   \<and> RTREE_REINSERT rt_six = 2
   \<and> Reinsert_cells rt_six node_six cell_g 7 = cells_six
   \<and> map (Reinsert_distance exact_fl rt_six cells_six 7) [0..<7] = [4, 0, 1, 49, 16, 36, 25]
   \<and> map (spec_distance exact_fl rt_six cells_six 7) [0..<7] = [1 / 4, 1 / 4, 4, 1, 25 / 4, 1 / 4, 1]
   \<and> fst (Reinsert (rtreeInsertCell (Suc 0) exact_fl test_ops_far) exact_fl test_ops_far 0 cell_g 0
             test_state_six) = Some SQLITE_OK
   \<and> NCELL (the (mem (snd (Reinsert (rtreeInsertCell (Suc 0) exact_fl test_ops_far) exact_fl
                                 test_ops_far 0 cell_g 0 test_state_six)) 0)) = 4
   \<and> map (\<lambda>i. iRowid (nodeGetCell rt_six
                (the (mem (snd (Reinsert (rtreeInsertCell (Suc 0) exact_fl test_ops_far) exact_fl
                                  test_ops_far 0 cell_g 0 test_state_six)) 0)) i)) [0, 1, 2, 3]
       = [2, 3, 1, 5]
   \<and> map iRowid (chosen (db (snd (Reinsert (rtreeInsertCell (Suc 0) exact_fl test_ops_far) exact_fl
                                     test_ops_far 0 cell_g 0 test_state_six))))
       = [7, 6, 4]"
proof -
  have n: "NCELL node_six + 1 = 7" by (simp add: NCELL_node_six)
  have a: "NCELL node_six = nMaxCell_of rt_six"
    by (simp add: NCELL_node_six nMaxCell_of_def rt_six_def c_div_def)
  have b: "RTREE_REINSERT rt_six = 2"
    by (simp add: RTREE_REINSERT_def RTREE_MINCELLS_def rt_six_def c_div_def)
  have c: "Reinsert_cells rt_six node_six cell_g 7 = cells_six"
    using Reinsert_cells_six unfolding n .
  have d: "map (Reinsert_distance exact_fl rt_six cells_six 7) [0..<7] = [4, 0, 1, 49, 16, 36, 25]"
    using Reinsert_distance_six unfolding n by simp
  have e: "map (spec_distance exact_fl rt_six cells_six 7) [0..<7] = [1 / 4, 1 / 4, 4, 1, 25 / 4, 1 / 4, 1]"
    using spec_distance_six unfolding n by simp
  have g: "map (\<lambda>i. iRowid (nodeGetCell rt_six node_six_kept i)) [0, 1, 2, 3] = [2, 3, 1, 5]"
    by (simp add: nodeGetCell_def nodeGetRowid_def readInt64_def rt_six_def zData_node_six_kept)
  have h: "map iRowid [cells_six ! 6, cells_six ! 5, cells_six ! 3] = [7, 6, 4]"
    by (simp add: cells_six_def)
  show ?thesis
    unfolding Reinsert_six
    using a b c d e g h NCELL_node_six_kept by simp
qed

end
